(* ===== verification/Prelude.thy ===== *)
theory Prelude
  imports Main "HOL-Library.Word" "HOL-Library.AList"
begin

text \<open>
  The shared vocabulary of the development: the Python values the program handles, its
  exceptions, the result type of a statement that may raise, and the operations of \<open>dict\<close>
  and \<open>str\<close> the sources use.

  \<^item> A Python \<open>str\<close> is the list of its code points (\<open>ord\<close>), a \<open>bytes\<close> object a list of
    8-bit words; \<open>lit\<close> turns an ASCII literal of the source into the former.
  \<^item> A \<open>dict\<close> is an association list in insertion order; assignment is \<open>AList.update\<close>
    (an existing key keeps its place, a new one goes last), \<open>pop\<close> is \<open>AList.delete\<close>.
  \<^item> A statement that may raise has type \<open>py_exn + 'a\<close>; \<open>rbind\<close> runs one after another.
  \<^item> \<open>pylib\<close> collects the library calls whose code is not in the repository and whose result
    the sources only pass on (\<open>repr\<close>, SHA-256, gzip, the JSON text codec).
\<close>

named_theorems py_simps "evaluation of the small Python primitives"
named_theorems wf_intros "introduction rules for well-formedness predicates"

section \<open>Strings, bytes and exceptions\<close>

type_synonym pystr = "nat list"
type_synonym bytes = "8 word list"

definition lit :: "string \<Rightarrow> pystr" where
  "lit cs = map of_char cs"

lemma lit_eq_iff [simp]: "lit a = lit b \<longleftrightarrow> a = b"
proof
  assume "lit a = lit b"
  moreover have "inj (of_char :: char \<Rightarrow> nat)"
    by (simp add: inj_def)
  ultimately show "a = b"
    by (simp add: lit_def inj_map_eq_map)
qed simp

lemma lit_Nil [simp]: "lit [] = []"
  by (simp add: lit_def)

lemma lit_Cons: "lit (c # cs) = of_char c # lit cs"
  by (simp add: lit_def)

lemma lit_eq_Nil [simp]: "lit a = [] \<longleftrightarrow> a = []" "[] = lit a \<longleftrightarrow> a = []"
  by (auto simp: lit_def)

datatype exn_class =
    ValueError | TypeError | RuntimeError | TimeoutError | CancelledError
  | UnicodeEncodeError | UnicodeDecodeError | JSONDecodeError | ConnectionClosed
  | AssertionError | OSError
  | InvalidApiKeyError | LoginSessionError | LocalAuthorizationError
  | LocalAuthorizationServerError | BadParameter | OtherException pystr

text \<open>An exception in flight: its class and its message, \<open>str(exc)\<close>.\<close>

datatype py_exn = Exn (exn_class: exn_class) (exn_msg: pystr)

text \<open>
  \<open>except Exception\<close> catches everything the program raises but \<open>asyncio.CancelledError\<close>,
  which derives from \<open>BaseException\<close>; \<open>except ValueError\<close> also catches its subclasses.
\<close>

definition is_exception :: "py_exn \<Rightarrow> bool" where
  "is_exception e \<longleftrightarrow> exn_class e \<noteq> CancelledError"

definition is_value_error :: "py_exn \<Rightarrow> bool" where
  "is_value_error e \<longleftrightarrow>
     exn_class e \<in> {ValueError, UnicodeEncodeError, UnicodeDecodeError, JSONDecodeError}"

definition raise :: "exn_class \<Rightarrow> string \<Rightarrow> py_exn + 'a" where
  "raise c msg = Inl (Exn c (lit msg))"

lemma raise_neq_Inr [simp]: "raise c m \<noteq> Inr x" "Inr x \<noteq> raise c m"
  by (simp_all add: raise_def)

fun rbind :: "'e + 'a \<Rightarrow> ('a \<Rightarrow> 'e + 'b) \<Rightarrow> 'e + 'b" where
  "rbind (Inl e) f = Inl e"
| "rbind (Inr x) f = f x"

lemma rbind_eq_Inr: "rbind m f = Inr y \<longleftrightarrow> (\<exists>x. m = Inr x \<and> f x = Inr y)"
  by (cases m) auto

lemma rbind_eq_Inl: "rbind m f = Inl e \<longleftrightarrow> m = Inl e \<or> (\<exists>x. m = Inr x \<and> f x = Inl e)"
  by (cases m) auto

lemma rbind_raise [simp]: "rbind (raise c m) f = raise c m"
  by (simp add: raise_def)

lemma rbind_cong [fundef_cong]:
  "m = m' \<Longrightarrow> (\<And>x. m' = Inr x \<Longrightarrow> f x = g x) \<Longrightarrow> rbind m f = rbind m' g"
  by (cases m') auto

section \<open>Python values\<close>

text \<open>
  A finite float is \<open>m * 2 ^ e\<close>, as a double is. \<open>PObj s\<close> is an object outside the JSON
  types, known by its \<open>str()\<close>.
\<close>

datatype pyfloat = FFin int int | FInf bool | FNan

datatype pyval =
    PNone
  | PBool bool
  | PInt int
  | PFloat pyfloat
  | PStr pystr
  | PList "pyval list"
  | PDict "(pystr \<times> pyval) list"
  | PObj pystr

type_synonym pydict = "(pystr \<times> pyval) list"

fun is_str :: "pyval \<Rightarrow> bool" where
  "is_str (PStr _) = True"
| "is_str _ = False"

fun is_dict :: "pyval \<Rightarrow> bool" where
  "is_dict (PDict _) = True"
| "is_dict _ = False"

lemma is_dict_iff: "is_dict v \<longleftrightarrow> (\<exists>d. v = PDict d)"
  by (cases v) auto

lemma is_str_iff: "is_str v \<longleftrightarrow> (\<exists>s. v = PStr s)"
  by (cases v) auto

text \<open>The truth value of an object (\<open>if x\<close>, \<open>x or y\<close>, \<open>not x\<close>).\<close>

fun truthy :: "pyval \<Rightarrow> bool" where
  "truthy PNone = False"
| "truthy (PBool b) = b"
| "truthy (PInt i) = (i \<noteq> 0)"
| "truthy (PFloat (FFin m _)) = (m \<noteq> 0)"
| "truthy (PFloat _) = True"
| "truthy (PStr s) = (s \<noteq> [])"
| "truthy (PList vs) = (vs \<noteq> [])"
| "truthy (PDict d) = (d \<noteq> [])"
| "truthy (PObj _) = True"

text \<open>\<open>str(v)\<close>: containers, floats go through \<open>repr\<close>, the parameter \<open>r\<close>.\<close>

fun show_nat :: "nat \<Rightarrow> pystr" where
  "show_nat n = (if n < 10 then [48 + n] else show_nat (n div 10) @ [48 + n mod 10])"

declare show_nat.simps [simp del]

definition show_int :: "int \<Rightarrow> pystr" where
  "show_int i = (if i < 0 then 45 # show_nat (nat (- i)) else show_nat (nat i))"

fun py_str :: "(pyval \<Rightarrow> pystr) \<Rightarrow> pyval \<Rightarrow> pystr" where
  "py_str r PNone = lit ''None''"
| "py_str r (PBool b) = (if b then lit ''True'' else lit ''False'')"
| "py_str r (PInt i) = show_int i"
| "py_str r (PStr s) = s"
| "py_str r (PObj s) = s"
| "py_str r v = r v"

definition digits_val :: "pystr \<Rightarrow> nat" where
  "digits_val s = foldl (\<lambda>a d. 10 * a + (d - 48)) 0 s"

lemma digits_val_show_nat [simp]: "digits_val (show_nat n) = n"
proof (induction n rule: show_nat.induct)
  case (1 n)
  show ?case
  proof (cases "n < 10")
    case True
    then show ?thesis by (simp add: show_nat.simps [of n] digits_val_def)
  next
    case False
    then have "digits_val (show_nat (n div 10)) = n div 10" using 1 by simp
    with False show ?thesis by (simp add: show_nat.simps [of n] digits_val_def)
  qed
qed

lemma show_nat_inject [simp]: "show_nat m = show_nat n \<longleftrightarrow> m = n"
  by (metis digits_val_show_nat)

lemma show_nat_digits: "d \<in> set (show_nat n) \<Longrightarrow> 48 \<le> d \<and> d \<le> 57"
proof (induction n rule: show_nat.induct)
  case (1 n)
  show ?case
  proof (cases "n < 10")
    case True
    with "1.prems" show ?thesis by (simp add: show_nat.simps [of n])
  next
    case False
    then have "d \<in> set (show_nat (n div 10)) \<or> d = 48 + n mod 10"
      using "1.prems" by (auto simp: show_nat.simps [of n])
    moreover have "n mod 10 < 10" by simp
    ultimately show ?thesis using "1.IH" False by auto
  qed
qed

lemma show_nat_not_Nil [simp]: "show_nat n \<noteq> []"
  by (subst show_nat.simps) simp

lemma show_int_digits: "d \<in> set (show_int i) \<Longrightarrow> d = 45 \<or> (48 \<le> d \<and> d \<le> 57)"
  by (auto simp: show_int_def dest: show_nat_digits split: if_splits)

lemma show_int_inject [simp]: "show_int i = show_int j \<longleftrightarrow> i = j"
proof -
  have minus: "show_nat n \<noteq> 45 # xs" for n xs
    using show_nat_digits [of 45 n] by auto
  then have minus': "45 # xs \<noteq> show_nat n" for n xs
    by metis
  show ?thesis by (auto simp: show_int_def minus minus')
qed

section \<open>Operations on dictionaries\<close>

definition dict_get :: "(pystr \<times> 'v) list \<Rightarrow> pystr \<Rightarrow> 'v \<Rightarrow> 'v" where
  "dict_get d k dflt = (case map_of d k of None \<Rightarrow> dflt | Some v \<Rightarrow> v)"

definition dict_set :: "'k \<Rightarrow> 'v \<Rightarrow> ('k \<times> 'v) list \<Rightarrow> ('k \<times> 'v) list" where
  "dict_set k v d = AList.update k v d"

definition dict_pop :: "'k \<Rightarrow> ('k \<times> 'v) list \<Rightarrow> ('k \<times> 'v) list" where
  "dict_pop k d = AList.delete k d"

definition dict_update :: "('k \<times> 'v) list \<Rightarrow> ('k \<times> 'v) list \<Rightarrow> ('k \<times> 'v) list" where
  "dict_update d e = foldl (\<lambda>acc (k, v). dict_set k v acc) d e"

text \<open>What \<open>dict\<close> guarantees: no key twice.\<close>

definition wf_dict :: "('k \<times> 'v) list \<Rightarrow> bool" where
  "wf_dict d \<longleftrightarrow> distinct (map fst d)"

lemma map_of_dict_set [simp]: "map_of (dict_set k v d) = (map_of d)(k \<mapsto> v)"
  by (simp add: dict_set_def update_conv')

lemma map_of_dict_pop [simp]: "map_of (dict_pop k d) = (map_of d)(k := None)"
  by (simp add: dict_pop_def delete_conv')

lemma wf_dict_Nil [simp, intro]: "wf_dict []"
  by (simp add: wf_dict_def)

lemma wf_dict_set [simp, intro]: "wf_dict d \<Longrightarrow> wf_dict (dict_set k v d)"
  by (simp add: wf_dict_def dict_set_def distinct_update)

lemma wf_dict_pop [simp, intro]: "wf_dict d \<Longrightarrow> wf_dict (dict_pop k d)"
  by (simp add: wf_dict_def dict_pop_def distinct_delete)

lemma wf_dict_update [simp, intro]: "wf_dict d \<Longrightarrow> wf_dict (dict_update d e)"
  unfolding dict_update_def by (induction e arbitrary: d) auto

lemma keys_dict_set [simp]: "fst ` set (dict_set k v d) = insert k (fst ` set d)"
  by (simp add: dict_set_def dom_update)

lemma keys_dict_pop [simp]: "fst ` set (dict_pop k d) = fst ` set d - {k}"
  by (auto simp: dict_pop_def AList.delete_eq)

lemma set_dict_pop: "set (dict_pop k d) = {p \<in> set d. fst p \<noteq> k}"
  by (auto simp: dict_pop_def AList.delete_eq)

lemma map_of_dict_update:
  "map_of (dict_update d e) k = (case map_of (rev e) k of None \<Rightarrow> map_of d k | Some v \<Rightarrow> Some v)"
  unfolding dict_update_def
  by (induction e arbitrary: d) (auto simp: map_add_def split: option.splits)

lemma map_of_neq_Some_iff: "k \<notin> fst ` set d \<longleftrightarrow> map_of d k = None"
  by (simp add: map_of_eq_None_iff)

lemma length_dict_set:
  "length (dict_set k v d) = (if k \<in> fst ` set d then length d else Suc (length d))"
  unfolding dict_set_def by (induction d) auto

lemma dict_pop_absent [simp]: "k \<notin> fst ` set d \<Longrightarrow> dict_pop k d = d"
  by (simp add: dict_pop_def delete_id)

lemma dict_get_simps [simp]:
  "dict_get [] k d = d"
  "dict_get ((k', v) # xs) k d = (if k = k' then v else dict_get xs k d)"
  by (simp_all add: dict_get_def)

lemma dict_get_None: "map_of d k = None \<Longrightarrow> dict_get d k dflt = dflt"
  by (simp add: dict_get_def)

lemma dict_get_Some: "map_of d k = Some v \<Longrightarrow> dict_get d k dflt = v"
  by (simp add: dict_get_def)

text \<open>\<open>d.get("k")\<close>\<close>

abbreviation get :: "pydict \<Rightarrow> string \<Rightarrow> pyval" where
  "get d k \<equiv> dict_get d (lit k) PNone"

section \<open>Library calls\<close>

text \<open>
  The results of library code the program passes on without looking inside: \<open>repr\<close> of floats and
  containers, \<open>hashlib.sha256(b).hexdigest()\<close>, \<open>gzip.compress\<close> and \<open>gzip.decompress\<close>,
  \<open>json.dumps\<close> (\<open>ensure_ascii\<close>, then whether the separators are the compact ones) and
  \<open>json.loads\<close>.
\<close>

record pylib =
  lib_repr :: "pyval \<Rightarrow> pystr"
  lib_sha256 :: "bytes \<Rightarrow> pystr"
  lib_gzip :: "bytes \<Rightarrow> bytes"
  lib_gunzip :: "bytes \<Rightarrow> py_exn + bytes"
  lib_dumps :: "bool \<Rightarrow> bool \<Rightarrow> pyval \<Rightarrow> py_exn + pystr"
  lib_loads :: "pystr \<Rightarrow> py_exn + pyval"

definition lib_str :: "pylib \<Rightarrow> pyval \<Rightarrow> pystr" where
  "lib_str L v = py_str (lib_repr L) v"

lemma lib_str_simps [simp]:
  "lib_str L (PStr s) = s" "lib_str L (PInt i) = show_int i" "lib_str L PNone = lit ''None''"
  by (simp_all add: lib_str_def)

end
