(* ===== verification/PyText.thy ===== *)
theory PyText
  imports Prelude
begin

text \<open>
  The text primitives of Python 3.11 the program computes with: \<open>str.strip\<close>, \<open>int(str)\<close>,
  strict UTF-8, and \<open>base64\<close> with \<open>validate=True\<close>, each executable and with the round trip
  its users rely on.  The two codecs are interpretations of one interface, \<open>text_codec\<close>.
\<close>

section \<open>White space and integers\<close>

text \<open>\<open>str.isspace\<close> of a single character.\<close>

definition py_space :: "nat \<Rightarrow> bool" where
  "py_space c \<longleftrightarrow>
     c \<in> {9, 10, 11, 12, 13, 28, 29, 30, 31, 32, 133, 160, 5760, 8232, 8233, 8239, 8287, 12288}
     \<or> (8192 \<le> c \<and> c \<le> 8202)"

definition py_lstrip :: "pystr \<Rightarrow> pystr" where
  "py_lstrip s = dropWhile py_space s"

definition py_rstrip :: "pystr \<Rightarrow> pystr" where
  "py_rstrip s = rev (dropWhile py_space (rev s))"

definition py_strip :: "pystr \<Rightarrow> pystr" where
  "py_strip s = py_rstrip (py_lstrip s)"

lemma py_strip_Nil [simp]: "py_strip [] = []"
  by (simp add: py_strip_def py_lstrip_def py_rstrip_def)

lemma set_dropWhile_subset: "set (dropWhile P xs) \<subseteq> set xs"
  by (induction xs) auto

lemma dropWhile_stop: "dropWhile P xs = [] \<or> \<not> P (hd (dropWhile P xs))"
  by (metis hd_dropWhile)

lemma dropWhile_id_if: "xs = [] \<or> \<not> P (hd xs) \<Longrightarrow> dropWhile P xs = xs"
  by (cases xs) auto

lemma py_strip_eq_Nil: "py_strip s = [] \<longleftrightarrow> (\<forall>c \<in> set s. py_space c)"
proof
  assume "py_strip s = []"
  then have "\<forall>c \<in> set (dropWhile py_space s). py_space c"
    unfolding py_strip_def py_lstrip_def py_rstrip_def
    by (metis dropWhile_eq_Nil_conv rev_is_Nil_conv set_rev)
  then have "dropWhile py_space s = []"
    using dropWhile_stop [of py_space s] by (metis list.set_sel(1))
  then show "\<forall>c \<in> set s. py_space c" by simp
next
  assume "\<forall>c \<in> set s. py_space c"
  then have "dropWhile py_space s = []" by simp
  then show "py_strip s = []"
    by (simp only: py_strip_def py_lstrip_def py_rstrip_def) simp
qed

lemma set_py_strip: "set (py_strip s) \<subseteq> set s"
  unfolding py_strip_def py_lstrip_def py_rstrip_def
  by (metis set_dropWhile_subset set_rev subset_trans)

lemma hd_py_rstrip: "py_rstrip s = [] \<or> hd (py_rstrip s) = hd s"
proof -
  have "s = py_rstrip s @ rev (takeWhile py_space (rev s))"
    unfolding py_rstrip_def by (metis rev_append rev_rev_ident takeWhile_dropWhile_id)
  then show ?thesis by (metis hd_append2)
qed

lemma py_rstrip_idem [simp]: "py_rstrip (py_rstrip s) = py_rstrip s"
  unfolding py_rstrip_def by (simp add: dropWhile_id_if dropWhile_stop)

lemma py_strip_idem [simp]: "py_strip (py_strip s) = py_strip s"
proof -
  have "py_rstrip (py_lstrip s) = [] \<or> \<not> py_space (hd (py_rstrip (py_lstrip s)))"
  proof (cases "py_lstrip s = []")
    case True
    then show ?thesis by (simp add: py_rstrip_def)
  next
    case False
    then have "\<not> py_space (hd (py_lstrip s))"
      using dropWhile_stop [of py_space s] unfolding py_lstrip_def by blast
    then show ?thesis using hd_py_rstrip [of "py_lstrip s"] by auto
  qed
  then have "py_lstrip (py_strip s) = py_strip s"
    unfolding py_strip_def py_lstrip_def by (rule dropWhile_id_if)
  then show ?thesis by (simp add: py_strip_def)
qed

text \<open>
  The decimal digits of Unicode 14 (Python 3.11): each block of ten starts at one of these code
  points.  \<open>int()\<close> accepts them all.
\<close>

definition decimal_zeros :: "nat list" where
  "decimal_zeros = [48,
     1632, 1776, 1984, 2406, 2534, 2662, 2790, 2918, 3046, 3174, 3302, 3430, 3558, 3664, 3792,
     3872, 4160, 4240, 6112, 6160, 6470, 6608, 6784, 6800, 6992, 7088, 7232, 7248, 42528, 43216,
     43264, 43472, 43504, 43600, 44016, 65296, 66720, 68912, 69734, 69872, 69942, 70096, 70384,
     70736, 70864, 71248, 71360, 71472, 71904, 72016, 72784, 73040, 73120, 92768, 92864, 93008,
     120782, 120792, 120802, 120812, 120822, 123200, 123632, 125264, 130032]"

definition py_decimal :: "nat \<Rightarrow> nat option" where
  "py_decimal c = map_option (\<lambda>z. c - z) (find (\<lambda>z. z \<le> c \<and> c \<le> z + 9) decimal_zeros)"

text \<open>Digits with single underscores between them.\<close>

fun int_digits :: "pystr \<Rightarrow> nat list option" where
  "int_digits [] = None"
| "int_digits [c] = map_option (\<lambda>d. [d]) (py_decimal c)"
| "int_digits (c # c' # cs) =
     (case py_decimal c of
        None \<Rightarrow> None
      | Some d \<Rightarrow> map_option (Cons d) (if c' = 95 then int_digits cs else int_digits (c' # cs)))"

definition max_str_digits :: nat where
  "max_str_digits = 4300"

text \<open>\<open>int(s)\<close> and \<open>int(s, 10)\<close> of a string.\<close>

definition py_int :: "pystr \<Rightarrow> py_exn + int" where
  "py_int s =
     (let t = py_strip s;
          neg = (t \<noteq> [] \<and> hd t = 45);
          u = (if t \<noteq> [] \<and> (hd t = 43 \<or> hd t = 45) then tl t else t)
      in case int_digits u of
           None \<Rightarrow> raise ValueError ''invalid literal for int() with base 10''
         | Some ds \<Rightarrow>
             if length ds > max_str_digits
             then raise ValueError ''Exceeds the limit (4300 digits) for integer string conversion''
             else Inr ((if neg then -1 else 1) * int (foldl (\<lambda>a d. 10 * a + d) 0 ds)))"

section \<open>UTF-8\<close>

text \<open>\<open>c\<close> as UTF-8: a surrogate (or a number that is no code point) cannot be encoded.\<close>

definition utf8_char :: "nat \<Rightarrow> bytes option" where
  "utf8_char c =
     (if c < 128 then Some [of_nat c]
      else if c < 2048 then Some [of_nat (192 + c div 64), of_nat (128 + c mod 64)]
      else if 55296 \<le> c \<and> c < 57344 then None
      else if c < 65536 then
        Some [of_nat (224 + c div 4096), of_nat (128 + c div 64 mod 64), of_nat (128 + c mod 64)]
      else if c < 1114112 then
        Some [of_nat (240 + c div 262144), of_nat (128 + c div 4096 mod 64),
              of_nat (128 + c div 64 mod 64), of_nat (128 + c mod 64)]
      else None)"

text \<open>\<open>s.encode("utf-8")\<close>\<close>

fun utf8_encode :: "pystr \<Rightarrow> py_exn + bytes" where
  "utf8_encode [] = Inr []"
| "utf8_encode (c # cs) =
     (case utf8_char c of
        None \<Rightarrow> raise UnicodeEncodeError ''surrogates not allowed''
      | Some bs \<Rightarrow> rbind (utf8_encode cs) (\<lambda>rest. Inr (bs @ rest)))"

text \<open>The first character of a byte string and the number of bytes it takes, strictly decoded.\<close>

definition utf8_scan :: "nat list \<Rightarrow> (nat \<times> nat) option" where
  "utf8_scan xs =
     (let b = hd xs;
          tails = (\<lambda>n. length xs > n \<and> list_all (\<lambda>x. x div 64 = 2) (take n (tl xs)));
          t = (\<lambda>i. xs ! i mod 64)
      in if b < 128 then Some (b, 1)
         else if 194 \<le> b \<and> b < 224 \<and> tails 1 then Some ((b - 192) * 64 + t 1, 2)
         else if 224 \<le> b \<and> b < 240 \<and> tails 2 then
           (let c = (b - 224) * 4096 + t 1 * 64 + t 2
            in if 2048 \<le> c \<and> \<not> (55296 \<le> c \<and> c < 57344) then Some (c, 3) else None)
         else if 240 \<le> b \<and> b < 245 \<and> tails 3 then
           (let c = (b - 240) * 262144 + t 1 * 4096 + t 2 * 64 + t 3
            in if 65536 \<le> c \<and> c < 1114112 then Some (c, 4) else None)
         else None)"

definition utf8_next :: "bytes \<Rightarrow> (nat \<times> nat) option" where
  "utf8_next bs = utf8_scan (map unat (take 4 bs))"

lemma utf8_next_pos: "utf8_next bs = Some (c, n) \<Longrightarrow> 0 < n"
  by (auto simp: utf8_next_def utf8_scan_def Let_def split: if_splits)

text \<open>\<open>bs.decode("utf-8")\<close>\<close>

function utf8_decode :: "bytes \<Rightarrow> py_exn + pystr" where
  "utf8_decode bs =
     (if bs = [] then Inr []
      else case utf8_next bs of
             None \<Rightarrow> raise UnicodeDecodeError ''invalid utf-8''
           | Some (c, n) \<Rightarrow> rbind (utf8_decode (drop n bs)) (\<lambda>cs. Inr (c # cs)))"
  by pat_completeness auto
termination
  by (relation "measure length") (auto dest: utf8_next_pos)

declare utf8_decode.simps [simp del]

lemma utf8_decode_Nil [simp]: "utf8_decode [] = Inr []"
  by (simp add: utf8_decode.simps)

lemma unat_of_nat_8 [simp]: "n < 256 \<Longrightarrow> unat (of_nat n :: 8 word) = n"
  by (simp add: unat_of_nat)

lemma cont_byte_arith:
  assumes "l < (64::nat)"
  shows "(128 + l) div 64 = 2" and "(128 + l) mod 64 = l"
proof -
  have "128 + l = l + 2 * 64" by simp
  then show "(128 + l) div 64 = 2" "(128 + l) mod 64 = l"
    using assms by (simp_all only: div_mult_self1 mod_mult_self1 div_less mod_less)
qed

lemma small_nth: "(x # y # xs) ! 1 = y" "(x # y # z # xs) ! 2 = z" "(x # y # z # w # xs) ! 3 = w"
  by (simp_all add: numeral_2_eq_2 numeral_3_eq_3)

lemma small_take: "take 1 (x # xs) = [x]" "take 2 (x # y # xs) = [x, y]"
  "take 3 (x # y # z # xs) = [x, y, z]"
  by (simp_all add: numeral_2_eq_2 numeral_3_eq_3)

lemma utf8_scan_2:
  assumes "2 \<le> h" "h < 32" "l < 64"
  shows "utf8_scan ((192 + h) # (128 + l) # xs) = Some (h * 64 + l, 2)"
  using assms unfolding utf8_scan_def Let_def list.sel small_nth small_take
  by (simp add: cont_byte_arith)

lemma utf8_scan_3:
  assumes "h < 16" "m < 64" "l < 64" and "c = h * 4096 + m * 64 + l"
    and "2048 \<le> c" "\<not> (55296 \<le> c \<and> c < 57344)"
  shows "utf8_scan ((224 + h) # (128 + m) # (128 + l) # xs) = Some (c, 3)"
  using assms unfolding utf8_scan_def Let_def list.sel small_nth small_take
  by (simp add: cont_byte_arith)

lemma utf8_scan_4:
  assumes "h < 5" "k < 64" "m < 64" "l < 64"
    and "c = h * 262144 + k * 4096 + m * 64 + l" and "65536 \<le> c" "c < 1114112"
  shows "utf8_scan ((240 + h) # (128 + k) # (128 + m) # (128 + l) # xs) = Some (c, 4)"
  using assms unfolding utf8_scan_def Let_def list.sel small_nth small_take
  by (simp add: cont_byte_arith)

lemma base64_split3: "c = c div 4096 * 4096 + c div 64 mod 64 * 64 + c mod (64::nat)"
proof -
  have "c div 4096 = c div 64 div 64" using div_mult2_eq [of c 64 64] by simp
  moreover have "c div 64 = c div 64 div 64 * 64 + c div 64 mod 64" by simp
  moreover have "c = c div 64 * 64 + c mod 64" by simp
  ultimately show ?thesis by linarith
qed

lemma base64_split4:
  "c = c div 262144 * 262144 + c div 4096 mod 64 * 4096 + c div 64 mod 64 * 64 + c mod (64::nat)"
proof -
  have "c div 262144 = c div 4096 div 64" using div_mult2_eq [of c 4096 64] by simp
  moreover have "c div 4096 = c div 4096 div 64 * 64 + c div 4096 mod 64" by simp
  moreover note base64_split3 [of c]
  ultimately show ?thesis by linarith
qed

lemma utf8_char_cases:
  assumes "utf8_char c = Some bs"
  obtains "c < 128" "bs = [of_nat c]"
  | "128 \<le> c" "c < 2048" "bs = [of_nat (192 + c div 64), of_nat (128 + c mod 64)]"
  | "2048 \<le> c" "c < 65536" "\<not> (55296 \<le> c \<and> c < 57344)"
    "bs = [of_nat (224 + c div 4096), of_nat (128 + c div 64 mod 64), of_nat (128 + c mod 64)]"
  | "65536 \<le> c" "c < 1114112"
    "bs = [of_nat (240 + c div 262144), of_nat (128 + c div 4096 mod 64),
           of_nat (128 + c div 64 mod 64), of_nat (128 + c mod 64)]"
  using assms unfolding utf8_char_def by (metis not_less option.inject option.distinct(1))

lemma take4: "take 4 (x # y # xs) = x # y # take 2 xs" "take 4 (x # y # z # xs) = x # y # z # take 1 xs"
  "take 4 (x # y # z # w # xs) = [x, y, z, w]"
  by (simp_all add: eval_nat_numeral)

lemma utf8_next_char:
  assumes "utf8_char c = Some bs"
  shows "utf8_next (bs @ rest) = Some (c, length bs)"
  using assms
proof (cases rule: utf8_char_cases)
  case 1
  then show ?thesis by (simp add: utf8_next_def utf8_scan_def Let_def)
next
  case 2
  have b: "2 \<le> c div 64" "c div 64 < 32" "c mod 64 < 64"
    using div_le_mono [OF 2(1), of 64] 2(2) by (simp_all add: less_mult_imp_div_less)
  have "map unat (take 4 (bs @ rest)) = (192 + c div 64) # (128 + c mod 64) # map unat (take 2 rest)"
    using b unfolding 2(3) append_Cons append_Nil take4(1) list.map by (simp only: unat_of_nat_8)
  with utf8_scan_2 [OF b] 2(3) show ?thesis by (simp add: utf8_next_def)
next
  case 3
  let ?h = "c div 4096" and ?m = "c div 64 mod 64" and ?l = "c mod 64"
  have b: "?h < 16" "?m < 64" "?l < 64"
    using 3(2) by (simp_all add: less_mult_imp_div_less)
  have "map unat (take 4 (bs @ rest)) =
      (224 + ?h) # (128 + ?m) # (128 + ?l) # map unat (take 1 rest)"
    using b unfolding 3(4) append_Cons append_Nil take4(2) list.map by (simp only: unat_of_nat_8)
  with utf8_scan_3 [OF b base64_split3 3(1,3)] 3(4) show ?thesis by (simp add: utf8_next_def)
next
  case 4
  let ?h = "c div 262144" and ?k = "c div 4096 mod 64" and ?m = "c div 64 mod 64" and ?l = "c mod 64"
  have b: "?h < 5" "?k < 64" "?m < 64" "?l < 64"
    using 4(2) by (simp_all add: less_mult_imp_div_less)
  have "map unat (take 4 (bs @ rest)) = [240 + ?h, 128 + ?k, 128 + ?m, 128 + ?l]"
    using b unfolding 4(3) append_Cons append_Nil take4(3) list.map by (simp only: unat_of_nat_8)
  with utf8_scan_4 [OF b base64_split4 4(1,2)] 4(3) show ?thesis by (simp add: utf8_next_def)
qed

lemma utf8_char_not_Nil: "utf8_char c = Some bs \<Longrightarrow> bs \<noteq> []"
  by (auto simp: utf8_char_def split: if_splits)

lemma utf8_roundtrip: "utf8_encode s = Inr bs \<Longrightarrow> utf8_decode bs = Inr s"
proof (induction s arbitrary: bs)
  case Nil
  then show ?case by simp
next
  case (Cons c cs)
  then obtain b rest where "utf8_char c = Some b" "utf8_encode cs = Inr rest" "bs = b @ rest"
    by (auto simp: rbind_eq_Inr split: option.splits)
  with Cons.IH show ?case
    by (subst utf8_decode.simps) (simp add: utf8_next_char utf8_char_not_Nil)
qed

text \<open>And back: strict decoding loses nothing.\<close>

lemma cont_byte: "x div 64 = 2 \<Longrightarrow> 128 + x mod 64 = (x::nat)"
  using div_mult_mod_eq [of x 64] by simp

lemma hextet: "(a * 64 + y mod 64) mod 64 = y mod 64" "(a * 64 + y mod 64) div 64 = (a::nat)"
  by simp_all

lemma utf8_scan_cases:
  assumes "utf8_scan (b # t) = Some (c, n)" "length t \<le> 3"
  obtains (one) "b < 128" "c = b" "n = 1"
    | (two) x xs where "t = x # xs" "194 \<le> b" "b < 224" "x div 64 = 2" "c = (b - 192) * 64 + x mod 64" "n = 2"
    | (three) x y xs where "t = x # y # xs" "224 \<le> b" "b < 240" "x div 64 = 2" "y div 64 = 2"
        "c = (b - 224) * 4096 + x mod 64 * 64 + y mod 64" "n = 3" "2048 \<le> c" "\<not> (55296 \<le> c \<and> c < 57344)"
    | (four) x y z where "t = [x, y, z]" "240 \<le> b" "b < 245" "x div 64 = 2" "y div 64 = 2" "z div 64 = 2"
        "c = (b - 240) * 262144 + x mod 64 * 4096 + y mod 64 * 64 + z mod 64" "n = 4" "65536 \<le> c" "c < 1114112"
proof -
  note scan = assms(1) [unfolded utf8_scan_def Let_def]
  consider "b < 128" | "\<not> b < 128" "b < 224" | "224 \<le> b" "b < 240" | "240 \<le> b" by linarith
  then show thesis
  proof cases
    case 1
    with scan have "c = b" "n = 1" by simp_all
    with 1 one show thesis by blast
  next
    case 2
    with scan have "1 < length (b # t)" by (auto split: if_splits)
    then obtain x xs where t: "t = x # xs" by (cases t) auto
    from 2 scan have "194 \<le> b" "x div 64 = 2" "c = (b - 192) * 64 + x mod 64" "n = 2"
      by (simp_all add: t small_take split: if_splits)
    with 2 t two show thesis by blast
  next
    case 3
    with scan have len: "2 < length (b # t)" by (auto split: if_splits)
    then obtain x y xs where t: "t = x # y # xs" by (cases t; cases "tl t") auto
    from 3 scan have "x div 64 = 2" "y div 64 = 2" "c = (b - 224) * 4096 + x mod 64 * 64 + y mod 64" "n = 3"
      "2048 \<le> c" "\<not> (55296 \<le> c \<and> c < 57344)"
      by (simp_all add: t small_nth small_take split: if_splits)
    with 3 t three show thesis by blast
  next
    case 4
    with scan have b: "b < 245" and len: "3 < length (b # t)" by (auto split: if_splits)
    with assms(2) obtain x y z where t: "t = [x, y, z]"
      by (cases t; cases "tl t"; cases "tl (tl t)") auto
    from 4 scan have "x div 64 = 2" "y div 64 = 2" "z div 64 = 2"
      "c = (b - 240) * 262144 + x mod 64 * 4096 + y mod 64 * 64 + z mod 64" "n = 4" "65536 \<le> c" "c < 1114112"
      by (simp_all add: t small_nth numeral_3_eq_3 split: if_splits)
    with 4 b t four show thesis by blast
  qed
qed

lemma utf8_char_next:
  assumes "bs \<noteq> []" "utf8_next bs = Some (c, n)"
  shows "utf8_char c = Some (take n bs)"
proof -
  obtain b0 rest where bs: "bs = b0 # rest" using assms(1) by (cases bs) auto
  let ?b = "unat b0" and ?t = "map unat (take 3 rest)"
  have xs: "map unat (take 4 bs) = ?b # ?t" by (simp add: bs)
  have "utf8_scan (?b # ?t) = Some (c, n)" using assms(2) by (simp add: utf8_next_def xs)
  moreover have "length ?t \<le> 3" by simp
  ultimately show ?thesis
  proof (cases rule: utf8_scan_cases)
    case one
    then show ?thesis by (simp add: utf8_char_def bs)
  next
    case (two x xs)
    then obtain b1 rest' where r: "rest = b1 # rest'" "x = unat b1" by (cases rest) auto
    have "c div 64 = ?b - 192" "c mod 64 = x mod 64" using two(5) by simp_all
    moreover have "128 \<le> c" "c < 2048" using two by linarith+
    moreover have "192 + (?b - 192) = ?b" using two by simp
    ultimately show ?thesis using two(4,6) r by (simp add: utf8_char_def bs cont_byte)
  next
    case (three x y xs)
    then obtain b1 b2 rest' where r: "rest = b1 # b2 # rest'" "x = unat b1" "y = unat b2"
      by (cases rest; cases "tl rest") auto
    have c: "c = ((?b - 224) * 64 + x mod 64) * 64 + y mod 64" using three(6) by simp
    have m: "c mod 64 = y mod 64" "c div 64 = (?b - 224) * 64 + x mod 64" unfolding c by (simp_all only: hextet)
    have "c div 4096 = c div 64 div 64" using div_mult2_eq [of c 64 64] by simp
    then have "c div 64 mod 64 = x mod 64" "c div 4096 = ?b - 224" unfolding m by (simp_all only: hextet)
    moreover have "c < 65536" using three(3,6) mod_less_divisor [of 64 x] mod_less_divisor [of 64 y] by linarith
    then have "utf8_char c = Some [of_nat (224 + c div 4096), of_nat (128 + c div 64 mod 64), of_nat (128 + c mod 64)]"
      using three(8,9) by (simp add: utf8_char_def)
    moreover have "224 + (?b - 224) = ?b" using three(2) by simp
    ultimately have "utf8_char c = Some [of_nat ?b, of_nat x, of_nat y]"
      by (simp only: m(1) cont_byte [OF three(4)] cont_byte [OF three(5)])
    then show ?thesis by (simp add: bs r three(7))
  next
    case (four x y z)
    then obtain b1 b2 b3 rest' where r: "rest = b1 # b2 # b3 # rest'" "x = unat b1" "y = unat b2" "z = unat b3"
      by (cases rest; cases "tl rest"; cases "tl (tl rest)") auto
    have c: "c = (((?b - 240) * 64 + x mod 64) * 64 + y mod 64) * 64 + z mod 64" using four(7) by simp
    have m: "c mod 64 = z mod 64" "c div 64 = ((?b - 240) * 64 + x mod 64) * 64 + y mod 64"
      unfolding c by (simp_all only: hextet)
    have "c div 4096 = c div 64 div 64" using div_mult2_eq [of c 64 64] by simp
    then have k: "c div 64 mod 64 = y mod 64" "c div 4096 = (?b - 240) * 64 + x mod 64"
      unfolding m by (simp_all only: hextet)
    have "c div 262144 = c div 4096 div 64" using div_mult2_eq [of c 4096 64] by simp
    then have "c div 4096 mod 64 = x mod 64" "c div 262144 = ?b - 240" unfolding k by (simp_all only: hextet)
    moreover have "utf8_char c = Some [of_nat (240 + c div 262144), of_nat (128 + c div 4096 mod 64),
        of_nat (128 + c div 64 mod 64), of_nat (128 + c mod 64)]"
      using four(9,10) by (simp add: utf8_char_def)
    moreover have "240 + (?b - 240) = ?b" using four(2) by simp
    ultimately have "utf8_char c = Some [of_nat ?b, of_nat x, of_nat y, of_nat z]"
      by (simp only: m(1) k(1) cont_byte [OF four(4)] cont_byte [OF four(5)] cont_byte [OF four(6)])
    then show ?thesis by (simp add: bs r four(8))
  qed
qed

lemma utf8_decode_encode: "utf8_decode bs = Inr s \<Longrightarrow> utf8_encode s = Inr bs"
proof (induction bs arbitrary: s rule: utf8_decode.induct)
  case (1 bs)
  show ?case
  proof (cases "bs = []")
    case False
    with "1.prems" obtain c n cs where n: "utf8_next bs = Some (c, n)" and d: "utf8_decode (drop n bs) = Inr cs" and "s = c # cs"
      by (subst (asm) utf8_decode.simps) (auto simp: rbind_eq_Inr split: option.splits)
    with "1.IH" [OF False n refl d] utf8_char_next [OF False n] show ?thesis by simp
  qed (use "1.prems" in simp)
qed

lemma utf8_encode_ascii: "\<forall>c \<in> set s. c < 128 \<Longrightarrow> utf8_encode s = Inr (map of_nat s)"
  by (induction s) (simp_all add: utf8_char_def)

section \<open>Base64\<close>

definition b64_char :: "nat \<Rightarrow> nat" where
  "b64_char i =
     (if i < 26 then 65 + i else if i < 52 then 71 + i else if i < 62 then i - 4
      else if i = 62 then 43 else 47)"

definition b64_val :: "nat \<Rightarrow> nat option" where
  "b64_val c =
     (if 65 \<le> c \<and> c \<le> 90 then Some (c - 65)
      else if 97 \<le> c \<and> c \<le> 122 then Some (c - 71)
      else if 48 \<le> c \<and> c \<le> 57 then Some (c + 4)
      else if c = 43 then Some 62 else if c = 47 then Some 63 else None)"

text \<open>\<open>base64.b64encode(bs).decode("ascii")\<close>\<close>

fun b64encode :: "bytes \<Rightarrow> pystr" where
  "b64encode [] = []"
| "b64encode [a] =
     [b64_char (unat a div 4), b64_char (unat a mod 4 * 16), 61, 61]"
| "b64encode [a, b] =
     [b64_char (unat a div 4), b64_char (unat a mod 4 * 16 + unat b div 16),
      b64_char (unat b mod 16 * 4), 61]"
| "b64encode (a # b # c # bs) =
     [b64_char (unat a div 4), b64_char (unat a mod 4 * 16 + unat b div 16),
      b64_char (unat b mod 16 * 4 + unat c div 64), b64_char (unat c mod 64)] @ b64encode bs"

text \<open>
  \<open>binascii.a2b_base64(s, strict_mode=True)\<close>: the position in the current group of four, the
  bits left over, the pads seen, whether padding has started, the input and the output so far.
\<close>

fun b64_scan :: "nat \<Rightarrow> nat \<Rightarrow> nat \<Rightarrow> bool \<Rightarrow> pystr \<Rightarrow> bytes \<Rightarrow> py_exn + bytes" where
  "b64_scan q l p st [] acc =
     (if q = 0 then Inr acc
      else if q = 1 then raise ValueError ''Invalid base64-encoded string''
      else raise ValueError ''Incorrect padding'')"
| "b64_scan q l p st (c # cs) acc =
     (if c = 61 then
        (let p' = (if 2 \<le> q then p + 1 else p)
         in if 2 \<le> q \<and> 4 \<le> q + p'
            then (if cs = [] then Inr acc else raise ValueError ''Excess data after padding'')
            else b64_scan q l p' True cs acc)
      else case b64_val c of
             None \<Rightarrow> raise ValueError ''Only base64 data is allowed''
           | Some v \<Rightarrow>
               if st then raise ValueError ''Discontinuous padding not allowed''
               else if q = 0 then b64_scan 1 v 0 st cs acc
               else if q = 1 then b64_scan 2 (v mod 16) 0 st cs (acc @ [of_nat (l * 4 + v div 16)])
               else if q = 2 then b64_scan 3 (v mod 4) 0 st cs (acc @ [of_nat (l * 16 + v div 4)])
               else b64_scan 0 0 0 st cs (acc @ [of_nat (l * 64 + v)]))"

definition b64decode :: "pystr \<Rightarrow> py_exn + bytes" where
  "b64decode s =
     (if s \<noteq> [] \<and> hd s = 61 then raise ValueError ''Leading padding not allowed''
      else b64_scan 0 0 0 False s [])"

lemma b64_val_char [simp]: "i < 64 \<Longrightarrow> b64_val (b64_char i) = Some i"
  by (auto simp: b64_val_def b64_char_def)

lemma b64_char_neq_pad [simp]: "b64_char i \<noteq> 61"
  unfolding b64_char_def by (simp split: if_split) linarith

lemma b64_char_ascii: "b64_char i < 128"
  unfolding b64_char_def by (simp split: if_split) linarith

lemma unat_byte [simp]: "unat (a :: 8 word) < 256"
proof -
  have "unat a < 2 ^ LENGTH(8)" by (rule unsigned_less)
  then show ?thesis by simp
qed

lemma sextets:
  fixes x y :: nat
  assumes "x < 256" "y < 256"
  shows "x div 4 < 64" "x mod 4 * 16 < 64" "x mod 16 * 4 < 64"
    "x mod 4 * 16 + y div 16 < 64" "x mod 16 * 4 + y div 64 < 64"
    "(x mod 4 * 16 + y div 16) div 16 = x mod 4" "(x mod 4 * 16 + y div 16) mod 16 = y div 16"
    "(x mod 16 * 4 + y div 64) div 4 = x mod 16" "(x mod 16 * 4 + y div 64) mod 4 = y div 64"
proof -
  have "x div 4 < 64" "y div 16 < 16" "y div 64 < 4" "x mod 4 < 4" "x mod 16 < 16"
    using assms by (simp_all add: less_mult_imp_div_less)
  then show "x div 4 < 64" "x mod 4 * 16 < 64" "x mod 16 * 4 < 64"
    "x mod 4 * 16 + y div 16 < 64" "x mod 16 * 4 + y div 64 < 64"
    "(x mod 4 * 16 + y div 16) div 16 = x mod 4" "(x mod 4 * 16 + y div 16) mod 16 = y div 16"
    "(x mod 16 * 4 + y div 64) div 4 = x mod 16" "(x mod 16 * 4 + y div 64) mod 4 = y div 64"
    by simp_all
qed

lemma b64_scan_step:
  assumes "v < 64"
  shows "b64_scan 0 l p False (b64_char v # cs) acc = b64_scan 1 v 0 False cs acc"
    "b64_scan 1 l p False (b64_char v # cs) acc =
       b64_scan 2 (v mod 16) 0 False cs (acc @ [of_nat (l * 4 + v div 16)])"
    "b64_scan 2 l p False (b64_char v # cs) acc =
       b64_scan 3 (v mod 4) 0 False cs (acc @ [of_nat (l * 16 + v div 4)])"
    "b64_scan 3 l p False (b64_char v # cs) acc =
       b64_scan 0 0 0 False cs (acc @ [of_nat (l * 64 + v)])"
  using assms by simp_all

lemma b64_scan_pad:
  "b64_scan 2 l 0 False [61, 61] acc = Inr acc" "b64_scan 3 l 0 False [61] acc = Inr acc"
  by simp_all

lemma word_parts:
  "of_nat (unat (a :: 8 word) div 4 * 4 + unat a mod 4) = a"
  "of_nat (unat (a :: 8 word) div 16 * 16 + unat a mod 16) = a"
  "of_nat (unat (a :: 8 word) div 64 * 64 + unat a mod 64) = a"
  by (simp_all only: div_mult_mod_eq) simp_all

lemma b64_scan_encode: "b64_scan 0 0 0 False (b64encode bs) acc = Inr (acc @ bs)"
proof (induction bs arbitrary: acc rule: b64encode.induct)
  case 1
  show ?case by simp
next
  case (2 a)
  have "(unat a mod 4 * 16) div 16 = unat a mod 4" by simp
  then show ?case
    unfolding b64encode.simps
    by (simp only: b64_scan_step sextets [OF unat_byte unat_byte] word_parts b64_scan_pad)
next
  case (3 a b)
  have "(unat b mod 16 * 4) div 4 = unat b mod 16" by simp
  then show ?case
    unfolding b64encode.simps
    by (simp only: b64_scan_step sextets [OF unat_byte unat_byte] word_parts b64_scan_pad) simp
next
  case (4 a b c bs)
  have "unat c mod 64 < 64" by simp
  with "4.IH" show ?case
    unfolding b64encode.simps append_Cons append_Nil
    by (simp only: b64_scan_step sextets [OF unat_byte unat_byte] word_parts) simp
qed

lemma b64_roundtrip [simp]: "b64decode (b64encode bs) = Inr bs"
proof -
  have "b64encode bs = [] \<or> hd (b64encode bs) \<noteq> 61"
    by (cases bs rule: b64encode.cases) simp_all
  then show ?thesis by (auto simp: b64decode_def b64_scan_encode)
qed

lemma b64encode_ascii: "\<forall>c \<in> set (b64encode bs). c < 128"
  by (induction bs rule: b64encode.induct) (simp_all add: b64_char_ascii)

lemma length_b64encode: "length (b64encode bs) = (length bs + 2) div 3 * 4"
proof (induction bs rule: b64encode.induct)
  case (4 a b c bs)
  have "(5 + length bs) div 3 = Suc (Suc (Suc (length bs)) div 3)"
    using div_add_self2 [of 3 "length bs + 2"] by (simp add: add.commute)
  with 4 show ?case by simp
qed simp_all

section \<open>The codec interface\<close>

text \<open>
  An encoder that may refuse its input and the decoder that inverts it: what the chunk format
  relies on for its text and its binary layer.
\<close>

locale codec =
  fixes enc :: "'a \<Rightarrow> py_exn + 'b" and dec :: "'b \<Rightarrow> py_exn + 'a"
  assumes dec_enc: "enc x = Inr y \<Longrightarrow> dec y = Inr x"
begin

lemma enc_inject: "enc x = Inr z \<Longrightarrow> enc y = Inr z \<Longrightarrow> x = y"
  by (metis dec_enc sum.inject(2))

lemma dec_bind_enc: "enc x = Inr y \<Longrightarrow> rbind (dec y) f = f x"
  by (simp add: dec_enc)

end

text \<open>A decoder that takes nothing but what the encoder makes is a codec the other way round.\<close>

locale strict_codec = codec +
  assumes enc_dec: "dec y = Inr x \<Longrightarrow> enc x = Inr y"
begin

lemma dec_iff: "dec y = Inr x \<longleftrightarrow> enc x = Inr y"
  using dec_enc enc_dec by blast

end

sublocale strict_codec \<subseteq> flipped: codec dec enc
  by unfold_locales (rule enc_dec)

text \<open>UTF-8 is strict; base64 is not: the decoder ignores the unused bits of the last character.\<close>

interpretation utf8: strict_codec utf8_encode utf8_decode
  by unfold_locales (erule utf8_roundtrip utf8_decode_encode)+

interpretation b64: codec "\<lambda>bs. Inr (b64encode bs)" b64decode
  by unfold_locales auto

lemma b64encode_inject [simp]: "b64encode x = b64encode y \<longleftrightarrow> x = y"
  using b64.enc_inject by blast

end
