(* ===== verification/Wire.thy ===== *)
theory Wire
  imports PyText
begin

text \<open>
  \<open>src/rpcproxy/fastapi_ws_rpc/wire.py\<close>: the \<open>RpcMessage\<close> wire format.  A message is a JSON
  object with a \<open>request\<close> and/or a \<open>response\<close>; this theory has the predicates that classify a
  message, the extraction of the request, the constructors of both kinds of message and the
  reply of the built-in methods.
\<close>

section \<open>Definitions\<close>

definition PING_RESPONSE :: pystr where
  "PING_RESPONSE = lit ''pong''"

definition EXPOSED_BUILT_IN_METHODS :: "pystr list" where
  "EXPOSED_BUILT_IN_METHODS = [lit ''_ping_'', lit ''_get_channel_id_'']"

record rpc_request =
  rq_method :: pystr
  rq_call_id :: pystr
  rq_arguments :: "pydict option"

definition is_pending_rpc_call :: "pydict \<Rightarrow> bool" where
  "is_pending_rpc_call obj =
     (case get obj ''request'' of
        PDict req \<Rightarrow>
          (if map_of req (lit ''call_id'') = None \<or> map_of req (lit ''method'') = None then False
           else get obj ''response'' = PNone)
      | _ \<Rightarrow> False)"

definition extract_request :: "pylib \<Rightarrow> pydict \<Rightarrow> rpc_request option" where
  "extract_request L obj =
     (if \<not> is_pending_rpc_call obj then None
      else case get obj ''request'' of
        PDict req \<Rightarrow>
          (case (get req ''method'', get req ''call_id'') of
             (PStr m, cid) \<Rightarrow>
               if cid = PNone then None
               else Some \<lparr>rq_method = m, rq_call_id = lib_str L cid,
                          rq_arguments = (case get req ''arguments'' of
                                         PDict args \<Rightarrow> Some args | _ \<Rightarrow> None)\<rparr>
           | _ \<Rightarrow> None)
      | _ \<Rightarrow> None)"

definition response_body :: "pyval \<Rightarrow> pystr \<Rightarrow> pystr \<Rightarrow> pydict" where
  "response_body result cid result_type =
     [(lit ''call_id'', PStr cid), (lit ''result'', result), (lit ''result_type'', PStr result_type)]"

definition response_message :: "pyval \<Rightarrow> pystr \<Rightarrow> pystr \<Rightarrow> pydict" where
  "response_message result cid result_type =
     [(lit ''response'', PDict (response_body result cid result_type))]"

definition call_request_message :: "pystr \<Rightarrow> pydict \<Rightarrow> pystr \<Rightarrow> pydict" where
  "call_request_message m args cid =
     [(lit ''request'', PDict [(lit ''method'', PStr m), (lit ''arguments'', PDict args),
                               (lit ''call_id'', PStr cid)])]"

definition builtin_result :: "rpc_request \<Rightarrow> pystr \<Rightarrow> (pyval \<times> pystr) option" where
  "builtin_result request channel_id =
     (if rq_method request = lit ''_ping_'' then Some (PStr PING_RESPONSE, lit ''str'')
      else if rq_method request = lit ''_get_channel_id_'' then Some (PStr channel_id, lit ''str'')
      else None)"

definition default_unknown_result :: "rpc_request \<Rightarrow> pyval \<times> pystr" where
  "default_unknown_result request = (PStr (lit ''success''), lit ''str'')"

type_synonym unknown_method_handler = "rpc_request \<Rightarrow> pyval \<times> pystr"

definition reply_message_for_request ::
    "rpc_request \<Rightarrow> pystr \<Rightarrow> unknown_method_handler option \<Rightarrow> pydict" where
  "reply_message_for_request request channel_id on_unknown =
     (let handler = (case on_unknown of None \<Rightarrow> default_unknown_result | Some h \<Rightarrow> h);
          (result, rt) = (case builtin_result request channel_id of
                            Some b \<Rightarrow> b | None \<Rightarrow> handler request)
      in response_message result (rq_call_id request) rt)"

definition reply_message_for_envelope ::
    "pylib \<Rightarrow> pydict \<Rightarrow> pystr \<Rightarrow> unknown_method_handler option \<Rightarrow> pydict option" where
  "reply_message_for_envelope L message channel_id on_unknown =
     (case extract_request L message of
        None \<Rightarrow> None
      | Some req \<Rightarrow> Some (reply_message_for_request req channel_id on_unknown))"

definition dumps_message :: "pylib \<Rightarrow> pydict \<Rightarrow> bool \<Rightarrow> py_exn + pystr" where
  "dumps_message L message ensure_ascii = lib_dumps L ensure_ascii False (PDict message)"

definition loads_message :: "pylib \<Rightarrow> pystr \<Rightarrow> py_exn + pyval" where
  "loads_message L data = lib_loads L data"

definition looks_like_rpc_response_only :: "pydict \<Rightarrow> bool" where
  "looks_like_rpc_response_only message =
     (case get message ''response'' of
        PDict _ \<Rightarrow> get message ''request'' = PNone
      | _ \<Rightarrow> False)"

text \<open>The shapes of the three payload types: keys and the types of their values.\<close>

definition request_payload :: "pydict \<Rightarrow> bool" where
  "request_payload d \<longleftrightarrow>
     is_str (get d ''method'') \<and> is_str (get d ''call_id'') \<and>
     (map_of d (lit ''arguments'') = None \<or> is_dict (get d ''arguments'')) \<and>
     fst ` set d \<subseteq> {lit ''method'', lit ''call_id'', lit ''arguments''}"

definition response_payload :: "pydict \<Rightarrow> bool" where
  "response_payload d \<longleftrightarrow>
     map_of d (lit ''result'') \<noteq> None \<and> is_str (get d ''result_type'') \<and>
     (get d ''call_id'' = PNone \<or> is_str (get d ''call_id'')) \<and>
     fst ` set d \<subseteq> {lit ''result'', lit ''result_type'', lit ''call_id''}"

definition message_payload :: "pydict \<Rightarrow> bool" where
  "message_payload d \<longleftrightarrow>
     (case get d ''request'' of PNone \<Rightarrow> True | PDict q \<Rightarrow> request_payload q | _ \<Rightarrow> False) \<and>
     (case get d ''response'' of PNone \<Rightarrow> True | PDict r \<Rightarrow> response_payload r | _ \<Rightarrow> False) \<and>
     fst ` set d \<subseteq> {lit ''request'', lit ''response''}"

section \<open>Lemmas\<close>

lemma extract_request_SomeD:
  assumes "extract_request L obj = Some q"
  obtains req cid where "is_pending_rpc_call obj" "get obj ''request'' = PDict req"
    "get req ''method'' = PStr (rq_method q)" "get req ''call_id'' = cid" "cid \<noteq> PNone"
    "rq_call_id q = lib_str L cid"
    "rq_arguments q = (case get req ''arguments'' of PDict args \<Rightarrow> Some args | _ \<Rightarrow> None)"
  using assms unfolding extract_request_def
  by (auto split: if_splits pyval.splits)

lemma extract_call_request:
  "extract_request L (call_request_message m args cid) =
     Some \<lparr>rq_method = m, rq_call_id = cid, rq_arguments = Some args\<rparr>"
  by (simp add: extract_request_def is_pending_rpc_call_def call_request_message_def)

lemma get_response_message [simp]:
  "get (response_message v cid rt) ''response'' = PDict (response_body v cid rt)"
  "get (response_message v cid rt) ''request'' = PNone"
  by (simp_all add: response_message_def)

lemma get_response_body [simp]:
  "get (response_body v cid rt) ''call_id'' = PStr cid"
  "get (response_body v cid rt) ''result'' = v"
  "get (response_body v cid rt) ''result_type'' = PStr rt"
  by (simp_all add: response_body_def)

lemma not_pending_response [simp]: "\<not> is_pending_rpc_call (response_message v cid rt)"
  by (simp add: is_pending_rpc_call_def)

lemma response_only_response [simp]: "looks_like_rpc_response_only (response_message v cid rt)"
  by (simp add: looks_like_rpc_response_only_def)

lemma extract_response [simp]: "extract_request L (response_message v cid rt) = None"
  by (simp add: extract_request_def)

lemma is_pending_iff:
  "is_pending_rpc_call obj \<longleftrightarrow>
     (\<exists>req. get obj ''request'' = PDict req \<and> map_of req (lit ''call_id'') \<noteq> None \<and>
        map_of req (lit ''method'') \<noteq> None \<and> get obj ''response'' = PNone)"
  by (auto simp: is_pending_rpc_call_def split: pyval.splits)

lemma pending_response_exclusive:
  "is_pending_rpc_call m \<Longrightarrow> \<not> looks_like_rpc_response_only m"
  by (auto simp: is_pending_iff looks_like_rpc_response_only_def)

lemma reply_for_request_eq:
  "\<exists>v rt. reply_message_for_request q ch h = response_message v (rq_call_id q) rt"
  by (auto simp: reply_message_for_request_def Let_def split: prod.splits)

text \<open>Every message the module builds has the shape it declares.\<close>

lemma call_request_typed: "message_payload (call_request_message m args cid)"
  by (simp add: message_payload_def call_request_message_def request_payload_def)

lemma response_typed: "message_payload (response_message v cid rt)"
  by (simp add: message_payload_def response_message_def response_body_def response_payload_def)

lemma reply_typed: "reply_message_for_envelope L msg ch h = Some reply \<Longrightarrow> message_payload reply"
  by (auto simp: reply_message_for_envelope_def split: option.splits) (metis reply_for_request_eq response_typed)

end
