(* ===== verification/Json.thy ===== *)
theory Json
  imports PyText
begin

text \<open>
  \<open>json.dumps\<close> and \<open>json.loads\<close> of Python 3.11 as the sources call them: \<open>ensure_ascii\<close> on or off, the
  default or the compact separators, strict parsing of a \<open>str\<close>. The text of a finite float
  (\<open>float.__repr__\<close>) and its reading (\<open>float(text)\<close>) are a parameter. The message of a
  \<open>JSONDecodeError\<close> is kept without the position, and the recursion limit of the interpreter is not
  modelled.
\<close>

record float_text =
  fl_repr :: "pyfloat \<Rightarrow> pystr"
  fl_parse :: "pystr \<Rightarrow> pyfloat"

section \<open>Printing\<close>

definition hex_digit :: "nat \<Rightarrow> nat" where
  "hex_digit d = (if d < 10 then 48 + d else 87 + d)"

text \<open>The four lower-case hexadecimal digits of a 16-bit unit.\<close>

definition hex4 :: "nat \<Rightarrow> pystr" where
  "hex4 c = [hex_digit (c div 4096), hex_digit (c div 256 mod 16), hex_digit (c div 16 mod 16), hex_digit (c mod 16)]"

definition unicode_escape :: "nat \<Rightarrow> pystr" where
  "unicode_escape c = 92 # 117 # hex4 c"

text \<open>A character inside a string literal, by \<open>ensure_ascii\<close>.\<close>

definition escape_char :: "bool \<Rightarrow> nat \<Rightarrow> pystr" where
  "escape_char ea c =
     (if c = 34 then [92, 34] else if c = 92 then [92, 92]
      else if c = 10 then [92, 110] else if c = 13 then [92, 114] else if c = 9 then [92, 116]
      else if c = 12 then [92, 102] else if c = 8 then [92, 98]
      else if c < 32 then unicode_escape c
      else if \<not> ea \<or> c < 127 then [c]
      else if c < 65536 then unicode_escape c
      else unicode_escape (55296 + (c - 65536) div 1024) @ unicode_escape (56320 + (c - 65536) mod 1024))"

definition escape_string :: "bool \<Rightarrow> pystr \<Rightarrow> pystr" where
  "escape_string ea s = concat (map (escape_char ea) s) @ [34]"

definition dump_string :: "bool \<Rightarrow> pystr \<Rightarrow> pystr" where
  "dump_string ea s = 34 # escape_string ea s"

definition dump_int :: "int \<Rightarrow> py_exn + pystr" where
  "dump_int i =
     (if length (show_nat (nat \<bar>i\<bar>)) > max_str_digits
      then raise ValueError ''Exceeds the limit (4300 digits) for integer string conversion''
      else Inr (show_int i))"

fun dump_float :: "float_text \<Rightarrow> pyfloat \<Rightarrow> pystr" where
  "dump_float FT FNan = lit ''NaN''"
| "dump_float FT (FInf pos) = (if pos then lit ''Infinity'' else lit ''-Infinity'')"
| "dump_float FT x = fl_repr FT x"

definition item_sep :: "bool \<Rightarrow> pystr" where
  "item_sep compact = (if compact then [44] else [44, 32])"

definition key_sep :: "bool \<Rightarrow> pystr" where
  "key_sep compact = (if compact then [58] else [58, 32])"

text \<open>
  A value; the elements after the first with the closing bracket; the members after the first with
  the closing brace.
\<close>

fun dump_value :: "float_text \<Rightarrow> bool \<Rightarrow> bool \<Rightarrow> pyval \<Rightarrow> py_exn + pystr"
  and dump_elements :: "float_text \<Rightarrow> bool \<Rightarrow> bool \<Rightarrow> pyval list \<Rightarrow> py_exn + pystr"
  and dump_members :: "float_text \<Rightarrow> bool \<Rightarrow> bool \<Rightarrow> (pystr \<times> pyval) list \<Rightarrow> py_exn + pystr" where
  "dump_value FT ea cp PNone = Inr (lit ''null'')"
| "dump_value FT ea cp (PBool b) = Inr (if b then lit ''true'' else lit ''false'')"
| "dump_value FT ea cp (PInt i) = dump_int i"
| "dump_value FT ea cp (PFloat x) = Inr (dump_float FT x)"
| "dump_value FT ea cp (PStr s) = Inr (dump_string ea s)"
| "dump_value FT ea cp (PObj s) = raise TypeError ''Object is not JSON serializable''"
| "dump_value FT ea cp (PList []) = Inr [91, 93]"
| "dump_value FT ea cp (PList (v # vs)) =
     rbind (dump_value FT ea cp v) (\<lambda>t. rbind (dump_elements FT ea cp vs) (\<lambda>r. Inr (91 # t @ r)))"
| "dump_value FT ea cp (PDict []) = Inr [123, 125]"
| "dump_value FT ea cp (PDict ((k, v) # d)) =
     rbind (dump_value FT ea cp v) (\<lambda>t. rbind (dump_members FT ea cp d) (\<lambda>r.
       Inr (123 # dump_string ea k @ key_sep cp @ t @ r)))"
| "dump_elements FT ea cp [] = Inr [93]"
| "dump_elements FT ea cp (v # vs) =
     rbind (dump_value FT ea cp v) (\<lambda>t. rbind (dump_elements FT ea cp vs) (\<lambda>r. Inr (item_sep cp @ t @ r)))"
| "dump_members FT ea cp [] = Inr [125]"
| "dump_members FT ea cp ((k, v) # d) =
     rbind (dump_value FT ea cp v) (\<lambda>t. rbind (dump_members FT ea cp d) (\<lambda>r.
       Inr (item_sep cp @ dump_string ea k @ key_sep cp @ t @ r)))"

definition json_dumps :: "float_text \<Rightarrow> bool \<Rightarrow> bool \<Rightarrow> pyval \<Rightarrow> py_exn + pystr" where
  "json_dumps FT ensure_ascii compact v = dump_value FT ensure_ascii compact v"

section \<open>Parsing\<close>

text \<open>White space is a blank, a tab, a newline or a carriage return.\<close>

definition json_ws :: "nat \<Rightarrow> bool" where
  "json_ws c \<longleftrightarrow> c = 32 \<or> c = 9 \<or> c = 10 \<or> c = 13"

definition skip_ws :: "pystr \<Rightarrow> pystr" where
  "skip_ws s = dropWhile json_ws s"

definition hex_val :: "nat \<Rightarrow> nat option" where
  "hex_val c =
     (if 48 \<le> c \<and> c \<le> 57 then Some (c - 48)
      else if 97 \<le> c \<and> c \<le> 102 then Some (c - 87)
      else if 65 \<le> c \<and> c \<le> 70 then Some (c - 55) else None)"

fun hex4_val :: "pystr \<Rightarrow> nat option" where
  "hex4_val (a # b # c # d # r) =
     (case (hex_val a, hex_val b, hex_val c, hex_val d) of
        (Some a, Some b, Some c, Some d) \<Rightarrow> Some (a * 4096 + b * 256 + c * 16 + d)
      | _ \<Rightarrow> None)"
| "hex4_val _ = None"

definition simple_escape :: "nat \<Rightarrow> nat option" where
  "simple_escape e =
     (if e = 34 \<or> e = 92 \<or> e = 47 then Some e
      else if e = 98 then Some 8 else if e = 102 then Some 12 else if e = 110 then Some 10
      else if e = 114 then Some 13 else if e = 116 then Some 9 else None)"

definition high_surrogate :: "nat \<Rightarrow> bool" where
  "high_surrogate u \<longleftrightarrow> 55296 \<le> u \<and> u < 56320"

definition low_surrogate :: "nat \<Rightarrow> bool" where
  "low_surrogate u \<longleftrightarrow> 56320 \<le> u \<and> u < 57344"

definition bad_unicode_escape :: "py_exn + nat \<times> nat" where
  "bad_unicode_escape = Inl (Exn JSONDecodeError (lit ''Invalid '' @ 92 # lit ''uXXXX escape''))"

text \<open>
  The text after a backslash and \<open>u\<close>: the character and how much of the text it takes. A high surrogate followed by
  the escape of a low one is one character.
\<close>

definition read_unicode :: "pystr \<Rightarrow> py_exn + nat \<times> nat" where
  "read_unicode r =
     (case hex4_val r of
        None \<Rightarrow> bad_unicode_escape
      | Some u \<Rightarrow>
          if high_surrogate u \<and> take 2 (drop 4 r) = [92, 117] then
            (case hex4_val (drop 6 r) of
               None \<Rightarrow> bad_unicode_escape
             | Some u' \<Rightarrow>
                 if low_surrogate u' then Inr (65536 + ((u - 55296) * 1024 + (u' - 56320)), 10)
                 else Inr (u, 4))
          else Inr (u, 4))"

text \<open>The text after a backslash.\<close>

fun read_escape :: "pystr \<Rightarrow> py_exn + nat \<times> nat" where
  "read_escape [] = raise JSONDecodeError ''Unterminated string starting at''"
| "read_escape (e # r) =
     (if e = 117 then rbind (read_unicode r) (\<lambda>(c, n). Inr (c, Suc n))
      else case simple_escape e of
             None \<Rightarrow> Inl (Exn JSONDecodeError (lit ''Invalid '' @ 92 # lit ''escape: ''))
           | Some c \<Rightarrow> Inr (c, 1))"

text \<open>The rest of a string literal after its opening quote: the string and what follows the closing quote.\<close>

function scan_string :: "pystr \<Rightarrow> py_exn + pystr \<times> pystr" where
  "scan_string [] = raise JSONDecodeError ''Unterminated string starting at''"
| "scan_string (c # cs) =
     (if c = 34 then Inr ([], cs)
      else if c = 92 then
        rbind (read_escape cs) (\<lambda>(x, n). rbind (scan_string (drop n cs)) (\<lambda>(s, r). Inr (x # s, r)))
      else if c < 32 then raise JSONDecodeError ''Invalid control character at''
      else rbind (scan_string cs) (\<lambda>(s, r). Inr (c # s, r)))"
  by pat_completeness auto
termination
  by (relation "measure length") auto

definition json_digit :: "nat \<Rightarrow> bool" where
  "json_digit c \<longleftrightarrow> 48 \<le> c \<and> c \<le> 57"

text \<open>The fraction of a number, and its exponent: empty when there is none.\<close>

fun scan_frac :: "pystr \<Rightarrow> pystr \<times> pystr" where
  "scan_frac (p # d # r) =
     (if p = 46 \<and> json_digit d then (p # d # takeWhile json_digit r, dropWhile json_digit r) else ([], p # d # r))"
| "scan_frac s = ([], s)"

fun scan_exp :: "pystr \<Rightarrow> pystr \<times> pystr" where
  "scan_exp (e # r) =
     (let sgn = (if r \<noteq> [] \<and> (hd r = 43 \<or> hd r = 45) then [hd r] else []);
          t = drop (length sgn) r;
          ds = takeWhile json_digit t
      in if (e = 101 \<or> e = 69) \<and> ds \<noteq> [] then (e # sgn @ ds, dropWhile json_digit t) else ([], e # r))"
| "scan_exp [] = ([], [])"

definition scan_int :: "pystr \<Rightarrow> (pystr \<times> pystr) option" where
  "scan_int t =
     (if t = [] then None
      else if hd t = 48 then Some ([48], tl t)
      else if json_digit (hd t) then Some (takeWhile json_digit t, dropWhile json_digit t)
      else None)"

definition scan_number :: "float_text \<Rightarrow> pystr \<Rightarrow> py_exn + pyval \<times> pystr" where
  "scan_number FT s =
     (let neg = (s \<noteq> [] \<and> hd s = 45);
          sgn = (if neg then [45] else [])
      in case scan_int (if neg then tl s else s) of
           None \<Rightarrow> raise JSONDecodeError ''Expecting value''
         | Some (ds, r) \<Rightarrow>
             (let (fr, r1) = scan_frac r; (ex, r2) = scan_exp r1
              in if fr = [] \<and> ex = [] then
                   (if length ds > max_str_digits
                    then raise ValueError ''Exceeds the limit (4300 digits) for integer string conversion''
                    else Inr (PInt ((if neg then -1 else 1) * int (digits_val ds)), r2))
                 else Inr (PFloat (fl_parse FT (sgn @ ds @ fr @ ex)), r2)))"

definition json_literals :: "(pystr \<times> pyval) list" where
  "json_literals =
     [(lit ''null'', PNone), (lit ''true'', PBool True), (lit ''false'', PBool False),
      (lit ''NaN'', PFloat FNan), (lit ''Infinity'', PFloat (FInf True)), (lit ''-Infinity'', PFloat (FInf False))]"

definition scan_literal :: "pystr \<Rightarrow> (pyval \<times> pystr) option" where
  "scan_literal s =
     map_option (\<lambda>(w, v). (v, drop (length w) s)) (find (\<lambda>(w, v). take (length w) s = w) json_literals)"

text \<open>
  One value of the text, the elements of an array from its first one on, the members of an object from
  its first key on; each with the text that is left. The first argument is fuel: \<open>None\<close> means that it
  ran out.
\<close>

type_synonym 'a parse = "(py_exn + 'a \<times> pystr) option"

abbreviation json_fail :: "string \<Rightarrow> 'a parse" where
  "json_fail m \<equiv> Some (raise JSONDecodeError m)"

fun then_parse :: "'a parse \<Rightarrow> ('a \<Rightarrow> pystr \<Rightarrow> 'b parse) \<Rightarrow> 'b parse" where
  "then_parse None f = None"
| "then_parse (Some (Inl e)) f = Some (Inl e)"
| "then_parse (Some (Inr (x, r))) f = f x r"

lemma then_parse_cong [fundef_cong]:
  "m = m' \<Longrightarrow> (\<And>x r. m' = Some (Inr (x, r)) \<Longrightarrow> f x r = g x r) \<Longrightarrow> then_parse m f = then_parse m' g"
  by (cases "(m', f)" rule: then_parse.cases) auto

fun parse_value :: "float_text \<Rightarrow> nat \<Rightarrow> pystr \<Rightarrow> pyval parse"
  and parse_elements :: "float_text \<Rightarrow> nat \<Rightarrow> pyval list \<Rightarrow> pystr \<Rightarrow> pyval parse"
  and parse_members :: "float_text \<Rightarrow> nat \<Rightarrow> pydict \<Rightarrow> pystr \<Rightarrow> pyval parse" where
  "parse_value FT 0 s = None"
| "parse_value FT (Suc n) s =
     (if s = [] then json_fail ''Expecting value''
      else if hd s = 34 then Some (rbind (scan_string (tl s)) (\<lambda>(t, r). Inr (PStr t, r)))
      else if hd s = 123 then
        (let t = skip_ws (tl s)
         in if t \<noteq> [] \<and> hd t = 125 then Some (Inr (PDict [], tl t)) else parse_members FT n [] t)
      else if hd s = 91 then
        (let t = skip_ws (tl s)
         in if t \<noteq> [] \<and> hd t = 93 then Some (Inr (PList [], tl t)) else parse_elements FT n [] t)
      else case scan_literal s of
             Some vr \<Rightarrow> Some (Inr vr)
           | None \<Rightarrow> Some (scan_number FT s))"
| "parse_elements FT 0 acc s = None"
| "parse_elements FT (Suc n) acc s =
     then_parse (parse_value FT n s) (\<lambda>v r.
       let t = skip_ws r
       in if t \<noteq> [] \<and> hd t = 93 then Some (Inr (PList (acc @ [v]), tl t))
          else if t \<noteq> [] \<and> hd t = 44 then parse_elements FT n (acc @ [v]) (skip_ws (tl t))
          else Some (Inl (Exn JSONDecodeError (lit ''Expecting '' @ [39, 44, 39] @ lit '' delimiter''))))"
| "parse_members FT 0 acc s = None"
| "parse_members FT (Suc n) acc s =
     (if s = [] \<or> hd s \<noteq> 34 then json_fail ''Expecting property name enclosed in double quotes''
      else then_parse (Some (scan_string (tl s))) (\<lambda>k r.
        let t = skip_ws r
        in if t = [] \<or> hd t \<noteq> 58 then Some (Inl (Exn JSONDecodeError (lit ''Expecting '' @ [39, 58, 39] @ lit '' delimiter'')))
           else then_parse (parse_value FT n (skip_ws (tl t))) (\<lambda>v r.
             let t = skip_ws r; d = dict_set k v acc
             in if t \<noteq> [] \<and> hd t = 125 then Some (Inr (PDict d, tl t))
                else if t \<noteq> [] \<and> hd t = 44 then parse_members FT n d (skip_ws (tl t))
                else Some (Inl (Exn JSONDecodeError (lit ''Expecting '' @ [39, 44, 39] @ lit '' delimiter''))))))"

text \<open>
  \<open>json.loads(s)\<close>. The fuel is enough for every text (\<open>JsonFacts\<close>), so the branch without a result is
  never taken.
\<close>

definition json_fuel :: "pystr \<Rightarrow> nat" where
  "json_fuel s = 2 * length s + 1"

definition json_loads :: "float_text \<Rightarrow> pystr \<Rightarrow> py_exn + pyval" where
  "json_loads FT s =
     (if s \<noteq> [] \<and> hd s = 65279 then raise JSONDecodeError ''Unexpected UTF-8 BOM (decode using utf-8-sig)''
      else case parse_value FT (json_fuel s) (skip_ws s) of
             None \<Rightarrow> raise RuntimeError ''no result''
           | Some r \<Rightarrow> rbind r (\<lambda>(v, rest).
               if skip_ws rest = [] then Inr v else raise JSONDecodeError ''Extra data''))"

end
