(* ===== verification/JsonFacts.thy ===== *)
theory JsonFacts
  imports Json
begin

text \<open>
  Facts about the JSON codec: every parser leaves less text than it got, the fuel of \<open>json_loads\<close> is
  enough, parsed values are well formed, and printing and parsing are inverse.
\<close>

named_theorems json_rest "a parser leaves less text than it was given"

declare parse_value.simps [simp del] parse_elements.simps [simp del] parse_members.simps [simp del]

section \<open>What is left of the text\<close>

lemma length_skip_ws: "length (skip_ws s) \<le> length s"
  by (simp add: skip_ws_def length_dropWhile_le)

lemma scan_string_rest [json_rest]: "scan_string s = Inr (t, r) \<Longrightarrow> length r < length s"
proof (induction s arbitrary: t rule: scan_string.induct)
  case (2 c cs)
  then show ?case
    by (fastforce simp: rbind_eq_Inr split: if_splits prod.splits dest: less_imp_le_nat)
qed simp

lemma scan_frac_rest: "length (snd (scan_frac s)) \<le> length s"
  by (induction s rule: scan_frac.induct) (simp_all add: length_dropWhile_le le_SucI)

lemma scan_exp_rest: "length (snd (scan_exp s)) \<le> length s"
  by (cases s) (auto simp: Let_def intro: le_SucI le_trans [OF length_dropWhile_le])

lemma scan_int_rest: "scan_int t = Some (ds, r) \<Longrightarrow> length r < length t"
  by (cases t) (auto simp: scan_int_def length_dropWhile_le le_imp_less_Suc split: if_splits)

lemma scan_number_rest [json_rest]:
  assumes "scan_number FT s = Inr (v, r)"
  shows "length r < length s"
proof -
  let ?u = "if s \<noteq> [] \<and> hd s = 45 then tl s else s"
  obtain ds r0 where "scan_int ?u = Some (ds, r0)" and "r = snd (scan_exp (snd (scan_frac r0)))"
    using assms by (auto simp: scan_number_def Let_def split: option.splits prod.splits if_splits)
  moreover have "length ?u \<le> length s" by (cases s) simp_all
  ultimately show ?thesis
    using scan_int_rest scan_exp_rest [of "snd (scan_frac r0)"] scan_frac_rest [of r0] by fastforce
qed

lemma scan_literal_rest [json_rest]: "scan_literal s = Some (v, r) \<Longrightarrow> length r < length s"
  by (cases s) (auto simp: scan_literal_def json_literals_def lit_def split: if_splits)

lemma then_parse_eq_Some:
  "then_parse m f = Some q \<longleftrightarrow> (\<exists>e. m = Some (Inl e) \<and> q = Inl e) \<or> (\<exists>x r. m = Some (Inr (x, r)) \<and> f x r = Some q)"
  by (cases "(m, f)" rule: then_parse.cases) auto

lemma then_parse_eq_None:
  "then_parse m f = None \<longleftrightarrow> m = None \<or> (\<exists>x r. m = Some (Inr (x, r)) \<and> f x r = None)"
  by (cases "(m, f)" rule: then_parse.cases) auto

lemma then_parse_mono:
  assumes "then_parse m f = Some q" "\<And>q. m = Some q \<Longrightarrow> m' = Some q"
    and "\<And>x r q. f x r = Some q \<Longrightarrow> g x r = Some q"
  shows "then_parse m' g = Some q"
  using assms by (cases "(m, f)" rule: then_parse.cases) auto

lemma length_skip_ws_tl: "length (skip_ws (tl s)) \<le> length s - 1"
  using length_skip_ws [of "tl s"] by simp

lemma skip_ws_shorter: "skip_ws r \<noteq> [] \<Longrightarrow> length (tl (skip_ws r)) < length r"
  using length_skip_ws [of r] by (cases "skip_ws r") simp_all

text \<open>The ways in which the three parsers return a value.\<close>

lemma parse_value_SomeE:
  assumes "parse_value FT n s = Some (Inr (v, r))"
  obtains (string) t where "s \<noteq> []" "scan_string (tl s) = Inr (t, r)" "v = PStr t"
    | (empty_object) "skip_ws (tl s) \<noteq> []" "r = tl (skip_ws (tl s))" "v = PDict []" "s \<noteq> []"
    | (members) m where "n = Suc m" "s \<noteq> []" "parse_members FT m [] (skip_ws (tl s)) = Some (Inr (v, r))"
    | (empty_array) "skip_ws (tl s) \<noteq> []" "r = tl (skip_ws (tl s))" "v = PList []" "s \<noteq> []"
    | (elements) m where "n = Suc m" "s \<noteq> []" "parse_elements FT m [] (skip_ws (tl s)) = Some (Inr (v, r))"
    | (literal) "scan_literal s = Some (v, r)"
    | (number) "scan_number FT s = Inr (v, r)"
proof (cases n)
  case (Suc m)
  note q = assms [unfolded Suc parse_value.simps Let_def]
  have s: "s \<noteq> []" using q by auto
  consider "hd s = 34" | "hd s = 123" | "hd s = 91" | "hd s \<noteq> 34" "hd s \<noteq> 123" "hd s \<noteq> 91" by blast
  then show thesis
  proof cases
    case 1
    with q s string show thesis by (auto simp: rbind_eq_Inr)
  next
    case 2
    with q s have "(if skip_ws (tl s) \<noteq> [] \<and> hd (skip_ws (tl s)) = 125 then Some (Inr (PDict [], tl (skip_ws (tl s))))
        else parse_members FT m [] (skip_ws (tl s))) = Some (Inr (v, r))" by simp
    with empty_object members [OF Suc s] s show thesis by (fastforce split: if_splits)
  next
    case 3
    with q s have "(if skip_ws (tl s) \<noteq> [] \<and> hd (skip_ws (tl s)) = 93 then Some (Inr (PList [], tl (skip_ws (tl s))))
        else parse_elements FT m [] (skip_ws (tl s))) = Some (Inr (v, r))" by simp
    with empty_array elements [OF Suc s] s show thesis by (fastforce split: if_splits)
  next
    case 4
    with q s have "(case scan_literal s of None \<Rightarrow> Some (scan_number FT s) | Some vr \<Rightarrow> Some (Inr vr)) = Some (Inr (v, r))"
      by simp
    with literal number show thesis by (simp split: option.splits)
  qed
qed (use assms in \<open>simp add: parse_value.simps parse_elements.simps parse_members.simps\<close>)

lemma parse_elements_SomeE:
  assumes "parse_elements FT n acc s = Some (Inr (v, r))"
  obtains (last) m x t where "n = Suc m" "parse_value FT m s = Some (Inr (x, t))" "skip_ws t \<noteq> []"
      "r = tl (skip_ws t)" "v = PList (acc @ [x])"
    | (more) m x t where "n = Suc m" "parse_value FT m s = Some (Inr (x, t))" "skip_ws t \<noteq> []"
      "parse_elements FT m (acc @ [x]) (skip_ws (tl (skip_ws t))) = Some (Inr (v, r))"
proof (cases n)
  case (Suc m)
  with assms that show thesis
    by (auto simp: parse_elements.simps parse_members.simps Let_def then_parse_eq_Some split: if_splits)
qed (use assms in \<open>simp add: parse_value.simps parse_elements.simps parse_members.simps\<close>)

lemma parse_members_SomeE:
  assumes "parse_members FT n d s = Some (Inr (v, r))"
  obtains (last) m k t x u where "n = Suc m" "s \<noteq> []" "scan_string (tl s) = Inr (k, t)" "skip_ws t \<noteq> []"
      "parse_value FT m (skip_ws (tl (skip_ws t))) = Some (Inr (x, u))" "skip_ws u \<noteq> []"
      "r = tl (skip_ws u)" "v = PDict (dict_set k x d)"
    | (more) m k t x u where "n = Suc m" "s \<noteq> []" "scan_string (tl s) = Inr (k, t)" "skip_ws t \<noteq> []"
      "parse_value FT m (skip_ws (tl (skip_ws t))) = Some (Inr (x, u))" "skip_ws u \<noteq> []"
      "parse_members FT m (dict_set k x d) (skip_ws (tl (skip_ws u))) = Some (Inr (v, r))"
proof (cases n)
  case (Suc m)
  with assms that show thesis
    by (auto simp: parse_elements.simps parse_members.simps Let_def then_parse_eq_Some split: if_splits)
qed (use assms in \<open>simp add: parse_value.simps parse_elements.simps parse_members.simps\<close>)

lemma skip_ws_tl_skip_ws: "skip_ws r \<noteq> [] \<Longrightarrow> length (skip_ws (tl (skip_ws r))) < length r"
  using skip_ws_shorter [of r] length_skip_ws [of "tl (skip_ws r)"] by linarith

lemma length_skip_ws_tl_less: "s \<noteq> [] \<Longrightarrow> length (skip_ws (tl s)) < length s"
  using length_skip_ws [of "tl s"] by (cases s) simp_all

lemma parse_rest_all:
  "(\<forall>s v r. parse_value FT n s = Some (Inr (v, r)) \<longrightarrow> length r < length s) \<and>
   (\<forall>acc s v r. parse_elements FT n acc s = Some (Inr (v, r)) \<longrightarrow> length r < length s) \<and>
   (\<forall>d s v r. parse_members FT n d s = Some (Inr (v, r)) \<longrightarrow> length r < length s)"
proof (induction n)
  case (Suc n)
  have V: "length r < length s" if "parse_value FT n s = Some (Inr (v, r))" for s v r using Suc that by blast
  have E: "length r < length s" if "parse_elements FT n acc s = Some (Inr (v, r))" for acc s v r using Suc that by blast
  have M: "length r < length s" if "parse_members FT n d s = Some (Inr (v, r))" for d s v r using Suc that by blast
  have "length r < length s" if "parse_value FT (Suc n) s = Some (Inr (v, r))" for s v r
    using that
  proof (cases rule: parse_value_SomeE)
    case (string t)
    then show ?thesis using scan_string_rest [of "tl s"] by fastforce
  next
    case (members m)
    then show ?thesis using M length_skip_ws_tl_less [of s] by fastforce
  next
    case (elements m)
    then show ?thesis using E length_skip_ws_tl_less [of s] by fastforce
  qed (use json_rest skip_ws_shorter [of "tl s"] in fastforce)+
  moreover have "length r < length s" if "parse_elements FT (Suc n) acc s = Some (Inr (v, r))" for acc s v r
    using that
  proof (cases rule: parse_elements_SomeE)
    case (last m x t)
    then show ?thesis using V skip_ws_shorter [of t] by fastforce
  next
    case (more m x t)
    then show ?thesis using V E skip_ws_tl_skip_ws [of t] by fastforce
  qed
  moreover have "length r < length s" if "parse_members FT (Suc n) d s = Some (Inr (v, r))" for d s v r
    using that
  proof (cases rule: parse_members_SomeE)
    case (last m k t x u)
    then show ?thesis
      using V scan_string_rest [OF last(3)] skip_ws_tl_skip_ws [of t] skip_ws_shorter [of u] by fastforce
  next
    case (more m k t x u)
    then show ?thesis
      using V M scan_string_rest [OF more(3)] skip_ws_tl_skip_ws [of t] skip_ws_tl_skip_ws [of u] by fastforce
  qed
  ultimately show ?case by blast
qed (simp add: parse_value.simps parse_elements.simps parse_members.simps)

lemma parse_rest [json_rest]:
  "parse_value FT n s = Some (Inr (v, r)) \<Longrightarrow> length r < length s"
  "parse_elements FT n acc s = Some (Inr (v, r)) \<Longrightarrow> length r < length s"
  "parse_members FT n d s = Some (Inr (v, r)) \<Longrightarrow> length r < length s"
  using parse_rest_all by blast+

section \<open>Fuel\<close>

text \<open>More fuel does not change a result, and twice the length of the text is enough for one.\<close>

lemma parse_more_fuel_all:
  "(\<forall>s q. parse_value FT n s = Some q \<longrightarrow> parse_value FT (Suc n) s = Some q) \<and>
   (\<forall>acc s q. parse_elements FT n acc s = Some q \<longrightarrow> parse_elements FT (Suc n) acc s = Some q) \<and>
   (\<forall>d s q. parse_members FT n d s = Some q \<longrightarrow> parse_members FT (Suc n) d s = Some q)"
proof (induction n)
  case (Suc n)
  have V: "parse_value FT (Suc n) s = Some q" if "parse_value FT n s = Some q" for s q using Suc that by blast
  have E: "parse_elements FT (Suc n) acc s = Some q" if "parse_elements FT n acc s = Some q" for acc s q using Suc that by blast
  have M: "parse_members FT (Suc n) d s = Some q" if "parse_members FT n d s = Some q" for d s q using Suc that by blast
  have "parse_value FT (Suc (Suc n)) s = Some q" if "parse_value FT (Suc n) s = Some q" for s q
    using that [unfolded parse_value.simps(2) [of FT n] Let_def]
    unfolding parse_value.simps(2) [of FT "Suc n"] Let_def
    by (auto split: if_splits intro: E M)
  moreover have "parse_elements FT (Suc (Suc n)) acc s = Some q" if "parse_elements FT (Suc n) acc s = Some q" for acc s q
    using that [unfolded parse_elements.simps(2) [of FT n] Let_def]
    unfolding parse_elements.simps(2) [of FT "Suc n"] Let_def
    by (rule then_parse_mono)
      (auto split: if_splits intro: V E)
  moreover have "parse_members FT (Suc (Suc n)) d s = Some q" if "parse_members FT (Suc n) d s = Some q" for d s q
  proof (cases "s = [] \<or> hd s \<noteq> 34")
    case False
    show ?thesis
      using that [unfolded parse_members.simps(2) [of FT n] Let_def if_not_P [OF False]]
      unfolding parse_members.simps(2) [of FT "Suc n"] Let_def if_not_P [OF False]
    proof (rule then_parse_mono)
      fix k r q
      assume *: "(if skip_ws r = [] \<or> hd (skip_ws r) \<noteq> 58 then Some (Inl (Exn JSONDecodeError (lit ''Expecting '' @ [39, 58, 39] @ lit '' delimiter'')))
        else then_parse (parse_value FT n (skip_ws (tl (skip_ws r)))) (\<lambda>v r.
          if skip_ws r \<noteq> [] \<and> hd (skip_ws r) = 125 then Some (Inr (PDict (dict_set k v d), tl (skip_ws r)))
          else if skip_ws r \<noteq> [] \<and> hd (skip_ws r) = 44 then parse_members FT n (dict_set k v d) (skip_ws (tl (skip_ws r)))
          else Some (Inl (Exn JSONDecodeError (lit ''Expecting '' @ [39, 44, 39] @ lit '' delimiter''))))) = Some q" (is "?l n = _")
      show "?l (Suc n) = Some q"
      proof (cases "skip_ws r = [] \<or> hd (skip_ws r) \<noteq> 58")
        case True
        with * show ?thesis by (simp only: if_True)
      next
        case colon: False
        show ?thesis
          using * unfolding if_not_P [OF colon]
          by (rule then_parse_mono)
            (auto split: if_splits intro: V M)
      qed
    qed
  qed (use that in \<open>simp add: parse_members.simps\<close>)
  ultimately show ?case by blast
qed (simp add: parse_value.simps parse_elements.simps parse_members.simps)

lemma parse_more_fuel:
  "n \<le> m \<Longrightarrow> parse_value FT n s = Some q \<Longrightarrow> parse_value FT m s = Some q"
  "n \<le> m \<Longrightarrow> parse_elements FT n acc s = Some q \<Longrightarrow> parse_elements FT m acc s = Some q"
  "n \<le> m \<Longrightarrow> parse_members FT n d s = Some q \<Longrightarrow> parse_members FT m d s = Some q"
  by (induction m rule: nat_induct_at_least; use parse_more_fuel_all in blast)+

lemma parse_enough_all:
  "(\<forall>s. 2 * length s + 1 \<le> n \<longrightarrow> parse_value FT n s \<noteq> None) \<and>
   (\<forall>acc s. 2 * length s + 2 \<le> n \<longrightarrow> parse_elements FT n acc s \<noteq> None) \<and>
   (\<forall>d s. 2 * length s + 2 \<le> n \<longrightarrow> parse_members FT n d s \<noteq> None)"
proof (induction n)
  case (Suc n)
  have V: "parse_value FT n s \<noteq> None" if "2 * length s + 1 \<le> n" for s using Suc that by blast
  have E: "parse_elements FT n acc s \<noteq> None" if "2 * length s + 2 \<le> n" for acc s using Suc that by blast
  have M: "parse_members FT n d s \<noteq> None" if "2 * length s + 2 \<le> n" for d s using Suc that by blast
  have "parse_value FT (Suc n) s \<noteq> None" if n: "2 * length s + 1 \<le> Suc n" for s
  proof (cases "s = []")
    case False
    then have "2 * length (skip_ws (tl s)) + 2 \<le> n" using n length_skip_ws_tl_less [of s] by linarith
    with E M show ?thesis by (simp add: parse_value.simps Let_def split: option.splits)
  qed (simp add: parse_value.simps)
  moreover have "parse_elements FT (Suc n) acc s \<noteq> None" if n: "2 * length s + 2 \<le> Suc n" for acc s
  proof
    assume "parse_elements FT (Suc n) acc s = None"
    moreover have "parse_value FT n s \<noteq> None" using V n by simp
    ultimately obtain x r where p: "parse_value FT n s = Some (Inr (x, r))" "skip_ws r \<noteq> []"
      "parse_elements FT n (acc @ [x]) (skip_ws (tl (skip_ws r))) = None"
      by (auto simp: parse_elements.simps parse_members.simps then_parse_eq_None Let_def split: if_splits)
    have "2 * length (skip_ws (tl (skip_ws r))) + 2 \<le> n"
      using skip_ws_tl_skip_ws [OF p(2)] parse_rest(1) [OF p(1)] n by linarith
    with E p(3) show False by blast
  qed
  moreover have "parse_members FT (Suc n) d s \<noteq> None" if n: "2 * length s + 2 \<le> Suc n" for d s
  proof
    assume "parse_members FT (Suc n) d s = None"
    then obtain k t where k: "scan_string (tl s) = Inr (k, t)" "skip_ws t \<noteq> []" "s \<noteq> []"
      and v: "parse_value FT n (skip_ws (tl (skip_ws t))) = None \<or>
        (\<exists>x u. parse_value FT n (skip_ws (tl (skip_ws t))) = Some (Inr (x, u)) \<and> skip_ws u \<noteq> [] \<and>
          parse_members FT n (dict_set k x d) (skip_ws (tl (skip_ws u))) = None)"
      by (auto simp: parse_elements.simps parse_members.simps then_parse_eq_None Let_def split: if_splits)
    have l: "2 * length (skip_ws (tl (skip_ws t))) + 4 \<le> 2 * length s"
      using skip_ws_tl_skip_ws [OF k(2)] scan_string_rest [OF k(1)] by simp
    then have "parse_value FT n (skip_ws (tl (skip_ws t))) \<noteq> None" using V n by simp
    with v obtain x u where u: "parse_value FT n (skip_ws (tl (skip_ws t))) = Some (Inr (x, u))" "skip_ws u \<noteq> []"
      "parse_members FT n (dict_set k x d) (skip_ws (tl (skip_ws u))) = None" by blast
    have "2 * length (skip_ws (tl (skip_ws u))) + 2 \<le> n"
      using skip_ws_tl_skip_ws [OF u(2)] parse_rest(1) [OF u(1)] l n by linarith
    with M u(3) show False by blast
  qed
  ultimately show ?case by blast
qed (simp add: parse_value.simps parse_elements.simps parse_members.simps)

lemma parse_enough: "2 * length s + 1 \<le> n \<Longrightarrow> \<exists>q. parse_value FT n s = Some q"
  using parse_enough_all by blast

text \<open>Any fuel that gives a result gives the one that enough fuel gives.\<close>

lemma parse_value_fuel:
  assumes "parse_value FT n s = Some q" "2 * length s + 1 \<le> m"
  shows "parse_value FT m s = Some q"
proof -
  obtain q' where q': "parse_value FT m s = Some q'" using parse_enough [OF assms(2)] by blast
  have "parse_value FT (max n m) s = Some q" "parse_value FT (max n m) s = Some q'"
    using parse_more_fuel(1) assms(1) q' by (metis max.cobounded1, metis max.cobounded2)
  with q' show ?thesis by simp
qed

section \<open>Well-formed values\<close>

definition short_int :: "int \<Rightarrow> bool" where
  "short_int i \<longleftrightarrow> length (show_nat (nat \<bar>i\<bar>)) \<le> max_str_digits"

text \<open>What JSON can express: no other objects, no key twice, no integer over the digit limit.\<close>

fun json_value :: "pyval \<Rightarrow> bool" where
  "json_value (PInt i) = short_int i"
| "json_value (PList vs) = list_all json_value vs"
| "json_value (PDict d) = (wf_dict d \<and> (\<forall>p \<in> set d. json_value (snd p)))"
| "json_value (PObj s) = False"
| "json_value v = True"

lemma digits_val_snoc: "digits_val (s @ [d]) = 10 * digits_val s + (d - 48)"
  by (simp add: digits_val_def)

lemma digits_val_less: "\<forall>d \<in> set s. json_digit d \<Longrightarrow> digits_val s < 10 ^ length s"
proof (induction s rule: rev_induct)
  case (snoc d s)
  then have "digits_val s + 1 \<le> 10 ^ length s" "d - 48 < 10" by (auto simp: json_digit_def)
  then show ?case by (simp add: digits_val_snoc)
qed (simp add: digits_val_def)

lemma length_show_nat: "n < 10 ^ k \<Longrightarrow> 0 < k \<Longrightarrow> length (show_nat n) \<le> k"
proof (induction n arbitrary: k rule: show_nat.induct)
  case (1 n)
  show ?case
  proof (cases "n < 10")
    case True
    with 1 show ?thesis by (simp add: show_nat.simps [of n])
  next
    case False
    then obtain j where k: "k = Suc j" "0 < j" using 1(2,3) by (cases k; cases "k - 1") auto
    then have "n div 10 < 10 ^ j" using 1(2) by (simp add: less_mult_imp_div_less mult.commute)
    with 1(1) [of j] False k show ?thesis by (simp add: show_nat.simps [of n])
  qed
qed

lemma short_int_digits:
  assumes "\<forall>d \<in> set ds. json_digit d" "ds \<noteq> []" "length ds \<le> max_str_digits"
  shows "short_int (int (digits_val ds))" "short_int (- int (digits_val ds))"
  using length_show_nat [OF digits_val_less [OF assms(1)]] assms(2,3) by (simp_all add: short_int_def)

lemma scan_int_digits: "scan_int t = Some (ds, r) \<Longrightarrow> ds \<noteq> [] \<and> (\<forall>d \<in> set ds. json_digit d)"
  by (cases t) (auto simp: scan_int_def json_digit_def [of 48] split: if_splits dest: set_takeWhileD)

lemma scan_number_value: "scan_number FT s = Inr (v, r) \<Longrightarrow> json_value v"
  by (auto simp: scan_number_def Let_def not_less short_int_digits
      split: option.splits prod.splits if_splits dest: scan_int_digits)

lemma scan_literal_value: "scan_literal s = Some (v, r) \<Longrightarrow> json_value v"
  by (auto simp: scan_literal_def json_literals_def split: if_splits)

lemma wf_dict_set_values:
  "\<forall>p \<in> set d. json_value (snd p) \<Longrightarrow> json_value v \<Longrightarrow> wf_dict d \<Longrightarrow> \<forall>p \<in> set (dict_set k v d). json_value (snd p)"
proof -
  assume a: "\<forall>p \<in> set d. json_value (snd p)" "json_value v" "wf_dict d"
  have "map_of (dict_set k v d) (fst p) = Some (snd p)" if "p \<in> set (dict_set k v d)" for p
    using that wf_dict_set [OF a(3), of k v] map_of_is_SomeI [of "dict_set k v d" "fst p" "snd p"] by (simp add: wf_dict_def)
  then show ?thesis using a(1,2) by (fastforce split: if_splits dest: map_of_SomeD)
qed

lemma parse_value_all:
  "(\<forall>s v r. parse_value FT n s = Some (Inr (v, r)) \<longrightarrow> json_value v) \<and>
   (\<forall>acc s v r. parse_elements FT n acc s = Some (Inr (v, r)) \<longrightarrow> list_all json_value acc \<longrightarrow> json_value v) \<and>
   (\<forall>d s v r. parse_members FT n d s = Some (Inr (v, r)) \<longrightarrow> json_value (PDict d) \<longrightarrow> json_value v)"
proof (induction n)
  case (Suc n)
  have V: "json_value v" if "parse_value FT n s = Some (Inr (v, r))" for s v r using Suc that by blast
  have E: "json_value v" if "parse_elements FT n acc s = Some (Inr (v, r))" "list_all json_value acc" for acc s v r
    using Suc that by blast
  have M: "json_value v" if "parse_members FT n d s = Some (Inr (v, r))" "json_value (PDict d)" for d s v r
    using Suc that by blast
  have D: "json_value (PDict (dict_set k x d))" if "json_value (PDict d)" "json_value x" for k x d
    using that wf_dict_set_values [of d x] by simp
  have "json_value v" if "parse_value FT (Suc n) s = Some (Inr (v, r))" for s v r
    using that
  proof (cases rule: parse_value_SomeE)
    case (members m)
    then show ?thesis using M [of "[]"] by simp
  next
    case (elements m)
    then show ?thesis using E [of "[]"] by simp
  qed (simp_all add: scan_literal_value scan_number_value)
  moreover have "json_value v" if "parse_elements FT (Suc n) acc s = Some (Inr (v, r))" "list_all json_value acc" for acc s v r
    using that(1) by (cases rule: parse_elements_SomeE) (use that(2) V E in auto)
  moreover have "json_value v" if "parse_members FT (Suc n) d s = Some (Inr (v, r))" "json_value (PDict d)" for d s v r
    using that(1)
  proof (cases rule: parse_members_SomeE)
    case (last m k t x u)
    then show ?thesis using V D [OF that(2)] by blast
  next
    case (more m k t x u)
    then show ?thesis using V M D [OF that(2)] by blast
  qed
  ultimately show ?case by blast
qed (simp add: parse_value.simps parse_elements.simps parse_members.simps)

lemma parse_json_value: "parse_value FT n s = Some (Inr (v, r)) \<Longrightarrow> json_value v"
  using parse_value_all by blast

lemma json_loads_eq_Inr:
  "json_loads FT s = Inr v \<longleftrightarrow>
     (s = [] \<or> hd s \<noteq> 65279) \<and> (\<exists>r. parse_value FT (json_fuel s) (skip_ws s) = Some (Inr (v, r)) \<and> skip_ws r = [])"
  by (auto simp: json_loads_def rbind_eq_Inr split: option.splits)

lemma json_loads_value: "json_loads FT s = Inr v \<Longrightarrow> json_value v"
  by (auto simp: json_loads_eq_Inr parse_json_value)

section \<open>Numbers and literals\<close>

text \<open>The text that follows a value in a printed text: nothing, or a comma or a closing bracket.\<close>

definition stops :: "pystr \<Rightarrow> bool" where
  "stops rest \<longleftrightarrow> rest = [] \<or> hd rest = 44 \<or> hd rest = 93 \<or> hd rest = 125"

lemma takeWhile_stops: "stops rest \<Longrightarrow> takeWhile json_digit (s @ rest) = takeWhile json_digit s"
  "stops rest \<Longrightarrow> dropWhile json_digit (s @ rest) = dropWhile json_digit s @ rest"
  by (induction s) (cases rest; auto simp: stops_def json_digit_def)+

lemma scan_frac_stops:
  assumes "stops rest"
  shows "scan_frac (s @ rest) = (fst (scan_frac s), snd (scan_frac s) @ rest)"
proof (cases s)
  case Nil
  with assms show ?thesis by (cases rest; cases "tl rest") (auto simp: stops_def)
next
  case (Cons p t)
  show ?thesis
  proof (cases t)
    case Nil
    with Cons assms show ?thesis by (cases rest) (auto simp: stops_def json_digit_def)
  next
    case (Cons d r)
    with \<open>s = p # t\<close> assms show ?thesis by (simp add: takeWhile_stops)
  qed
qed

lemma scan_exp_stops:
  assumes "stops rest"
  shows "scan_exp (s @ rest) = (fst (scan_exp s), snd (scan_exp s) @ rest)"
proof (cases s)
  case Nil
  then show ?thesis using assms by (cases rest) (auto simp: stops_def)
next
  case (Cons e t)
  show ?thesis
  proof (cases t)
    case Nil
    with Cons assms show ?thesis by (cases rest) (auto simp: stops_def json_digit_def Let_def)
  next
    case (Cons d r)
    have "takeWhile json_digit (d # r @ rest) = takeWhile json_digit (d # r)"
      "dropWhile json_digit (d # r @ rest) = dropWhile json_digit (d # r) @ rest"
      using takeWhile_stops [OF assms, of "d # r"] by simp_all
    with Cons \<open>s = e # t\<close> takeWhile_stops [OF assms, of r] show ?thesis
      by (simp add: Let_def del: takeWhile.simps dropWhile.simps)
  qed
qed

lemma scan_int_stops: "s \<noteq> [] \<Longrightarrow> stops rest \<Longrightarrow> scan_int (s @ rest) = map_option (\<lambda>(d, r). (d, r @ rest)) (scan_int s)"
  by (simp add: scan_int_def takeWhile_stops)

text \<open>The texts that read as a float from start to end.\<close>

definition float_literal :: "pystr \<Rightarrow> bool" where
  "float_literal t \<longleftrightarrow>
     (case scan_int (if t \<noteq> [] \<and> hd t = 45 then tl t else t) of
        None \<Rightarrow> False
      | Some (ds, r) \<Rightarrow>
          (let (fr, r1) = scan_frac r; (ex, r2) = scan_exp r1 in r2 = [] \<and> (fr \<noteq> [] \<or> ex \<noteq> [])))"

lemma scan_int_parts: "scan_int t = Some (ds, r) \<Longrightarrow> t = ds @ r"
  by (cases t) (auto simp: scan_int_def split: if_splits)

lemma scan_frac_parts: "scan_frac t = (fr, r) \<Longrightarrow> t = fr @ r"
  by (cases t rule: scan_frac.cases) (auto split: if_splits)

lemma scan_exp_parts: "scan_exp t = (ex, r) \<Longrightarrow> t = ex @ r"
  by (cases t; cases "tl t") (auto simp: Let_def split: if_splits)

lemma scan_number_float:
  assumes "float_literal t" "stops rest"
  shows "scan_number FT (t @ rest) = Inr (PFloat (fl_parse FT t), rest)"
proof -
  let ?neg = "t \<noteq> [] \<and> hd t = 45"
  let ?u = "if ?neg then tl t else t"
  obtain ds r fr r1 ex where p: "scan_int ?u = Some (ds, r)" "scan_frac r = (fr, r1)" "scan_exp r1 = (ex, [])"
    and f: "fr \<noteq> [] \<or> ex \<noteq> []"
    using assms(1) by (auto simp: float_literal_def split: option.splits prod.splits)
  have u: "?u \<noteq> []" using p(1) by (auto simp: scan_int_def)
  then have t: "t \<noteq> []" "(if hd (t @ rest) = 45 then tl (t @ rest) else t @ rest) = ?u @ rest" by auto
  have "scan_int (?u @ rest) = Some (ds, r @ rest)" using scan_int_stops [OF u assms(2)] p(1) by simp
  moreover have "scan_frac (r @ rest) = (fr, r1 @ rest)" "scan_exp (r1 @ rest) = (ex, rest)"
    using scan_frac_stops [OF assms(2), of r] scan_exp_stops [OF assms(2), of r1] p by simp_all
  moreover have "t = (if ?neg then [45] else []) @ ds @ fr @ ex"
    using scan_int_parts [OF p(1)] scan_frac_parts [OF p(2)] scan_exp_parts [OF p(3)] by (cases t) (auto split: if_splits)
  ultimately show ?thesis
    using f t by (simp add: scan_number_def Let_def)
qed

lemma hd_show_nat: "json_digit (hd (show_nat n)) \<and> (0 < n \<longrightarrow> hd (show_nat n) \<noteq> 48)"
proof (induction n rule: show_nat.induct)
  case (1 n)
  then show ?case by (cases "n < 10") (simp_all add: show_nat.simps [of n] json_digit_def)
qed

lemma show_nat_all_digits: "\<forall>d \<in> set (show_nat n). json_digit d"
  using show_nat_digits by (auto simp: json_digit_def)

lemma scan_int_show_nat:
  assumes "stops rest"
  shows "scan_int (show_nat n @ rest) = Some (show_nat n, rest)"
proof (cases "n = 0")
  case True
  then show ?thesis by (simp add: show_nat.simps scan_int_def)
next
  case False
  have "takeWhile json_digit (show_nat n) = show_nat n" "dropWhile json_digit (show_nat n) = []"
    using show_nat_all_digits [of n] by (simp_all add: takeWhile_eq_all_conv)
  with False hd_show_nat [of n] takeWhile_stops [OF assms, of "show_nat n"] show ?thesis
    by (simp add: scan_int_def)
qed

lemma scan_number_int:
  assumes "short_int i" "stops rest"
  shows "scan_number FT (show_int i @ rest) = Inr (PInt i, rest)"
proof -
  have "hd (show_nat n) \<noteq> 45" for n using hd_show_nat [of n] by (auto simp: json_digit_def)
  moreover have "scan_frac rest = ([], rest)" "scan_exp rest = ([], rest)"
    using scan_frac_stops [OF assms(2), of "[]"] scan_exp_stops [OF assms(2), of "[]"] by simp_all
  ultimately show ?thesis
    using assms by (cases "i < 0") (simp_all add: scan_number_def show_int_def Let_def scan_int_show_nat short_int_def)
qed

lemma scan_literal_number:
  assumes "json_digit (hd (if t \<noteq> [] \<and> hd t = 45 then tl t else t))" "t \<noteq> []" "tl t \<noteq> [] \<or> hd t \<noteq> 45"
  shows "scan_literal (t @ rest) = None"
  using assms by (cases t; cases "tl t") (auto simp: scan_literal_def json_literals_def lit_def json_digit_def split: if_splits)

section \<open>String literals\<close>

lemma hex_val_digit [simp]: "d < 16 \<Longrightarrow> hex_val (hex_digit d) = Some d"
  by (auto simp: hex_val_def hex_digit_def)

lemma hex4_val_hex4:
  assumes "c < 65536"
  shows "hex4_val (hex4 c @ u) = Some c"
proof -
  have "c div 4096 < 16" using assms by (simp add: less_mult_imp_div_less)
  moreover have "c div 4096 * 4096 + c div 256 mod 16 * 256 + c div 16 mod 16 * 16 + c mod 16 = c"
  proof -
    have "c div 4096 = c div 256 div 16" "c div 256 = c div 16 div 16"
      using div_mult2_eq [of c 256 16] div_mult2_eq [of c 16 16] by simp_all
    then show ?thesis using div_mult_mod_eq [of "c div 256" 16] div_mult_mod_eq [of "c div 16" 16] div_mult_mod_eq [of c 16]
      by linarith
  qed
  ultimately show ?thesis by (simp add: hex4_def)
qed

lemma length_hex4 [simp]: "length (hex4 c) = 4"
  by (simp add: hex4_def)

lemma drop_hex4: "drop 4 (hex4 c @ u) = u" "drop 6 (hex4 c @ a # b # u) = u"
  by (simp_all add: hex4_def)

definition surrogate :: "nat \<Rightarrow> bool" where
  "surrogate c \<longleftrightarrow> 55296 \<le> c \<and> c < 57344"

text \<open>With \<open>ensure_ascii\<close> a surrogate may meet its other half, and only code points have an escape.\<close>

definition char_ok :: "bool \<Rightarrow> nat \<Rightarrow> bool" where
  "char_ok ea c \<longleftrightarrow> (ea \<longrightarrow> \<not> surrogate c \<and> c < 1114112)"

lemma scan_unicode_escape:
  assumes "c < 65536" "\<not> high_surrogate c"
  shows "scan_string (unicode_escape c @ u) = rbind (scan_string u) (\<lambda>(s, r). Inr (c # s, r))"
  using assms by (simp add: unicode_escape_def read_unicode_def hex4_val_hex4 drop_hex4)

lemma scan_surrogate_pair:
  assumes "65536 \<le> c" "c < 1114112"
  shows "scan_string (unicode_escape (55296 + (c - 65536) div 1024) @ unicode_escape (56320 + (c - 65536) mod 1024) @ u) =
    rbind (scan_string u) (\<lambda>(s, r). Inr (c # s, r))"
proof -
  let ?h = "(c - 65536) div 1024" and ?l = "(c - 65536) mod 1024"
  have h: "?h < 1024" "?l < 1024" using assms by (simp_all add: less_mult_imp_div_less)
  have d: "take 2 (92 # 117 # hex4 (56320 + ?l) @ u) = [92, 117]"
    "drop 10 (hex4 (55296 + ?h) @ 92 # 117 # hex4 (56320 + ?l) @ u) = u" by (simp_all add: hex4_def)
  have "read_unicode (hex4 (55296 + ?h) @ 92 # 117 # hex4 (56320 + ?l) @ u) = Inr (65536 + (?h * 1024 + ?l), 10)"
    using h d(1) unfolding read_unicode_def drop_hex4
    by (simp add: hex4_val_hex4 high_surrogate_def low_surrogate_def)
  then have "read_unicode (hex4 (55296 + ?h) @ 92 # 117 # hex4 (56320 + ?l) @ u) = Inr (c, 10)"
    using assms(1) by simp
  then show ?thesis using d(2) by (simp add: unicode_escape_def)
qed

lemma scan_escape_char:
  assumes "char_ok ea c"
  shows "scan_string (escape_char ea c @ u) = rbind (scan_string u) (\<lambda>(s, r). Inr (c # s, r))"
proof -
  consider "c \<in> {34, 92, 10, 13, 9, 12, 8}" | "c \<notin> {34, 92, 10, 13, 9, 12, 8}" "c < 32"
    | "c \<notin> {34, 92, 10, 13, 9, 12, 8}" "32 \<le> c" "\<not> ea \<or> c < 127" | "127 \<le> c" "ea" "c < 65536" | "ea" "65536 \<le> c"
    by (metis not_less)
  then show ?thesis
  proof cases
    case 1
    then show ?thesis by (auto simp: escape_char_def simple_escape_def)
  next
    case 2
    then have "escape_char ea c = unicode_escape c" by (simp add: escape_char_def)
    with 2 show ?thesis by (simp add: scan_unicode_escape high_surrogate_def)
  next
    case 3
    then show ?thesis by (auto simp: escape_char_def)
  next
    case 4
    then have "escape_char ea c = unicode_escape c" by (simp add: escape_char_def)
    moreover have "\<not> high_surrogate c" using 4 assms by (auto simp: high_surrogate_def char_ok_def surrogate_def)
    ultimately show ?thesis using scan_unicode_escape [OF 4(3)] by simp
  next
    case 5
    then show ?thesis using assms scan_surrogate_pair by (simp add: escape_char_def char_ok_def)
  qed
qed

lemma scan_escape_string:
  "list_all (char_ok ea) s \<Longrightarrow> scan_string (escape_string ea s @ rest) = Inr (s, rest)"
  by (induction s) (simp_all add: escape_string_def scan_escape_char)

section \<open>Printing and parsing\<close>

text \<open>
  The values whose text says all there is to them: strings as above, a finite float for which \<open>repr\<close>
  gives a float literal that reads back as it, and dictionaries.
\<close>

fun float_ok :: "float_text \<Rightarrow> pyfloat \<Rightarrow> bool" where
  "float_ok FT (FFin m e) = (float_literal (fl_repr FT (FFin m e)) \<and> fl_parse FT (fl_repr FT (FFin m e)) = FFin m e)"
| "float_ok FT x = True"

fun json_ok :: "float_text \<Rightarrow> bool \<Rightarrow> pyval \<Rightarrow> bool" where
  "json_ok FT ea (PFloat x) = float_ok FT x"
| "json_ok FT ea (PStr s) = list_all (char_ok ea) s"
| "json_ok FT ea (PList vs) = list_all (json_ok FT ea) vs"
| "json_ok FT ea (PDict d) = (wf_dict d \<and> (\<forall>p \<in> set d. list_all (char_ok ea) (fst p) \<and> json_ok FT ea (snd p)))"
| "json_ok FT ea v = True"

definition json_starts :: "pystr \<Rightarrow> bool" where
  "json_starts t \<longleftrightarrow> t \<noteq> [] \<and> hd t \<noteq> 93 \<and> hd t \<noteq> 65279 \<and> \<not> json_ws (hd t)"

lemma skip_ws_stop: "\<not> json_ws (hd t) \<Longrightarrow> skip_ws t = t"
  by (cases t) (simp_all add: skip_ws_def)

lemma skip_ws_starts [simp]: "json_starts t \<Longrightarrow> skip_ws (t @ u) = t @ u"
  by (cases t) (simp_all add: skip_ws_def json_starts_def)

lemma skip_ws_space [simp]: "skip_ws (32 # u) = skip_ws u"
  by (simp add: skip_ws_def json_ws_def)

lemma json_starts_digit: "json_digit (hd (if t \<noteq> [] \<and> hd t = 45 then tl t else t)) \<Longrightarrow> t \<noteq> [] \<Longrightarrow> json_starts t"
  by (cases t) (auto simp: json_starts_def json_digit_def json_ws_def split: if_splits)

lemma float_literal_start:
  assumes "float_literal t"
  shows "json_digit (hd (if t \<noteq> [] \<and> hd t = 45 then tl t else t))" "t \<noteq> []" "tl t \<noteq> [] \<or> hd t \<noteq> 45"
proof -
  obtain q where q: "scan_int (if t \<noteq> [] \<and> hd t = 45 then tl t else t) = Some q"
    using assms by (auto simp: float_literal_def split: option.splits)
  then show "json_digit (hd (if t \<noteq> [] \<and> hd t = 45 then tl t else t))"
    by (auto simp: scan_int_def json_digit_def [of 48] split: if_splits)
  show "t \<noteq> []" using q by (cases t) (simp_all add: scan_int_def)
  show "tl t \<noteq> [] \<or> hd t \<noteq> 45" using q by (cases "tl t = [] \<and> hd t = 45") (auto simp: scan_int_def split: if_splits)
qed

lemma show_int_start:
  "json_digit (hd (if show_int i \<noteq> [] \<and> hd (show_int i) = 45 then tl (show_int i) else show_int i))"
  "show_int i \<noteq> []" "tl (show_int i) \<noteq> [] \<or> hd (show_int i) \<noteq> 45"
proof -
  have d: "json_digit (hd (show_nat n))" "hd (show_nat n) \<noteq> 45" for n
    using hd_show_nat [of n] by (auto simp: json_digit_def)
  then show "json_digit (hd (if show_int i \<noteq> [] \<and> hd (show_int i) = 45 then tl (show_int i) else show_int i))"
    "show_int i \<noteq> []" "tl (show_int i) \<noteq> [] \<or> hd (show_int i) \<noteq> 45"
    by (auto simp: show_int_def)
qed

lemma dump_int_Inr: "dump_int i = Inr t \<longleftrightarrow> short_int i \<and> t = show_int i"
  by (auto simp: dump_int_def short_int_def)

lemma dump_value_starts:
  assumes "dump_value FT ea cp v = Inr t" "json_ok FT ea v"
  shows "json_starts t"
proof (cases v)
    case (PInt i)
    then show ?thesis using assms(1) json_starts_digit show_int_start by (simp add: dump_int_Inr)
  next
    case (PFloat x)
    then show ?thesis
    proof (cases x)
      case (FFin m e)
      with PFloat assms have "float_literal t" by simp
      then show ?thesis using json_starts_digit float_literal_start by blast
    qed (use assms PFloat in \<open>auto simp: json_starts_def json_ws_def lit_def split: if_splits\<close>)
  next
    case (PList vs)
    then show ?thesis using assms(1) by (cases vs) (auto simp: rbind_eq_Inr json_starts_def json_ws_def)
  next
    case (PDict d)
    then show ?thesis using assms(1) by (cases d) (auto simp: rbind_eq_Inr json_starts_def json_ws_def)
  qed (use assms in \<open>auto simp: json_starts_def json_ws_def lit_def dump_string_def split: if_splits\<close>)

lemma stops_members: "dump_members FT ea cp d = Inr t \<Longrightarrow> stops (t @ rest)"
  by (cases d) (auto simp: stops_def rbind_eq_Inr item_sep_def split: if_splits)

lemma stops_elements: "dump_elements FT ea cp vs = Inr t \<Longrightarrow> stops (t @ rest)"
  by (cases vs) (auto simp: stops_def rbind_eq_Inr item_sep_def split: if_splits)

lemma dict_set_snoc: "k \<notin> fst ` set d \<Longrightarrow> dict_set k v d = d @ [(k, v)]"
  unfolding dict_set_def by (induction d) auto

lemma parse_number_text:
  assumes "json_digit (hd (if t \<noteq> [] \<and> hd t = 45 then tl t else t))" "t \<noteq> []" "tl t \<noteq> [] \<or> hd t \<noteq> 45"
    and "scan_number FT (t @ rest) = q"
  shows "parse_value FT (Suc n) (t @ rest) = Some q"
proof -
  have "hd t \<noteq> 34" "hd t \<noteq> 123" "hd t \<noteq> 91"
    using assms(1,2) by (auto simp: json_digit_def split: if_splits)
  then show ?thesis
    using scan_literal_number [OF assms(1-3), of rest] assms(2,4) by (simp add: parse_value.simps)
qed

lemma parse_value_mono_Suc:
  "parse_value FT n s = Some q \<Longrightarrow> parse_value FT (n + m) s = Some q"
  "parse_elements FT n acc s = Some q \<Longrightarrow> parse_elements FT (n + m) acc s = Some q"
  "parse_members FT n d s = Some q \<Longrightarrow> parse_members FT (n + m) d s = Some q"
  "parse_elements FT n acc s = Some q \<Longrightarrow> parse_elements FT (m + n) acc s = Some q"
  "parse_members FT n d s = Some q \<Longrightarrow> parse_members FT (m + n) d s = Some q"
  using parse_more_fuel by (metis le_add1, metis le_add1, metis le_add1, metis le_add2, metis le_add2)

lemma parse_element_step:
  assumes "parse_value FT n s = Some (Inr (x, 44 # u))" "parse_elements FT m (acc @ [x]) (skip_ws u) = Some q"
  shows "\<exists>n. parse_elements FT n acc s = Some q"
proof -
  have "parse_elements FT (Suc (n + m)) acc s = Some q"
    using parse_value_mono_Suc(1) [OF assms(1)] parse_value_mono_Suc(4) [OF assms(2)]
    by (simp add: parse_elements.simps skip_ws_stop json_ws_def)
  then show ?thesis by blast
qed

lemma parse_member_step:
  assumes "s \<noteq> []" "hd s = 34" "scan_string (tl s) = Inr (k, 58 # w)"
    and "parse_value FT n (skip_ws w) = Some (Inr (x, 44 # u))" "parse_members FT m (dict_set k x d) (skip_ws u) = Some q"
  shows "\<exists>n. parse_members FT n d s = Some q"
proof -
  have "parse_members FT (Suc (n + m)) d s = Some q"
    using parse_value_mono_Suc(1) [OF assms(4)] parse_value_mono_Suc(5) [OF assms(5)] assms(1-3)
    by (simp add: parse_members.simps skip_ws_stop json_ws_def)
  then show ?thesis by blast
qed

definition blank :: "bool \<Rightarrow> pystr" where
  "blank cp = (if cp then [] else [32])"

lemma seps: "item_sep cp @ u = 44 # blank cp @ u" "key_sep cp @ u = 58 # blank cp @ u"
  by (simp_all add: item_sep_def key_sep_def blank_def)

lemma skip_ws_blank [simp]: "skip_ws (blank cp @ u) = skip_ws u"
  by (simp add: blank_def)

lemma json_starts_append: "json_starts t \<Longrightarrow> json_starts (t @ u)"
  by (simp add: json_starts_def)

lemma dump_string_starts [simp]: "json_starts (dump_string ea k)"
  by (simp add: dump_string_def json_starts_def json_ws_def)

lemma scan_dump_string: "list_all (char_ok ea) k \<Longrightarrow> scan_string (tl (dump_string ea k @ u)) = Inr (k, u)"
  by (simp add: dump_string_def scan_escape_string)

lemma dump_string_start: "dump_string ea k @ u \<noteq> []" "hd (dump_string ea k @ u) = 34"
  by (simp_all add: dump_string_def)

lemma parse_literals:
  "parse_value FT (Suc n) (lit ''null'' @ rest) = Some (Inr (PNone, rest))"
  "parse_value FT (Suc n) (lit ''true'' @ rest) = Some (Inr (PBool True, rest))"
  "parse_value FT (Suc n) (lit ''false'' @ rest) = Some (Inr (PBool False, rest))"
  "parse_value FT (Suc n) (lit ''NaN'' @ rest) = Some (Inr (PFloat FNan, rest))"
  "parse_value FT (Suc n) (lit ''Infinity'' @ rest) = Some (Inr (PFloat (FInf True), rest))"
  "parse_value FT (Suc n) (lit ''-Infinity'' @ rest) = Some (Inr (PFloat (FInf False), rest))"
  by (simp_all add: parse_value.simps(2) scan_literal_def json_literals_def lit_Cons)

lemma parse_dump:
  "dump_value FT ea cp v = Inr t \<Longrightarrow> json_ok FT ea v \<Longrightarrow> stops rest \<Longrightarrow>
     \<exists>n. parse_value FT n (t @ rest) = Some (Inr (v, rest))"
  "dump_elements FT ea cp vs = Inr t \<Longrightarrow> list_all (json_ok FT ea) vs \<Longrightarrow>
     parse_value FT m s = Some (Inr (x, t @ rest)) \<Longrightarrow>
     \<exists>n. parse_elements FT n acc s = Some (Inr (PList (acc @ x # vs), rest))"
  "dump_members FT ea cp d = Inr t \<Longrightarrow>
     \<forall>p \<in> set d. list_all (char_ok ea) (fst p) \<and> json_ok FT ea (snd p) \<Longrightarrow>
     wf_dict (ms @ (k, x) # d) \<Longrightarrow> s \<noteq> [] \<Longrightarrow> hd s = 34 \<Longrightarrow> scan_string (tl s) = Inr (k, key_sep cp @ w) \<Longrightarrow>
     json_starts w \<Longrightarrow> parse_value FT m w = Some (Inr (x, t @ rest)) \<Longrightarrow>
     \<exists>n. parse_members FT n ms s = Some (Inr (PDict (ms @ (k, x) # d), rest))"
proof (induction FT ea cp v and FT ea cp vs and FT ea cp d arbitrary: t rest and t rest s x acc m and t rest s w x ms k m
    rule: dump_value_dump_elements_dump_members.induct)
  case (1 FT ea cp)
  then have "parse_value FT 1 (t @ rest) = Some (Inr (PNone, rest))"
    using parse_literals by simp
  then show ?case by blast
next
  case (2 FT ea cp b)
  then have "parse_value FT 1 (t @ rest) = Some (Inr (PBool b, rest))"
    using parse_literals by (cases b) simp_all
  then show ?case by blast
next
  case (3 FT ea cp i)
  then show ?case
    using parse_number_text [OF show_int_start scan_number_int [of i rest FT]] by (auto simp: dump_int_Inr)
next
  case (4 FT ea cp x)
  show ?case
  proof (cases x)
    case (FFin m e)
    with 4 have "float_literal t" "fl_parse FT t = x" by auto
    then show ?thesis
      using parse_number_text [OF float_literal_start scan_number_float [of t rest FT]] 4(3) by fastforce
  next
    case (FInf pos)
    with 4 have "parse_value FT 1 (t @ rest) = Some (Inr (PFloat x, rest))"
      using parse_literals by (cases pos) simp_all
    then show ?thesis by blast
  next
    case FNan
    with 4 have "parse_value FT 1 (t @ rest) = Some (Inr (PFloat x, rest))"
      using parse_literals by simp
    then show ?thesis by blast
  qed
next
  case (5 FT ea cp s)
  then have "parse_value FT 1 (t @ rest) = Some (Inr (PStr s, rest))"
    using dump_string_start [of ea s rest] scan_dump_string [of ea s rest] by (auto simp: parse_value.simps)
  then show ?case by blast
next
  case (7 FT ea cp)
  then have "parse_value FT 1 (t @ rest) = Some (Inr (PList [], rest))"
    by (auto simp: parse_value.simps skip_ws_stop json_ws_def)
  then show ?case by blast
next
  case (8 FT ea cp v vs)
  then obtain t1 t2 where d: "dump_value FT ea cp v = Inr t1" "dump_elements FT ea cp vs = Inr t2" and t: "t = 91 # t1 @ t2"
    by (auto simp: rbind_eq_Inr)
  have ok: "json_ok FT ea v" "list_all (json_ok FT ea) vs" using 8(4) by simp_all
  obtain m where "parse_value FT m (t1 @ t2 @ rest) = Some (Inr (v, t2 @ rest))"
    using 8(1) [OF d(1) ok(1) stops_elements [OF d(2)]] by blast
  then obtain n where "parse_elements FT n [] (t1 @ t2 @ rest) = Some (Inr (PList ([] @ v # vs), rest))"
    using 8(2) [OF d ok(2)] by blast
  moreover have "json_starts t1" using dump_value_starts d(1) ok(1) by blast
  ultimately have "parse_value FT (Suc n) (t @ rest) = Some (Inr (PList (v # vs), rest))"
    by (simp add: parse_value.simps t json_starts_def)
  then show ?case by blast
next
  case (9 FT ea cp)
  then have "parse_value FT 1 (t @ rest) = Some (Inr (PDict [], rest))"
    by (auto simp: parse_value.simps skip_ws_stop json_ws_def)
  then show ?case by blast
next
  case (10 FT ea cp k v d)
  then obtain t1 t2 where d: "dump_value FT ea cp v = Inr t1" "dump_members FT ea cp d = Inr t2"
    and t: "t = 123 # dump_string ea k @ key_sep cp @ t1 @ t2" by (auto simp: rbind_eq_Inr)
  have ok: "json_ok FT ea v" "list_all (char_ok ea) k" "wf_dict ([] @ (k, v) # d)"
    "\<forall>p \<in> set d. list_all (char_ok ea) (fst p) \<and> json_ok FT ea (snd p)" using 10(4) by simp_all
  let ?w = "t1 @ t2 @ rest"
  have w: "json_starts ?w" using dump_value_starts [OF d(1) ok(1)] json_starts_append by blast
  obtain m where "parse_value FT m ?w = Some (Inr (v, t2 @ rest))"
    using 10(1) [OF d(1) ok(1) stops_members [OF d(2)]] by blast
  then obtain n where "parse_members FT n [] (dump_string ea k @ key_sep cp @ ?w) = Some (Inr (PDict ([] @ (k, v) # d), rest))"
    using 10(2) [OF d ok(4,3) dump_string_start scan_dump_string [OF ok(2)] w] by blast
  then have "parse_value FT (Suc n) (t @ rest) = Some (Inr (PDict ((k, v) # d), rest))"
    by (simp add: parse_value.simps t) (simp add: dump_string_def)
  then show ?case by blast
next
  case (11 FT ea cp)
  then have "parse_elements FT (Suc m) acc s = Some (Inr (PList (acc @ [x]), rest))"
    by (auto simp: parse_elements.simps skip_ws_stop json_ws_def)
  then show ?case by auto
next
  case (12 FT ea cp v vs)
  then obtain t1 t2 where d: "dump_value FT ea cp v = Inr t1" "dump_elements FT ea cp vs = Inr t2" and t: "t = item_sep cp @ t1 @ t2"
    by (auto simp: rbind_eq_Inr)
  have ok: "json_ok FT ea v" "list_all (json_ok FT ea) vs" using 12(4) by simp_all
  have w: "json_starts (t1 @ t2 @ rest)" using dump_value_starts [OF d(1) ok(1)] json_starts_append by blast
  obtain m' where "parse_value FT m' (t1 @ t2 @ rest) = Some (Inr (v, t2 @ rest))"
    using 12(1) [OF d(1) ok(1) stops_elements [OF d(2)]] by blast
  then obtain n where "parse_elements FT n (acc @ [x]) (t1 @ t2 @ rest) = Some (Inr (PList ((acc @ [x]) @ v # vs), rest))"
    using 12(2) [OF d ok(2)] by blast
  with 12(5) skip_ws_starts [OF w, of "[]"] parse_element_step [of FT m s x "blank cp @ t1 @ t2 @ rest" n acc] show ?case
    by (simp add: t seps)
next
  case (13 FT ea cp)
  have k: "k \<notin> fst ` set ms" using 13(3) by (auto simp: wf_dict_def)
  have "parse_members FT (Suc m) ms s = Some (Inr (PDict (ms @ [(k, x)]), rest))"
    using 13 skip_ws_starts [OF 13(7), of "[]"] k
    by (auto simp: parse_members.simps seps skip_ws_stop json_ws_def dict_set_snoc)
  then show ?case by auto
next
  case (14 FT ea cp k' v d)
  then obtain t1 t2 where d: "dump_value FT ea cp v = Inr t1" "dump_members FT ea cp d = Inr t2"
    and t: "t = item_sep cp @ dump_string ea k' @ key_sep cp @ t1 @ t2" by (auto simp: rbind_eq_Inr)
  have ok: "json_ok FT ea v" "list_all (char_ok ea) k'" "wf_dict ((ms @ [(k, x)]) @ (k', v) # d)"
    "\<forall>p \<in> set d. list_all (char_ok ea) (fst p) \<and> json_ok FT ea (snd p)" using 14(4,5) by simp_all
  have k: "k \<notin> fst ` set ms" using 14(5) by (auto simp: wf_dict_def)
  let ?w = "t1 @ t2 @ rest" and ?u = "dump_string ea k' @ key_sep cp @ t1 @ t2 @ rest"
  have w': "json_starts ?w" using dump_value_starts [OF d(1) ok(1)] json_starts_append by blast
  obtain m' where "parse_value FT m' ?w = Some (Inr (v, t2 @ rest))"
    using 14(1) [OF d(1) ok(1) stops_members [OF d(2)]] by blast
  then obtain n where "parse_members FT n (dict_set k x ms) ?u = Some (Inr (PDict ((ms @ [(k, x)]) @ (k', v) # d), rest))"
    using 14(2) [OF d ok(4,3) dump_string_start scan_dump_string [OF ok(2)] w'] dict_set_snoc [OF k] by metis
  moreover have "parse_value FT m (skip_ws (blank cp @ w)) = Some (Inr (x, 44 # blank cp @ ?u))"
    using 14(10) skip_ws_starts [OF 14(9), of "[]"] by (simp add: t seps)
  ultimately show ?case
    using parse_member_step [OF 14(6,7), of k "blank cp @ w" FT m x "blank cp @ ?u" n ms] 14(8) skip_ws_starts [OF dump_string_starts]
    by (simp add: seps)
qed simp_all

lemma json_loads_dumps:
  assumes "json_dumps FT ea cp v = Inr t" "json_ok FT ea v"
  shows "json_loads FT t = Inr v"
proof -
  have d: "dump_value FT ea cp v = Inr t" using assms(1) by (simp add: json_dumps_def)
  then obtain n where "parse_value FT n (t @ []) = Some (Inr (v, []))"
    using parse_dump(1) [OF d assms(2), of "[]"] by (auto simp: stops_def)
  then have "parse_value FT (json_fuel t) t = Some (Inr (v, []))"
    using parse_value_fuel [of FT n t _ "json_fuel t"] by (simp add: json_fuel_def)
  moreover have "json_starts t" by (rule dump_value_starts [OF d assms(2)])
  moreover from this have "skip_ws t = t" using skip_ws_starts [of t "[]"] by simp
  moreover have "skip_ws [] = []" by (simp add: skip_ws_def)
  ultimately show ?thesis unfolding json_loads_eq_Inr json_starts_def by metis
qed

lemma json_dumps_not_Nil: "json_dumps FT ea cp v = Inr t \<Longrightarrow> json_ok FT ea v \<Longrightarrow> t \<noteq> []"
  using dump_value_starts by (auto simp: json_dumps_def json_starts_def)

text \<open>What was parsed can be printed.\<close>

lemma dump_value_total:
  "json_value v \<Longrightarrow> \<exists>t. dump_value FT ea cp v = Inr t"
  "list_all json_value vs \<Longrightarrow> \<exists>t. dump_elements FT ea cp vs = Inr t"
  "\<forall>p \<in> set d. json_value (snd p) \<Longrightarrow> \<exists>t. dump_members FT ea cp d = Inr t"
proof (induction FT ea cp v and FT ea cp vs and FT ea cp d rule: dump_value_dump_elements_dump_members.induct)
  case (3 FT ea cp i)
  then show ?case by (auto simp: dump_int_Inr)
next
  case (8 FT ea cp v vs)
  then obtain t where "dump_value FT ea cp v = Inr t" by auto
  with 8 show ?case by auto
next
  case (10 FT ea cp k v d)
  then obtain t where "dump_value FT ea cp v = Inr t" by auto
  with 10 show ?case by auto
next
  case (12 FT ea cp v vs)
  then obtain t where "dump_value FT ea cp v = Inr t" by auto
  with 12 show ?case by auto
next
  case (14 FT ea cp k v d)
  then obtain t where "dump_value FT ea cp v = Inr t" by auto
  with 14 show ?case by auto
qed simp_all

lemma json_ok_value:
  "json_value v \<Longrightarrow> \<forall>x. float_ok FT x \<Longrightarrow> json_ok FT False v"
proof (induction v rule: json_value.induct)
  case (2 vs)
  then show ?case by (auto simp: list_all_iff)
next
  case (3 d)
  then show ?case by (auto simp: list_all_iff char_ok_def)
qed (auto simp: list_all_iff char_ok_def)

section \<open>Errors\<close>

text \<open>
  A text that is not JSON is a \<open>JSONDecodeError\<close>; the one other error is the \<open>ValueError\<close> for an
  integer over the digit limit.
\<close>

definition decode_error :: "py_exn \<Rightarrow> pystr \<Rightarrow> bool" where
  "decode_error e s \<longleftrightarrow> exn_class e = JSONDecodeError \<or> exn_class e = ValueError \<and> max_str_digits < length s"

lemma decode_error_mono: "decode_error e t \<Longrightarrow> length t \<le> length s \<Longrightarrow> decode_error e s"
  by (auto simp: decode_error_def)

lemma decode_error_intros [simp]: "decode_error (Exn JSONDecodeError m) s"
  by (simp add: decode_error_def)

lemma scan_string_error: "scan_string s = Inl e \<Longrightarrow> exn_class e = JSONDecodeError"
proof (induction s rule: scan_string.induct)
  case (2 c cs)
  have u: "exn_class e' = JSONDecodeError" if "read_unicode r = Inl e'" for r e'
    using that by (auto simp: read_unicode_def bad_unicode_escape_def split: option.splits if_splits)
  have "exn_class e' = JSONDecodeError" if "read_escape cs = Inl e'" for e'
    using that u by (cases cs) (auto simp: raise_def rbind_eq_Inl split: if_splits option.splits prod.splits)
  with 2 show ?case
    by (fastforce simp: raise_def rbind_eq_Inl split: if_splits prod.splits)
qed (auto simp: raise_def)

lemma scan_number_error:
  assumes "scan_number FT s = Inl e"
  shows "decode_error e s"
proof (cases "scan_int (if s \<noteq> [] \<and> hd s = 45 then tl s else s)")
  case None
  with assms show ?thesis by (auto simp: scan_number_def raise_def Let_def)
next
  case (Some q)
  obtain ds r where q: "q = (ds, r)" by fastforce
  have "length ds \<le> length s"
    using arg_cong [OF scan_int_parts [OF Some [unfolded q]], of length] by (cases s) (auto split: if_splits)
  with assms Some q show ?thesis
    by (auto simp: scan_number_def raise_def Let_def decode_error_def split: prod.splits if_splits)
qed

lemma parse_error_all:
  "(\<forall>s e. parse_value FT n s = Some (Inl e) \<longrightarrow> decode_error e s) \<and>
   (\<forall>acc s e. parse_elements FT n acc s = Some (Inl e) \<longrightarrow> decode_error e s) \<and>
   (\<forall>d s e. parse_members FT n d s = Some (Inl e) \<longrightarrow> decode_error e s)"
proof (induction n)
  case (Suc n)
  have V: "decode_error e s" if "parse_value FT n t = Some (Inl e)" "length t \<le> length s" for s t e
    using Suc that decode_error_mono by blast
  have E: "decode_error e s" if "parse_elements FT n acc t = Some (Inl e)" "length t \<le> length s" for acc s t e
    using Suc that decode_error_mono by blast
  have M: "decode_error e s" if "parse_members FT n d t = Some (Inl e)" "length t \<le> length s" for d s t e
    using Suc that decode_error_mono by blast
  have "decode_error e s" if p: "parse_value FT (Suc n) s = Some (Inl e)" for s e
  proof -
    note q = p [unfolded parse_value.simps Let_def]
    have l: "length (skip_ws (tl s)) \<le> length s" using length_skip_ws_tl [of s] by linarith
    consider "s = []" | "s \<noteq> []" "hd s = 34" | "s \<noteq> []" "hd s = 123" | "s \<noteq> []" "hd s = 91"
      | "s \<noteq> []" "hd s \<noteq> 34" "hd s \<noteq> 123" "hd s \<noteq> 91" by blast
    then show ?thesis
    proof cases
      case 2
      with q scan_string_error [of "tl s"] show ?thesis by (auto simp: rbind_eq_Inl decode_error_def)
    next
      case 3
      with q M l show ?thesis by (auto split: if_splits)
    next
      case 4
      with q E l show ?thesis by (auto split: if_splits)
    next
      case 5
      with q scan_number_error show ?thesis by (simp split: option.splits)
    qed (use q in \<open>auto simp: raise_def\<close>)
  qed
  moreover have "decode_error e s" if p: "parse_elements FT (Suc n) acc s = Some (Inl e)" for acc s e
  proof -
    consider "parse_value FT n s = Some (Inl e)" | x r where "parse_value FT n s = Some (Inr (x, r))" "skip_ws r \<noteq> []"
        "parse_elements FT n (acc @ [x]) (skip_ws (tl (skip_ws r))) = Some (Inl e)"
      | "exn_class e = JSONDecodeError"
      using p by (auto simp: parse_elements.simps Let_def then_parse_eq_Some split: if_splits)
    then show ?thesis
    proof cases
      case (2 x r)
      then show ?thesis using E [OF 2(3)] skip_ws_tl_skip_ws [OF 2(2)] parse_rest(1) [OF 2(1)] by simp
    qed (use V in \<open>auto simp: decode_error_def\<close>)
  qed
  moreover have "decode_error e s" if p: "parse_members FT (Suc n) d s = Some (Inl e)" for d s e
  proof -
    consider (own) "exn_class e = JSONDecodeError"
      | (val) k t where "scan_string (tl s) = Inr (k, t)" "skip_ws t \<noteq> []" "parse_value FT n (skip_ws (tl (skip_ws t))) = Some (Inl e)"
      | (more) k t x u where "scan_string (tl s) = Inr (k, t)" "skip_ws t \<noteq> []"
        "parse_value FT n (skip_ws (tl (skip_ws t))) = Some (Inr (x, u))" "skip_ws u \<noteq> []"
        "parse_members FT n (dict_set k x d) (skip_ws (tl (skip_ws u))) = Some (Inl e)"
      using p scan_string_error [of "tl s" e]
      by (auto simp: parse_members.simps Let_def then_parse_eq_Some raise_def split: if_splits)
    then show ?thesis
    proof cases
      case (val k t)
      then show ?thesis using V [OF val(3)] skip_ws_tl_skip_ws [OF val(2)] scan_string_rest [OF val(1)] by simp
    next
      case (more k t x u)
      then show ?thesis
        using M [OF more(5)] skip_ws_tl_skip_ws [OF more(2)] skip_ws_tl_skip_ws [OF more(4)]
          scan_string_rest [OF more(1)] parse_rest(1) [OF more(3)] by simp
    qed (simp add: decode_error_def)
  qed
  ultimately show ?case by blast
qed (simp add: parse_value.simps parse_elements.simps parse_members.simps)

lemma json_loads_error:
  assumes "json_loads FT s = Inl e"
  shows "decode_error e s"
proof -
  have "2 * length (skip_ws s) + 1 \<le> json_fuel s" using length_skip_ws [of s] by (simp add: json_fuel_def)
  then obtain q where q: "parse_value FT (json_fuel s) (skip_ws s) = Some q" using parse_enough by blast
  show ?thesis
  proof (cases q)
    case (Inl e')
    then have "decode_error e' s" using parse_error_all q length_skip_ws decode_error_mono by metis
    with assms q Inl show ?thesis by (auto simp: json_loads_def raise_def split: if_splits)
  next
    case (Inr r)
    with assms q show ?thesis by (auto simp: json_loads_def raise_def split: if_splits prod.splits)
  qed
qed

lemma scan_number_big:
  assumes "\<not> short_int i" "stops rest"
  shows "scan_number FT (show_int i @ rest) = raise ValueError ''Exceeds the limit (4300 digits) for integer string conversion''"
proof -
  have "hd (show_nat n) \<noteq> 45" for n using hd_show_nat [of n] by (auto simp: json_digit_def)
  moreover have "scan_frac rest = ([], rest)" "scan_exp rest = ([], rest)"
    using scan_frac_stops [OF assms(2), of "[]"] scan_exp_stops [OF assms(2), of "[]"] by simp_all
  ultimately show ?thesis
    using assms by (cases "i < 0") (simp_all add: scan_number_def show_int_def Let_def scan_int_show_nat short_int_def)
qed

lemma json_loads_big:
  assumes "\<not> short_int i"
  shows "json_loads FT (show_int i) = raise ValueError ''Exceeds the limit (4300 digits) for integer string conversion''"
proof -
  have "parse_value FT (Suc n) (show_int i @ []) = Some (raise ValueError ''Exceeds the limit (4300 digits) for integer string conversion'')" for n
    using parse_number_text [OF show_int_start scan_number_big [OF assms, of "[]"]] by (simp add: stops_def)
  moreover have "json_starts (show_int i)" by (rule json_starts_digit [OF show_int_start(1,2)])
  moreover from this have "skip_ws (show_int i) = show_int i" using skip_ws_starts [of "show_int i" "[]"] by simp
  ultimately show ?thesis by (simp add: json_loads_def json_fuel_def json_starts_def)
qed

lemma long_int_exists:
  assumes "max_str_digits \<le> j"
  shows "\<not> short_int (10 ^ j)"
proof -
  have "10 ^ k \<le> n \<Longrightarrow> k < length (show_nat n)" for k n :: nat
  proof (induction k arbitrary: n)
    case (Suc k)
    then have d: "10 ^ k \<le> n div 10" by (simp add: less_eq_div_iff_mult_less_eq mult.commute)
    moreover have "1 \<le> (10::nat) ^ k" by simp
    ultimately have "1 \<le> n div 10" by linarith
    then have "10 \<le> n" by linarith
    with d Suc.IH [of "n div 10"] show ?case by (simp add: show_nat.simps [of n])
  qed simp
  from this [of j "10 ^ j"] have "j < length (show_nat (10 ^ j))" by blast
  moreover have e: "nat \<bar>10 ^ j\<bar> = 10 ^ j" by (simp add: nat_power_eq)
  ultimately show ?thesis using assms unfolding short_int_def e by linarith
qed

end
