(* ===== verification/Sha256.thy ===== *)
theory Sha256
  imports JsonFacts
begin

unbundle bit_operations_syntax

text \<open>
  \<open>hashlib.sha256(data).hexdigest()\<close>: the compression function of FIPS 180-4 on 32-bit words, over the
  padded message cut into blocks of sixteen words.
\<close>

section \<open>The compression function\<close>

definition sha_ch :: "32 word \<Rightarrow> 32 word \<Rightarrow> 32 word \<Rightarrow> 32 word" where
  "sha_ch x y z = (x AND y) XOR (NOT x AND z)"

definition sha_maj :: "32 word \<Rightarrow> 32 word \<Rightarrow> 32 word \<Rightarrow> 32 word" where
  "sha_maj x y z = (x AND y) XOR (x AND z) XOR (y AND z)"

definition big_sigma0 :: "32 word \<Rightarrow> 32 word" where
  "big_sigma0 x = word_rotr 2 x XOR word_rotr 13 x XOR word_rotr 22 x"

definition big_sigma1 :: "32 word \<Rightarrow> 32 word" where
  "big_sigma1 x = word_rotr 6 x XOR word_rotr 11 x XOR word_rotr 25 x"

definition small_sigma0 :: "32 word \<Rightarrow> 32 word" where
  "small_sigma0 x = word_rotr 7 x XOR word_rotr 18 x XOR drop_bit 3 x"

definition small_sigma1 :: "32 word \<Rightarrow> 32 word" where
  "small_sigma1 x = word_rotr 17 x XOR word_rotr 19 x XOR drop_bit 10 x"

text \<open>
  The constants are fractional parts of roots of the first primes, 32 bits of them: cube roots of 64 primes for
  the rounds, square roots of eight for the initial state.  \<open>int_root k n\<close> is the greatest number below
  \<open>2 ^ 40\<close> whose \<open>k\<close>-th power is at most \<open>n\<close>, found bit by bit.
\<close>

definition int_root :: "nat \<Rightarrow> nat \<Rightarrow> nat" where
  "int_root k n = foldl (\<lambda>r b. if (r + 2 ^ b) ^ k \<le> n then r + 2 ^ b else r) 0 (rev [0..<40])"

definition small_primes :: "nat list" where
  "small_primes =
     [2, 3, 5, 7, 11, 13, 17, 19, 23, 29, 31, 37, 41, 43, 47, 53, 59, 61, 67, 71, 73, 79, 83, 89, 97, 101, 103,
      107, 109, 113, 127, 131, 137, 139, 149, 151, 157, 163, 167, 173, 179, 181, 191, 193, 197, 199, 211, 223,
      227, 229, 233, 239, 241, 251, 257, 263, 269, 271, 277, 281, 283, 293, 307, 311]"

definition round_constants :: "32 word list" where
  "round_constants = map (\<lambda>p. of_nat (int_root 3 (p * 2 ^ 96))) small_primes"

definition initial_words :: "32 word list" where
  "initial_words = map (\<lambda>p. of_nat (int_root 2 (p * 2 ^ 64))) (take 8 small_primes)"

text \<open>The eight working variables.\<close>

datatype hash_state = HS (hs_a: "32 word") (hs_b: "32 word") (hs_c: "32 word") (hs_d: "32 word")
  (hs_e: "32 word") (hs_f: "32 word") (hs_g: "32 word") (hs_h: "32 word")

definition initial_hash :: hash_state where
  "initial_hash =
     (let w = (!) initial_words in HS (w 0) (w 1) (w 2) (w 3) (w 4) (w 5) (w 6) (w 7))"

text \<open>The message schedule, newest word first: sixteen words of the block and forty-eight more.\<close>

fun schedule :: "nat \<Rightarrow> 32 word list \<Rightarrow> 32 word list" where
  "schedule 0 ws = ws"
| "schedule (Suc n) ws =
     schedule n ((small_sigma1 (ws ! 1) + ws ! 6 + small_sigma0 (ws ! 14) + ws ! 15) # ws)"

fun sha_round :: "hash_state \<Rightarrow> 32 word \<times> 32 word \<Rightarrow> hash_state" where
  "sha_round (HS a b c d e f g h) (k, w) =
     (let t1 = h + big_sigma1 e + sha_ch e f g + k + w; t2 = big_sigma0 a + sha_maj a b c
      in HS (t1 + t2) a b c (d + t1) e f g)"

fun add_hash :: "hash_state \<Rightarrow> hash_state \<Rightarrow> hash_state" where
  "add_hash (HS a b c d e f g h) (HS a' b' c' d' e' f' g' h') =
     HS (a + a') (b + b') (c + c') (d + d') (e + e') (f + f') (g + g') (h + h')"

definition sha_block :: "hash_state \<Rightarrow> 32 word list \<Rightarrow> hash_state" where
  "sha_block H block =
     add_hash H (foldl sha_round H (zip round_constants (rev (schedule 48 (rev block)))))"

section \<open>Padding and blocks\<close>

text \<open>The \<open>k\<close> lowest bytes of a word, the highest first.\<close>

definition be_bytes :: "nat \<Rightarrow> 'a::len word \<Rightarrow> bytes" where
  "be_bytes k w = map (\<lambda>i. ucast (drop_bit (8 * i) w)) (rev [0..<k])"

text \<open>A one bit, zeros up to eight bytes before the end of a block, and the length in bits.\<close>

definition sha_pad :: "bytes \<Rightarrow> bytes" where
  "sha_pad m = m @ [128] @ replicate ((119 - length m mod 64) mod 64) 0 @ be_bytes 8 (of_nat (8 * length m) :: 64 word)"

fun be_words :: "bytes \<Rightarrow> 32 word list" where
  "be_words (a # b # c # d # r) =
     (push_bit 24 (ucast a) OR push_bit 16 (ucast b) OR push_bit 8 (ucast c) OR ucast d) # be_words r"
| "be_words _ = []"

function sha_blocks :: "hash_state \<Rightarrow> 32 word list \<Rightarrow> hash_state" where
  "sha_blocks H ws = (if ws = [] then H else sha_blocks (sha_block H (take 16 ws)) (drop 16 ws))"
  by pat_completeness auto
termination
  by (relation "measure (\<lambda>(H, ws). length ws)") auto

declare sha_blocks.simps [simp del]

definition hash_words :: "hash_state \<Rightarrow> 32 word list" where
  "hash_words H = [hs_a H, hs_b H, hs_c H, hs_d H, hs_e H, hs_f H, hs_g H, hs_h H]"

definition sha256 :: "bytes \<Rightarrow> bytes" where
  "sha256 m = concat (map (\<lambda>w. be_bytes 4 w) (hash_words (sha_blocks initial_hash (be_words (sha_pad m)))))"

definition hexdigest :: "bytes \<Rightarrow> pystr" where
  "hexdigest bs = concat (map (\<lambda>b. [hex_digit (unat b div 16), hex_digit (unat b mod 16)]) bs)"

definition sha256_hex :: "bytes \<Rightarrow> pystr" where
  "sha256_hex m = hexdigest (sha256 m)"

section \<open>Shape of a digest\<close>

lemma length_be_bytes [simp]: "length (be_bytes k w) = k"
  by (simp add: be_bytes_def)

lemma int_root_bits:
  fixes r n :: nat
  assumes "r ^ k \<le> n" "n < (r + 2 ^ m) ^ k"
  shows "(let r' = foldl (\<lambda>r b. if (r + 2 ^ b) ^ k \<le> n then r + 2 ^ b else r) r (rev [0..<m])
          in r' ^ k \<le> n \<and> n < (r' + 1) ^ k)"
  using assms
proof (induction m arbitrary: r)
  case (Suc m)
  show ?case
  proof (cases "(r + 2 ^ m) ^ k \<le> n")
    case True
    have "n < (r + 2 ^ m + 2 ^ m) ^ k" using Suc.prems(2) by (simp add: mult_2 add.assoc [symmetric])
    from Suc.IH [OF True this] True show ?thesis by simp
  next
    case False
    with Suc.IH [OF Suc.prems(1)] show ?thesis by simp
  qed
qed simp

text \<open>The bits found are the integer part of the root.\<close>

lemma int_root_correct:
  fixes n :: nat
  assumes "0 < k" "n < 2 ^ (40 * k)"
  shows "int_root k n ^ k \<le> n" "n < (int_root k n + 1) ^ k"
proof -
  have "(0::nat) ^ k \<le> n" using assms(1) by (simp add: zero_power)
  moreover have "n < (0 + 2 ^ 40) ^ k" using assms(2) by (simp only: power_mult add_0)
  ultimately show "int_root k n ^ k \<le> n" "n < (int_root k n + 1) ^ k"
    using int_root_bits [of 0 k n 40] unfolding int_root_def Let_def by blast+
qed

lemma pad_arith: "64 dvd n + (119 - n mod 64) mod 64 + (9::nat)"
proof -
  define q r where "q = n div 64" and "r = n mod 64"
  have n: "n = 64 * q + r" and r: "r < 64" by (simp_all add: q_def r_def)
  have "(119 - r) mod 64 = (if r < 56 then 55 - r else 119 - r)"
  proof (cases "r < 56")
    case True
    then have "119 - r = (55 - r) + 64" by linarith
    then show ?thesis using True by (simp only: mod_add_self2) simp
  qed (use r in simp)
  then have "n + (119 - r) mod 64 + 9 = 64 * (if r < 56 then q + 1 else q + 2)"
    using r by (simp add: n)
  then show ?thesis unfolding r_def by (metis dvd_triv_left)
qed

lemma length_sha_pad: "64 dvd length (sha_pad m)"
  using pad_arith [of "length m"] by (simp add: sha_pad_def add.commute add.left_commute)

lemma length_sha256: "length (sha256 m) = 32"
  by (simp add: sha256_def hash_words_def)

lemma hex_digit_ascii: "d < 16 \<Longrightarrow> hex_digit d < 128"
  by (simp add: hex_digit_def)

lemma length_hexdigest: "length (hexdigest bs) = 2 * length bs"
  unfolding hexdigest_def by (induction bs) simp_all

lemma hexdigest_chars: "c \<in> set (hexdigest bs) \<Longrightarrow> hex_val c \<noteq> None \<and> c < 128"
  by (auto simp: hexdigest_def less_mult_imp_div_less hex_digit_ascii)

lemma hexdigest_inject: "hexdigest a = hexdigest b \<longleftrightarrow> a = b"
proof
  assume "hexdigest a = hexdigest b"
  then show "a = b"
  proof (induction a arbitrary: b)
    case (Cons x a)
    then obtain y b' where b: "b = y # b'" by (cases b) (auto simp: hexdigest_def)
    have i: "hex_digit i = hex_digit j \<longleftrightarrow> i = j" if "i < 16" "j < 16" for i j
      using that by (metis hex_val_digit option.inject)
    have d: "unat z div 16 < 16" for z :: "8 word" by (simp add: less_mult_imp_div_less)
    have "unat x div 16 = unat y div 16" "unat x mod 16 = unat y mod 16" "hexdigest a = hexdigest b'"
      using Cons.prems d by (auto simp: b hexdigest_def i)
    then have "x = y" by (metis div_mult_mod_eq word_unat_eq_iff)
    with Cons.IH b \<open>hexdigest a = hexdigest b'\<close> show ?case by simp
  qed (auto simp: hexdigest_def)
qed simp

lemma sha256_hex_shape: "length (sha256_hex m) = 64" "c \<in> set (sha256_hex m) \<Longrightarrow> hex_val c \<noteq> None \<and> c < 128"
  by (simp_all add: sha256_hex_def length_hexdigest length_sha256 hexdigest_chars)

end
