(* ===== verification/OrderedDict.thy ===== *)
theory OrderedDict
  imports Prelude
begin

text \<open>
  \<open>collections.OrderedDict\<close> as the program uses it in two places (the stash of relay receipts and
  the table of transfers being reassembled): an association list, oldest entry first, with
  \<open>move_to_end\<close> and the loop that pops from the front while there are too many entries.  What
  both users promise is stated once, as the interface \<open>lru\<close>.
\<close>

section \<open>Operations\<close>

definition move_to_end :: "'k \<Rightarrow> ('k \<times> 'v) list \<Rightarrow> ('k \<times> 'v) list" where
  "move_to_end k d = (case map_of d k of None \<Rightarrow> d | Some v \<Rightarrow> dict_pop k d @ [(k, v)])"

text \<open>\<open>while len(d) > n: d.popitem(last=False)\<close>\<close>

fun evict_oldest :: "int \<Rightarrow> ('k \<times> 'v) list \<Rightarrow> ('k \<times> 'v) list" where
  "evict_oldest n [] = []"
| "evict_oldest n (p # d) = (if int (length (p # d)) > n then evict_oldest n d else p # d)"

lemma evict_oldest_drop: "0 \<le> n \<Longrightarrow> evict_oldest n d = drop (length d - nat n) d"
proof (induction d)
  case (Cons p d)
  show ?case
  proof (cases "int (length (p # d)) > n")
    case True
    then have "length (p # d) - nat n = Suc (length d - nat n)"
      using Cons.prems by (simp add: Suc_diff_le nat_le_iff)
    with True Cons show ?thesis by simp
  qed simp
qed simp

lemma evict_oldest_fits [simp]: "int (length d) \<le> n \<Longrightarrow> evict_oldest n d = d"
  by (cases d) auto

lemma length_evict_oldest: "0 \<le> n \<Longrightarrow> int (length (evict_oldest n d)) \<le> n"
  by (simp add: evict_oldest_drop)

lemma evict_oldest_suffix: "\<exists>dropped. d = dropped @ evict_oldest n d"
proof (induction d)
  case (Cons p d)
  then obtain ds where "d = ds @ evict_oldest n d" by blast
  then have "p # d = (if int (length (p # d)) > n then p # ds else []) @ evict_oldest n (p # d)"
    by simp
  then show ?case by blast
qed simp

lemma set_evict_oldest: "set (evict_oldest n d) \<subseteq> set d"
  using evict_oldest_suffix [of d n] by (metis Un_upper2 set_append)

lemma wf_evict_oldest [simp, intro]: "wf_dict d \<Longrightarrow> wf_dict (evict_oldest n d)"
  using evict_oldest_suffix [of d n] unfolding wf_dict_def
  by (metis distinct_append map_append)

lemma map_of_evict_oldest:
  assumes "wf_dict d" "map_of (evict_oldest n d) k = Some v"
  shows "map_of d k = Some v"
  using assms set_evict_oldest [of n d] wf_evict_oldest [of d n]
  by (metis map_of_SomeD map_of_eq_Some_iff subsetD wf_dict_def)

lemma evict_oldest_last:
  "1 \<le> n \<Longrightarrow> \<exists>d'. evict_oldest n (d @ [p]) = d' @ [p]"
  by (induction d) auto

lemma map_of_evict_last:
  assumes "wf_dict d" "k \<notin> fst ` set d" "1 \<le> n"
  shows "map_of (evict_oldest n (d @ [(k, v)])) k = Some v"
proof -
  obtain d' where d': "evict_oldest n (d @ [(k, v)]) = d' @ [(k, v)]"
    using evict_oldest_last assms(3) by blast
  moreover have "wf_dict (d @ [(k, v)])" using assms by (simp add: wf_dict_def)
  then have "wf_dict (d' @ [(k, v)])" using d' wf_evict_oldest by metis
  ultimately show ?thesis
    by (simp only:) (rule map_of_is_SomeI, auto simp: wf_dict_def)
qed

lemma wf_move_to_end [simp, intro]: "wf_dict d \<Longrightarrow> wf_dict (move_to_end k d)"
  by (auto simp: move_to_end_def wf_dict_def dict_pop_def AList.delete_eq distinct_map_filter
      split: option.splits)

lemma map_of_snoc_pop: "map_of (dict_pop k d @ [(k, v)]) = (map_of d)(k \<mapsto> v)"
  by (rule ext) (simp add: map_add_def split: option.split)

lemma map_of_move_to_end [simp]: "map_of (move_to_end k d) = map_of d"
proof (cases "map_of d k")
  case (Some v)
  then have "map_of (move_to_end k d) = (map_of d)(k \<mapsto> v)"
    by (simp add: move_to_end_def map_of_snoc_pop del: map_of_append)
  with Some show ?thesis by (simp add: fun_upd_idem)
qed (simp add: move_to_end_def)

lemma map_of_key: "map_of d k = Some v \<Longrightarrow> k \<in> fst ` set d"
  by (force dest: map_of_SomeD)

lemma length_dict_pop: "wf_dict d \<Longrightarrow> length (dict_pop k d) =
    (if k \<in> fst ` set d then length d - 1 else length d)"
proof (induction d)
  case (Cons p d)
  then have "k \<in> fst ` set d \<Longrightarrow> length d > 0" by (cases d) auto
  with Cons show ?case by (auto simp: dict_pop_def wf_dict_def)
qed (simp add: dict_pop_def)

lemma length_move_to_end [simp]:
  assumes "wf_dict d"
  shows "length (move_to_end k d) = length d"
proof (cases "map_of d k")
  case None
  then show ?thesis by (simp add: move_to_end_def)
next
  case (Some v)
  then have "k \<in> fst ` set d" by (rule map_of_key)
  moreover from this have "length d > 0" by (cases d) auto
  ultimately show ?thesis using Some assms by (simp add: move_to_end_def length_dict_pop)
qed

lemma keys_move_to_end:
  "map fst (move_to_end k d) =
     (if k \<in> fst ` set d then removeAll k (map fst d) @ [k] else map fst d)"
proof (cases "map_of d k")
  case None
  moreover from None have "k \<notin> fst ` set d" by (simp add: map_of_eq_None_iff)
  ultimately show ?thesis by (simp add: move_to_end_def)
next
  case (Some v)
  moreover from Some have "k \<in> fst ` set d" by (rule map_of_key)
  ultimately show ?thesis by (simp add: move_to_end_def dict_pop_def AList.delete_keys)
qed

section \<open>The interface of a bounded table, oldest entry first\<close>

text \<open>
  A store whose operation \<open>step a\<close> works on the entry with key \<open>key_of a\<close>: it leaves the order
  of the keys alone, or removes the key, or makes it the newest and drops entries from the old
  end down to the capacity (and may then remove the key); it never changes the value of another entry it keeps.
\<close>

definition newer :: "'k \<Rightarrow> 'k list \<Rightarrow> 'k set" where
  "newer k ks = set (tl (dropWhile (\<lambda>x. x \<noteq> k) ks))"

lemma newer_split [simp]: "k \<notin> set us \<Longrightarrow> newer k (us @ k # vs) = set vs"
proof -
  assume "k \<notin> set us"
  then have "dropWhile (\<lambda>x. x \<noteq> k) (us @ k # vs) = k # vs"
    by (induction us) auto
  then show ?thesis by (simp add: newer_def)
qed

definition refresh :: "nat \<Rightarrow> 'k \<Rightarrow> 'k list \<Rightarrow> 'k list" where
  "refresh cap k ks = (let xs = removeAll k ks @ [k] in drop (length xs - cap) xs)"

lemma refresh_keeps:
  assumes "distinct ks" "k \<in> set ks" "k \<noteq> k'" "card (insert k' (newer k ks)) < cap"
  shows "k \<in> set (refresh cap k' ks) \<and> newer k (refresh cap k' ks) \<subseteq> insert k' (newer k ks)"
proof -
  obtain us vs where ks: "ks = us @ k # vs" and us: "k \<notin> set us"
    using assms(2) by (meson split_list_first)
  let ?us = "removeAll k' us" and ?vs = "removeAll k' vs"
  let ?n = "length ?us + length ?vs + 2 - cap"
  have "card (insert k' (set ?vs)) = Suc (length ?vs)"
  proof -
    have "card (insert k' (set ?vs)) = Suc (card (set ?vs))"
      by (rule card_insert_disjoint) auto
    moreover have "distinct ?vs" using assms(1) by (simp add: ks distinct_removeAll)
    then have "card (set ?vs) = length ?vs" by (rule distinct_card)
    ultimately show ?thesis by simp
  qed
  moreover have "card (insert k' (set ?vs)) \<le> card (insert k' (set vs))"
    by (rule card_mono) auto
  ultimately have "?n \<le> length ?us"
    using assms(4) us by (simp add: ks)
  moreover have "refresh cap k' ks = drop ?n (?us @ k # ?vs @ [k'])"
    using assms(3) by (simp add: refresh_def ks)
  ultimately have r: "refresh cap k' ks = drop ?n ?us @ k # ?vs @ [k']"
    by simp
  have "k \<notin> set (drop ?n ?us)" using us by (auto dest: in_set_dropD)
  with r us show ?thesis by (auto simp: ks)
qed

lemma newer_removeAll:
  assumes "k \<in> set ks" "k \<noteq> k'"
  shows "newer k (removeAll k' ks) \<subseteq> newer k ks"
proof -
  obtain us vs where ks: "ks = us @ k # vs" and us: "k \<notin> set us"
    using assms(1) by (meson split_list_first)
  have "k \<notin> set (removeAll k' us)" using us by simp
  then show ?thesis using us assms(2) by (auto simp: ks)
qed

locale lru =
  fixes keys :: "'s \<Rightarrow> 'k list" and lookup :: "'s \<Rightarrow> 'k \<Rightarrow> 'v option"
    and step :: "'a \<Rightarrow> 's \<Rightarrow> 's" and key_of :: "'a \<Rightarrow> 'k"
    and cap :: "'s \<Rightarrow> nat" and invar :: "'s \<Rightarrow> bool"
  assumes invar_step: "invar s \<Longrightarrow> invar (step a s)"
    and distinct_keys: "invar s \<Longrightarrow> distinct (keys s)"
    and length_keys: "invar s \<Longrightarrow> length (keys s) \<le> cap s"
    and cap_step: "cap (step a s) = cap s"
    and keys_step: "invar s \<Longrightarrow>
      keys (step a s) \<in> {keys s, removeAll (key_of a) (keys s), refresh (cap s) (key_of a) (keys s),
        removeAll (key_of a) (refresh (cap s) (key_of a) (keys s))}"
    and lookup_step: "invar s \<Longrightarrow> k \<noteq> key_of a \<Longrightarrow> k \<in> set (keys (step a s)) \<Longrightarrow>
      lookup (step a s) k = lookup s k"
begin

lemma fold_bound: "invar s \<Longrightarrow> invar (fold step as s) \<and> length (keys (fold step as s)) \<le> cap s"
proof (induction as arbitrary: s)
  case (Cons a as)
  from Cons.IH [OF invar_step [OF Cons.prems]] show ?case by (simp add: cap_step)
qed (simp add: length_keys)

lemma keep_step:
  assumes "invar s" "k \<in> set (keys s)" "k \<noteq> key_of a"
    and "card (insert (key_of a) (newer k (keys s))) < cap s"
  shows "k \<in> set (keys (step a s)) \<and>
    newer k (keys (step a s)) \<subseteq> insert (key_of a) (newer k (keys s))"
proof -
  note removed = newer_removeAll [OF _ assms(3)]
  note kept = refresh_keeps [OF distinct_keys [OF assms(1)] assms(2-4)]
  from keys_step [OF assms(1), of a] assms(2,3) kept
    removed [of "keys s"] removed [of "refresh (cap s) (key_of a) (keys s)"]
  show ?thesis by auto
qed

text \<open>
  An entry survives any run of operations on other keys, with its value, as long as the keys
  newer than it and those the run touches are together fewer than the capacity.
\<close>

lemma survives:
  assumes "invar s" "k \<in> set (keys s)" "k \<notin> key_of ` set as"
    and "card (newer k (keys s) \<union> key_of ` set as) < cap s"
  shows "k \<in> set (keys (fold step as s)) \<and> lookup (fold step as s) k = lookup s k"
  using assms
proof (induction as arbitrary: s)
  case (Cons a as)
  have fin: "finite (newer k (keys s))" by (simp add: newer_def)
  have "card (insert (key_of a) (newer k (keys s))) \<le> card (newer k (keys s) \<union> key_of ` set (a # as))"
    using fin by (intro card_mono) auto
  then have k: "k \<in> set (keys (step a s))"
    and n: "newer k (keys (step a s)) \<subseteq> insert (key_of a) (newer k (keys s))"
    using keep_step [of s k a] Cons.prems by auto
  have "card (newer k (keys (step a s)) \<union> key_of ` set as)
      \<le> card (newer k (keys s) \<union> key_of ` set (a # as))"
    using n fin by (intro card_mono) auto
  then have "k \<in> set (keys (fold step as (step a s))) \<and>
      lookup (fold step as (step a s)) k = lookup (step a s) k"
    using Cons.prems k by (intro Cons.IH) (auto simp: invar_step cap_step)
  then show ?case using Cons.prems k by (simp add: lookup_step)
qed simp

end

end
