(* ===== verification/Chunking.thy ===== *)
theory Chunking
  imports Wire OrderedDict
begin

text \<open>
  \<open>src/rpcproxy/client/chunking.py\<close>: the chunked envelope format for large \<open>post_message\<close>
  bodies.  The encoder cuts the UTF-8 JSON text of a body (compressed on request) into slices and
  wraps each in an envelope; the reassembler collects the envelopes of a transfer by index and
  rebuilds the body.

  \<open>push\<close> returns the reassembler and the outcome, because an exception of Python does not undo
  what the statements before it did.
\<close>

section \<open>Constants and data\<close>

definition CHUNK_MARKER :: pystr where
  "CHUNK_MARKER = lit ''__rpcproxy_chunk__''"

definition CHUNK_DATA_KEY :: pystr where
  "CHUNK_DATA_KEY = lit ''data_b64''"

definition CHUNK_VERSION :: int where
  "CHUNK_VERSION = 1"

definition CHUNK_CONTENT_TYPE :: pystr where
  "CHUNK_CONTENT_TYPE = lit ''application/json''"

definition DEFAULT_AUTO_CHUNK_THRESHOLD :: int where
  "DEFAULT_AUTO_CHUNK_THRESHOLD = 256 * 1024"

record encoded_chunk_batch =
  ecb_transfer_id :: pystr
  ecb_request_id :: pystr
  ecb_chunk_count :: int
  ecb_bodies :: "pydict list"

record chunk_send_report =
  csr_transfer_id :: pystr
  csr_request_id :: pystr
  csr_chunk_count :: int
  csr_transport_request_ids :: "pystr list"
  csr_responses :: "pystr list"

record auto_post_message_result =
  apr_chunked :: bool
  apr_response :: "pystr option"
  apr_chunk_report :: "chunk_send_report option"

record decoded_chunk_message =
  dcm_transfer_id :: pystr
  dcm_request_id :: pystr
  dcm_body :: pydict
  dcm_chunk_count :: int
  dcm_total_bytes :: int
  dcm_sha256 :: pystr
  dcm_content_encoding :: pystr

record pending_transfer =
  pt_transfer_id :: pystr
  pt_request_id :: pystr
  pt_chunk_count :: int
  pt_total_bytes :: int
  pt_sha256 :: pystr
  pt_content_encoding :: pystr
  pt_chunks :: "(int \<times> bytes) list"

record reassembler =
  max_pending :: int
  transfers :: "(pystr \<times> pending_transfer) list"

section \<open>Reading chunk metadata\<close>

definition chunk_meta :: "pydict \<Rightarrow> py_exn + pydict" where
  "chunk_meta body =
     (case dict_get body CHUNK_MARKER PNone of
        PDict meta \<Rightarrow> Inr meta
      | _ \<Rightarrow> raise ValueError ''missing chunk metadata'')"

definition meta_str :: "pylib \<Rightarrow> pydict \<Rightarrow> string \<Rightarrow> pystr \<Rightarrow> pystr" where
  "meta_str L meta key dflt =
     (case dict_get meta (lit key) (PStr dflt) of
        PNone \<Rightarrow> dflt
      | PStr s \<Rightarrow> s
      | v \<Rightarrow> lib_str L v)"

definition meta_int :: "pydict \<Rightarrow> string \<Rightarrow> py_exn + int" where
  "meta_int meta key =
     (case get meta key of
        PBool _ \<Rightarrow> raise ValueError (''chunk metadata '' @ key @ '' must be an integer'')
      | PInt i \<Rightarrow> Inr i
      | PStr s \<Rightarrow>
          (if py_strip s \<noteq> []
           then (case py_int s of
                   Inr i \<Rightarrow> Inr i
                 | Inl _ \<Rightarrow> raise ValueError (''chunk metadata '' @ key @ '' must be an integer''))
           else raise ValueError (''chunk metadata '' @ key @ '' is required''))
      | _ \<Rightarrow> raise ValueError (''chunk metadata '' @ key @ '' is required''))"

definition is_chunk_envelope :: "pydict \<Rightarrow> py_exn + bool" where
  "is_chunk_envelope body =
     (case chunk_meta body of
        Inl e \<Rightarrow> (if is_value_error e then Inr False else Inl e)
      | Inr meta \<Rightarrow> rbind (meta_int meta ''version'') (\<lambda>v. Inr (v = CHUNK_VERSION)))"

section \<open>The reassembler\<close>

definition new_reassembler :: "int \<Rightarrow> py_exn + reassembler" where
  "new_reassembler n =
     (if n < 1 then raise ValueError ''max_pending must be >= 1''
      else Inr \<lparr>max_pending = n, transfers = []\<rparr>)"

definition clear :: "reassembler \<Rightarrow> reassembler" where
  "clear R = R\<lparr>transfers := []\<rparr>"

definition decode_payload_bytes :: "pylib \<Rightarrow> bytes \<Rightarrow> pystr \<Rightarrow> py_exn + bytes" where
  "decode_payload_bytes L payload content_encoding =
     (if content_encoding = lit ''identity'' then Inr payload
      else if content_encoding = lit ''gzip'' then lib_gunzip L payload
      else Inl (Exn ValueError (lit ''unsupported content_encoding: '' @ content_encoding)))"

text \<open>What \<open>push\<close> reads from an envelope before it touches the table.\<close>

record chunk_fields =
  cf_transfer_id :: pystr
  cf_request_id :: pystr
  cf_count :: int
  cf_index :: int
  cf_total_bytes :: int
  cf_sha256 :: pystr
  cf_content_encoding :: pystr
  cf_bytes :: bytes

definition decode_chunk_data :: "pydict \<Rightarrow> py_exn + bytes" where
  "decode_chunk_data body =
     (case dict_get body CHUNK_DATA_KEY (PStr []) of
        PStr encoded \<Rightarrow>
          (case (if \<forall>c \<in> set encoded. c < 128 then b64decode encoded
                 else raise UnicodeEncodeError ''ordinal not in range(128)'') of
             Inr bs \<Rightarrow> Inr bs
           | Inl _ \<Rightarrow> raise ValueError ''invalid base64 chunk data'')
      | _ \<Rightarrow> raise ValueError ''data_b64 must be a base64 string'')"

definition read_chunk :: "pylib \<Rightarrow> pydict \<Rightarrow> py_exn + chunk_fields" where
  "read_chunk L body =
     rbind (chunk_meta body) (\<lambda>meta.
     rbind (meta_int meta ''count'') (\<lambda>chunk_count.
     rbind (meta_int meta ''index'') (\<lambda>chunk_index.
     rbind (meta_int meta ''total_bytes'') (\<lambda>total_bytes.
     if meta_str L meta ''content_type'' CHUNK_CONTENT_TYPE \<noteq> CHUNK_CONTENT_TYPE
     then raise ValueError ''unsupported chunk content_type''
     else if chunk_count < 1 then raise ValueError ''chunk count must be >= 1''
     else if chunk_index < 0 \<or> chunk_count \<le> chunk_index
     then raise ValueError ''chunk index out of range''
     else rbind (decode_chunk_data body) (\<lambda>chunk_bytes.
       Inr \<lparr>cf_transfer_id = meta_str L meta ''transfer_id'' [],
            cf_request_id = meta_str L meta ''request_id'' [],
            cf_count = chunk_count, cf_index = chunk_index, cf_total_bytes = total_bytes,
            cf_sha256 = meta_str L meta ''sha256'' [],
            cf_content_encoding = meta_str L meta ''content_encoding'' (lit ''identity''),
            cf_bytes = chunk_bytes\<rparr>)))))"

definition evict_if_needed :: "reassembler \<Rightarrow> reassembler" where
  "evict_if_needed R = R\<lparr>transfers := evict_oldest (max_pending R) (transfers R)\<rparr>"

definition fresh_transfer :: "chunk_fields \<Rightarrow> pending_transfer" where
  "fresh_transfer c =
     \<lparr>pt_transfer_id = cf_transfer_id c, pt_request_id = cf_request_id c,
      pt_chunk_count = cf_count c, pt_total_bytes = cf_total_bytes c, pt_sha256 = cf_sha256 c,
      pt_content_encoding = cf_content_encoding c, pt_chunks = []\<rparr>"

definition same_metadata :: "pending_transfer \<Rightarrow> chunk_fields \<Rightarrow> bool" where
  "same_metadata st c \<longleftrightarrow>
     pt_request_id st = cf_request_id c \<and> pt_chunk_count st = cf_count c \<and>
     pt_total_bytes st = cf_total_bytes c \<and> pt_sha256 st = cf_sha256 c \<and>
     pt_content_encoding st = cf_content_encoding c"

text \<open>The transfer's entry: created at the newest end, or moved there and checked.\<close>

definition enter_transfer ::
    "chunk_fields \<Rightarrow> reassembler \<Rightarrow> reassembler \<times> (py_exn + pending_transfer)" where
  "enter_transfer c R =
     (case map_of (transfers R) (cf_transfer_id c) of
        None \<Rightarrow>
          (evict_if_needed
             (R\<lparr>transfers := dict_set (cf_transfer_id c) (fresh_transfer c) (transfers R)\<rparr>),
           Inr (fresh_transfer c))
      | Some st \<Rightarrow>
          (R\<lparr>transfers := move_to_end (cf_transfer_id c) (transfers R)\<rparr>,
           if same_metadata st c then Inr st
           else raise ValueError ''inconsistent chunk metadata for transfer''))"

definition add_chunk :: "chunk_fields \<Rightarrow> pending_transfer \<Rightarrow> py_exn + pending_transfer" where
  "add_chunk c st =
     (case map_of (pt_chunks st) (cf_index c) of
        Some prior \<Rightarrow>
          (if prior \<noteq> cf_bytes c then raise ValueError ''conflicting duplicate chunk'' else Inr st)
      | None \<Rightarrow> Inr (st\<lparr>pt_chunks := dict_set (cf_index c) (cf_bytes c) (pt_chunks st)\<rparr>))"

text \<open>\<open>state\<close> is shared with the table: a change to it shows there, if it is still there.\<close>

definition store_transfer :: "pystr \<Rightarrow> pending_transfer \<Rightarrow> reassembler \<Rightarrow> reassembler" where
  "store_transfer tid st R =
     (case map_of (transfers R) tid of
        None \<Rightarrow> R | Some _ \<Rightarrow> R\<lparr>transfers := dict_set tid st (transfers R)\<rparr>)"

definition join_chunks :: "pending_transfer \<Rightarrow> bytes option" where
  "join_chunks st =
     map_option concat (those (map (map_of (pt_chunks st)) [0..pt_chunk_count st - 1]))"

definition finish_transfer ::
    "pylib \<Rightarrow> pending_transfer \<Rightarrow> bytes \<Rightarrow> py_exn + decoded_chunk_message" where
  "finish_transfer L st payload_bytes =
     (if int (length payload_bytes) \<noteq> pt_total_bytes st
      then raise ValueError ''reassembled payload size mismatch''
      else if lib_sha256 L payload_bytes \<noteq> pt_sha256 st
      then raise ValueError ''reassembled payload checksum mismatch''
      else rbind (decode_payload_bytes L payload_bytes (pt_content_encoding st)) (\<lambda>plain.
           rbind (if plain \<noteq> [] then rbind (utf8_decode plain) (lib_loads L) else Inr (PDict []))
             (\<lambda>payload. case payload of
                PDict body \<Rightarrow>
                  Inr \<lparr>dcm_transfer_id = pt_transfer_id st, dcm_request_id = pt_request_id st,
                       dcm_body = body, dcm_chunk_count = pt_chunk_count st,
                       dcm_total_bytes = pt_total_bytes st, dcm_sha256 = pt_sha256 st,
                       dcm_content_encoding = pt_content_encoding st\<rparr>
              | _ \<Rightarrow> raise TypeError ''reassembled payload must decode to a JSON object'')))"

text \<open>
  \<open>ChunkReassembler.push\<close> once the envelope is read.  (\<open>state.transfer_id\<close> is the key it is
  stored under.)
\<close>

definition push_chunk ::
    "pylib \<Rightarrow> chunk_fields \<Rightarrow> reassembler \<Rightarrow>
     reassembler \<times> (py_exn + decoded_chunk_message option)" where
  "push_chunk L c R =
     (case enter_transfer c R of
        (R1, Inl e) \<Rightarrow> (R1, Inl e)
      | (R1, Inr st) \<Rightarrow>
          (case add_chunk c st of
             Inl e \<Rightarrow> (R1, Inl e)
           | Inr st' \<Rightarrow>
               let R2 = store_transfer (cf_transfer_id c) st' R1
               in if int (length (pt_chunks st')) \<noteq> pt_chunk_count st' then (R2, Inr None)
                  else case join_chunks st' of
                         None \<Rightarrow> (R2, raise (OtherException (lit ''KeyError'')) ''chunk index'')
                       | Some payload_bytes \<Rightarrow>
                           (R2\<lparr>transfers := dict_pop (cf_transfer_id c) (transfers R2)\<rparr>,
                            rbind (finish_transfer L st' payload_bytes) (\<lambda>m. Inr (Some m)))))"

definition push ::
    "pylib \<Rightarrow> pydict \<Rightarrow> reassembler \<Rightarrow> reassembler \<times> (py_exn + decoded_chunk_message option)" where
  "push L body R =
     (case read_chunk L body of
        Inl e \<Rightarrow> (R, Inl e)
      | Inr c \<Rightarrow> push_chunk L c R)"

section \<open>The encoder\<close>

definition json_body_bytes :: "pylib \<Rightarrow> pydict \<Rightarrow> py_exn + bytes" where
  "json_body_bytes L payload = rbind (lib_dumps L False True (PDict payload)) utf8_encode"

text \<open>\<open>body: dict | None\<close>: \<open>PNone\<close> is an empty object, anything else is a \<open>TypeError\<close>.\<close>

definition body_payload :: "string \<Rightarrow> pyval \<Rightarrow> py_exn + pydict" where
  "body_payload msg body =
     (case body of PNone \<Rightarrow> Inr [] | PDict d \<Rightarrow> Inr d | _ \<Rightarrow> raise TypeError msg)"

definition estimate_body_wire_bytes :: "pylib \<Rightarrow> pyval \<Rightarrow> py_exn + int" where
  "estimate_body_wire_bytes L body =
     rbind (body_payload ''body must be a dict or None'' body) (\<lambda>payload.
     rbind (json_body_bytes L payload) (\<lambda>bs. Inr (int (length bs))))"

text \<open>\<open>[bs[i:i+n] for i in range(0, len(bs), n)]\<close>, for \<open>n \<ge> 1\<close>\<close>

function slices :: "nat \<Rightarrow> 'a list \<Rightarrow> 'a list list" where
  "slices n bs = (if bs = [] \<or> n = 0 then [] else take n bs # slices n (drop n bs))"
  by pat_completeness auto
termination
  by (relation "measure (\<lambda>(n, bs). length bs)") auto

declare slices.simps [simp del]

definition chunk_metadata ::
    "pystr \<Rightarrow> pystr \<Rightarrow> int \<Rightarrow> int \<Rightarrow> int \<Rightarrow> pystr \<Rightarrow> pystr \<Rightarrow> pydict" where
  "chunk_metadata transfer request_id index chunk_count total_bytes payload_hash content_encoding =
     [(lit ''version'', PInt CHUNK_VERSION),
      (lit ''transfer_id'', PStr transfer),
      (lit ''request_id'', PStr request_id),
      (lit ''index'', PInt index),
      (lit ''count'', PInt chunk_count),
      (lit ''total_bytes'', PInt total_bytes),
      (lit ''sha256'', PStr payload_hash),
      (lit ''content_type'', PStr CHUNK_CONTENT_TYPE),
      (lit ''content_encoding'', PStr content_encoding)]"

definition chunk_body :: "pydict \<Rightarrow> bytes \<Rightarrow> pydict" where
  "chunk_body meta chunk =
     [(CHUNK_MARKER, PDict meta), (CHUNK_DATA_KEY, PStr (b64encode chunk))]"

text \<open>The bytes to send and their \<open>content_encoding\<close>: compressed only if that is shorter.\<close>

definition choose_encoding :: "pylib \<Rightarrow> bool \<Rightarrow> bytes \<Rightarrow> bytes \<times> pystr" where
  "choose_encoding L compress raw =
     (if compress \<and> raw \<noteq> []
      then (let compressed = lib_gzip L raw
            in if length compressed < length raw then (compressed, lit ''gzip'')
               else (raw, lit ''identity''))
      else (raw, lit ''identity''))"

definition split_payload :: "int \<Rightarrow> bytes \<Rightarrow> bytes list" where
  "split_payload chunk_size encoded =
     (let chunks = slices (nat chunk_size) encoded in if chunks = [] then [[]] else chunks)"

definition make_batch ::
    "pylib \<Rightarrow> pystr \<Rightarrow> pystr \<Rightarrow> int \<Rightarrow> bytes \<Rightarrow> pystr \<Rightarrow> encoded_chunk_batch" where
  "make_batch L transfer request_id chunk_size encoded content_encoding =
     (let payload_hash = lib_sha256 L encoded;
          chunks = split_payload chunk_size encoded;
          chunk_count = int (length chunks);
          body_of = (\<lambda>(index, chunk).
            chunk_body (chunk_metadata transfer request_id (int index) chunk_count
                          (int (length encoded)) payload_hash content_encoding) chunk)
      in \<lparr>ecb_transfer_id = transfer, ecb_request_id = request_id, ecb_chunk_count = chunk_count,
          ecb_bodies = map body_of (enumerate 0 chunks)\<rparr>)"

text \<open>
  \<open>fresh_id\<close> is the \<open>uuid4().hex\<close> drawn when the caller gives no \<open>transfer_id\<close> (or an empty one).
\<close>

definition pick_transfer_id :: "pystr \<Rightarrow> pystr option \<Rightarrow> pystr" where
  "pick_transfer_id fresh_id transfer_id =
     (case transfer_id of None \<Rightarrow> fresh_id | Some t \<Rightarrow> if t = [] then fresh_id else t)"

definition encode_chunked_bodies ::
    "pylib \<Rightarrow> pystr \<Rightarrow> pyval \<Rightarrow> pystr \<Rightarrow> int \<Rightarrow> bool \<Rightarrow> pystr option \<Rightarrow>
     py_exn + encoded_chunk_batch" where
  "encode_chunked_bodies L fresh_id body request_id chunk_size compress transfer_id =
     (if chunk_size < 1 then raise ValueError ''chunk_size must be >= 1''
      else rbind (body_payload ''chunked body must be a dict or None'' body) (\<lambda>payload.
      rbind (json_body_bytes L payload) (\<lambda>raw.
      let (encoded, content_encoding) = choose_encoding L compress raw
      in Inr (make_batch L (pick_transfer_id fresh_id transfer_id) request_id chunk_size
                encoded content_encoding))))"

text \<open>Transport ids: \<open>f"{prefix}#chunk:{index + 1}/{chunk_count}"\<close>\<close>

definition chunk_transport_id :: "pystr \<Rightarrow> int \<Rightarrow> nat \<Rightarrow> pystr" where
  "chunk_transport_id prefix chunk_count index =
     prefix @ lit ''#chunk:'' @ show_int (int index + 1) @ lit ''/'' @ show_int chunk_count"

definition make_chunk_transport_request_ids ::
    "pystr \<Rightarrow> pystr \<Rightarrow> int \<Rightarrow> py_exn + pystr list" where
  "make_chunk_transport_request_ids transfer_id request_id chunk_count =
     (if chunk_count < 1 then raise ValueError ''chunk_count must be >= 1''
      else let prefix = (if py_strip request_id \<noteq> [] then py_strip request_id else transfer_id)
           in Inr (map (chunk_transport_id prefix chunk_count) [0..<nat chunk_count]))"

end
