(* ===== verification/ChunkFacts.thy ===== *)
theory ChunkFacts
  imports Chunking
begin

text \<open>
  The reassembler's invariant and its preservation by \<open>push\<close>, the absence of internal errors,
  and the reassembler as an instance of the bounded-table interface.
\<close>

section \<open>The invariant\<close>

definition wf_transfer :: "pystr \<Rightarrow> pending_transfer \<Rightarrow> bool" where
  "wf_transfer tid st \<longleftrightarrow>
     pt_transfer_id st = tid \<and> wf_dict (pt_chunks st) \<and>
     fst ` set (pt_chunks st) \<subseteq> {0..<pt_chunk_count st} \<and>
     int (length (pt_chunks st)) < pt_chunk_count st"

definition wf_reassembler :: "reassembler \<Rightarrow> bool" where
  "wf_reassembler R \<longleftrightarrow>
     1 \<le> max_pending R \<and> wf_dict (transfers R) \<and>
     int (length (transfers R)) \<le> max_pending R \<and>
     (\<forall>tid st. map_of (transfers R) tid = Some st \<longrightarrow> wf_transfer tid st)"

definition wf_fields :: "chunk_fields \<Rightarrow> bool" where
  "wf_fields c \<longleftrightarrow> 0 \<le> cf_index c \<and> cf_index c < cf_count c"

lemma read_chunk_wf: "read_chunk L body = Inr c \<Longrightarrow> wf_fields c"
  by (auto simp: read_chunk_def wf_fields_def rbind_eq_Inr split: if_splits)

lemma dict_set_absent: "k \<notin> fst ` set d \<Longrightarrow> dict_set k v d = d @ [(k, v)]"
  unfolding dict_set_def by (induction d) auto

lemma dict_set_last: "k \<notin> fst ` set d \<Longrightarrow> dict_set k v (d @ [(k, w)]) = d @ [(k, v)]"
  unfolding dict_set_def by (induction d) auto

lemma dict_pop_last: "k \<notin> fst ` set d \<Longrightarrow> dict_pop k (d @ [(k, w)]) = d"
  unfolding dict_pop_def by (induction d) auto

lemma map_fst_dict_pop: "map fst (dict_pop k d) = removeAll k (map fst d)"
  by (simp add: dict_pop_def AList.delete_keys)

lemma keys_dict_set_present: "k \<in> fst ` set d \<Longrightarrow> map fst (dict_set k v d) = map fst d"
  unfolding dict_set_def by (induction d) auto

lemma length_dict_set_present: "k \<in> fst ` set d \<Longrightarrow> length (dict_set k v d) = length d"
  by (simp add: length_dict_set)

lemma wf_reassemblerD:
  assumes "wf_reassembler R"
  shows "1 \<le> max_pending R" "wf_dict (transfers R)" "int (length (transfers R)) \<le> max_pending R"
    "map_of (transfers R) tid = Some st \<Longrightarrow> wf_transfer tid st"
  using assms by (auto simp: wf_reassembler_def)

lemma new_reassembler_wf: "new_reassembler n = Inr R \<Longrightarrow> wf_reassembler R"
  by (auto simp: new_reassembler_def wf_reassembler_def split: if_splits)

section \<open>Steps of a push\<close>

lemma fresh_transfer_wf: "wf_fields c \<Longrightarrow> wf_transfer (cf_transfer_id c) (fresh_transfer c)"
  by (simp add: wf_transfer_def fresh_transfer_def wf_fields_def)

lemma same_metadata_fresh [simp]: "same_metadata (fresh_transfer c) c"
  by (simp add: same_metadata_def fresh_transfer_def)

lemma enter_transfer_new:
  assumes "wf_reassembler R" "map_of (transfers R) (cf_transfer_id c) = None"
  shows "enter_transfer c R =
    (R\<lparr>transfers := evict_oldest (max_pending R) (transfers R @ [(cf_transfer_id c, fresh_transfer c)])\<rparr>,
     Inr (fresh_transfer c))"
proof -
  have "cf_transfer_id c \<notin> fst ` set (transfers R)"
    using assms(2) by (simp add: map_of_eq_None_iff)
  from dict_set_absent [OF this] assms(2) show ?thesis
    by (simp add: enter_transfer_def evict_if_needed_def)
qed

lemma enter_transfer_old:
  assumes "map_of (transfers R) (cf_transfer_id c) = Some st"
  shows "enter_transfer c R =
    (R\<lparr>transfers := move_to_end (cf_transfer_id c) (transfers R)\<rparr>,
     if same_metadata st c then Inr st
     else raise ValueError ''inconsistent chunk metadata for transfer'')"
  using assms by (simp add: enter_transfer_def)

text \<open>After entering, the table is well formed and holds the transfer.\<close>

lemma enter_transfer_wf:
  assumes wf: "wf_reassembler R" and c: "wf_fields c" and e: "enter_transfer c R = (R1, r)"
  shows "wf_reassembler R1" and "max_pending R1 = max_pending R"
    and "r = Inr st \<Longrightarrow> map_of (transfers R1) (cf_transfer_id c) = Some st \<and> same_metadata st c"
proof -
  let ?k = "cf_transfer_id c"
  note wfD = wf_reassemblerD [OF wf]
  have "wf_reassembler R1 \<and> max_pending R1 = max_pending R \<and>
    (r = Inr st \<longrightarrow> map_of (transfers R1) ?k = Some st \<and> same_metadata st c)"
  proof (cases "map_of (transfers R) ?k")
    case None
    let ?d = "transfers R @ [(?k, fresh_transfer c)]"
    have k: "?k \<notin> fst ` set (transfers R)" using None by (simp add: map_of_eq_None_iff)
    then have d: "wf_dict ?d" using wfD(2) by (simp add: wf_dict_def)
    have "wf_transfer tid st'" if "map_of (evict_oldest (max_pending R) ?d) tid = Some st'" for tid st'
      using map_of_evict_oldest [OF d that] wfD(4) fresh_transfer_wf [OF c]
      by (auto simp: map_add_def split: if_splits option.splits)
    then show ?thesis
      using e wfD d map_of_evict_last [OF wfD(2) k wfD(1)] length_evict_oldest [of "max_pending R" ?d]
      unfolding enter_transfer_new [OF wf None] by (auto simp: wf_reassembler_def)
  next
    case (Some st')
    then show ?thesis
      using e wfD unfolding enter_transfer_old [OF Some]
      by (auto simp: wf_reassembler_def split: if_splits)
  qed
  then show "wf_reassembler R1" "max_pending R1 = max_pending R"
    "r = Inr st \<Longrightarrow> map_of (transfers R1) ?k = Some st \<and> same_metadata st c"
    by auto
qed

text \<open>A transfer with one more chunk: well formed unless it is now complete.\<close>

definition wf_collected :: "pystr \<Rightarrow> pending_transfer \<Rightarrow> bool" where
  "wf_collected tid st \<longleftrightarrow>
     pt_transfer_id st = tid \<and> wf_dict (pt_chunks st) \<and>
     fst ` set (pt_chunks st) \<subseteq> {0..<pt_chunk_count st} \<and>
     int (length (pt_chunks st)) \<le> pt_chunk_count st"

lemma add_chunk_wf:
  assumes "wf_transfer tid st" "wf_fields c" "same_metadata st c" "add_chunk c st = Inr st'"
  shows "wf_collected tid st'" and "same_metadata st' c"
    and "map_of (pt_chunks st') = (map_of (pt_chunks st))(cf_index c \<mapsto> cf_bytes c)"
    and "st' = st\<lparr>pt_chunks := pt_chunks st'\<rparr>"
proof -
  have "wf_collected tid st' \<and> same_metadata st' c \<and>
    map_of (pt_chunks st') = (map_of (pt_chunks st))(cf_index c \<mapsto> cf_bytes c) \<and>
    st' = st\<lparr>pt_chunks := pt_chunks st'\<rparr>"
  proof (cases "map_of (pt_chunks st) (cf_index c)")
    case None
    then have "st' = st\<lparr>pt_chunks := dict_set (cf_index c) (cf_bytes c) (pt_chunks st)\<rparr>"
      using assms(4) by (simp add: add_chunk_def)
    with assms(1-3) show ?thesis
      by (simp add: wf_transfer_def wf_collected_def wf_fields_def same_metadata_def
          length_dict_set)
  next
    case (Some prior)
    with assms show ?thesis
      by (auto simp: add_chunk_def wf_transfer_def wf_collected_def fun_upd_idem split: if_splits)
  qed
  then show "wf_collected tid st'" "same_metadata st' c"
    "map_of (pt_chunks st') = (map_of (pt_chunks st))(cf_index c \<mapsto> cf_bytes c)"
    "st' = st\<lparr>pt_chunks := pt_chunks st'\<rparr>"
    by auto
qed

lemma wf_collected_open:
  "wf_collected tid st \<Longrightarrow> int (length (pt_chunks st)) \<noteq> pt_chunk_count st \<Longrightarrow> wf_transfer tid st"
  by (simp add: wf_collected_def wf_transfer_def)

lemma those_map_Some: "\<forall>x \<in> set xs. f x \<noteq> None \<Longrightarrow> those (map f xs) = Some (map (\<lambda>x. the (f x)) xs)"
  by (induction xs) auto

lemma those_map_None: "x \<in> set xs \<Longrightarrow> f x = None \<Longrightarrow> those (map f xs) = None"
  by (induction xs) (auto split: option.splits)

text \<open>With as many chunks as the count says, every index is there: \<open>join_chunks\<close> cannot fail.\<close>

lemma complete_indices:
  assumes "wf_collected tid st" "int (length (pt_chunks st)) = pt_chunk_count st"
  shows "fst ` set (pt_chunks st) = {0..<pt_chunk_count st}"
proof (rule card_subset_eq)
  show "fst ` set (pt_chunks st) \<subseteq> {0..<pt_chunk_count st}"
    using assms by (simp add: wf_collected_def)
  have "card (fst ` set (pt_chunks st)) = length (pt_chunks st)"
    using assms distinct_card [of "map fst (pt_chunks st)"]
    by (simp add: wf_collected_def wf_dict_def)
  with assms(2) show "card (fst ` set (pt_chunks st)) = card {0..<pt_chunk_count st}"
    by simp
qed simp

lemma join_chunks_complete:
  assumes "wf_collected tid st" "int (length (pt_chunks st)) = pt_chunk_count st"
  shows "join_chunks st =
    Some (concat (map (\<lambda>i. the (map_of (pt_chunks st) i)) [0..pt_chunk_count st - 1]))"
proof -
  have "map_of (pt_chunks st) i \<noteq> None" if "i \<in> set [0..pt_chunk_count st - 1]" for i
    using that complete_indices [OF assms] by (simp add: map_of_eq_None_iff)
  then show ?thesis by (simp add: join_chunks_def those_map_Some)
qed

section \<open>The whole push\<close>

text \<open>
  What a push of a readable chunk does, in three cases: it is refused after the entry was touched
  (or created); it is collected and the transfer stays open; it completes the transfer, which
  leaves the table whatever the payload turns out to be.
\<close>

lemma store_transfer_present:
  "map_of (transfers R) tid = Some st \<Longrightarrow>
     store_transfer tid st' R = R\<lparr>transfers := dict_set tid st' (transfers R)\<rparr>"
  by (simp add: store_transfer_def)

lemma push_chunk_cases:
  assumes wf: "wf_reassembler R" and c: "wf_fields c" and e: "enter_transfer c R = (R1, r)"
  obtains
    (refused) err where "push_chunk L c R = (R1, Inl err)"
      "r = Inl err \<or> (\<exists>st. r = Inr st \<and> add_chunk c st = Inl err)"
  | (collected) st st' where "r = Inr st" "add_chunk c st = Inr st'" "wf_transfer (cf_transfer_id c) st'"
      "push_chunk L c R =
         (R1\<lparr>transfers := dict_set (cf_transfer_id c) st' (transfers R1)\<rparr>, Inr None)"
  | (completed) st st' payload where "r = Inr st" "add_chunk c st = Inr st'"
      "int (length (pt_chunks st')) = pt_chunk_count st'" "wf_collected (cf_transfer_id c) st'"
      "join_chunks st' = Some payload"
      "push_chunk L c R =
         (R1\<lparr>transfers := dict_pop (cf_transfer_id c) (dict_set (cf_transfer_id c) st' (transfers R1))\<rparr>,
          rbind (finish_transfer L st' payload) (\<lambda>m. Inr (Some m)))"
proof (cases r)
  case (Inl err)
  then show thesis using e by (intro refused [of err]) (simp_all add: push_chunk_def)
next
  case r: (Inr st)
  note ent = enter_transfer_wf [OF wf c e]
  note st = ent(3) [OF r]
  have wst: "wf_transfer (cf_transfer_id c) st" using wf_reassemblerD(4) [OF ent(1)] st by blast
  show thesis
  proof (cases "add_chunk c st")
    case (Inl err)
    then show thesis using e r by (intro refused [of err]) (simp_all add: push_chunk_def)
  next
    case (Inr st')
    note add = add_chunk_wf [OF wst c conjunct2 [OF st] Inr]
    note store = store_transfer_present [OF conjunct1 [OF st], of st']
    show thesis
    proof (cases "int (length (pt_chunks st')) = pt_chunk_count st'")
      case False
      then show thesis using e r Inr wf_collected_open [OF add(1) False]
        by (intro collected [of st st']) (simp_all add: push_chunk_def store)
    next
      case True
      note join = join_chunks_complete [OF add(1) True]
      show thesis using e r Inr True add(1) join
        by (intro completed [of st st']) (simp_all add: push_chunk_def store)
    qed
  qed
qed

lemma wf_set_transfer:
  assumes "wf_reassembler R" "map_of (transfers R) tid \<noteq> None" "wf_transfer tid st"
  shows "wf_reassembler (R\<lparr>transfers := dict_set tid st (transfers R)\<rparr>)"
  using assms by (auto simp: wf_reassembler_def length_dict_set dest: map_of_key)

lemma wf_pop_transfer:
  assumes "wf_reassembler R"
  shows "wf_reassembler (R\<lparr>transfers := dict_pop tid (transfers R)\<rparr>)"
proof -
  have "int (length (dict_pop tid (transfers R))) \<le> max_pending R"
    using assms by (auto simp: length_dict_pop wf_reassembler_def)
  with assms show ?thesis by (auto simp: wf_reassembler_def split: if_splits)
qed

lemma dict_pop_set [simp]: "dict_pop k (dict_set k v d) = dict_pop k d"
  by (simp add: dict_pop_def dict_set_def AList.delete_update_same)

lemma push_chunk_wf:
  assumes wf: "wf_reassembler R" and c: "wf_fields c"
  shows "wf_reassembler (fst (push_chunk L c R)) \<and>
    max_pending (fst (push_chunk L c R)) = max_pending R"
proof -
  obtain R1 r where e: "enter_transfer c R = (R1, r)" by fastforce
  note ent = enter_transfer_wf [OF wf c e]
  from wf c e show ?thesis
  proof (cases rule: push_chunk_cases [of R c R1 r L])
    case refused
    then show ?thesis using ent by simp
  next
    case (collected st st')
    then show ?thesis using ent wf_set_transfer [OF ent(1)] by simp
  next
    case (completed st st' payload)
    then show ?thesis using ent wf_pop_transfer [OF ent(1)] by simp
  qed
qed

lemma push_wf:
  assumes "wf_reassembler R"
  shows "wf_reassembler (fst (push L body R)) \<and> max_pending (fst (push L body R)) = max_pending R"
  using assms push_chunk_wf [OF assms read_chunk_wf]
  by (cases "read_chunk L body") (auto simp: push_def)

lemma clear_wf [simp]: "wf_reassembler R \<Longrightarrow> wf_reassembler (clear R)"
  by (simp add: clear_def wf_reassembler_def)

lemma max_pending_push [simp]: "max_pending (fst (push L body R)) = max_pending R"
proof -
  have store: "max_pending (store_transfer tid st S) = max_pending S" for tid st S
    by (simp add: store_transfer_def split: option.split)
  have enter: "max_pending (fst (enter_transfer c R)) = max_pending R" for c
    by (simp add: enter_transfer_def evict_if_needed_def split: option.split)
  have "max_pending (fst (push_chunk L c R)) = max_pending R" for c
    using enter [of c] store
    by (auto simp: push_chunk_def Let_def split: prod.split sum.split option.split)
  then show ?thesis by (simp add: push_def split: sum.split)
qed

section \<open>The reassembler as a bounded table\<close>

definition transfer_key :: "pylib \<Rightarrow> pydict \<Rightarrow> pystr" where
  "transfer_key L body = (case read_chunk L body of Inl _ \<Rightarrow> [] | Inr c \<Rightarrow> cf_transfer_id c)"

lemma keys_enter_transfer:
  assumes wf: "wf_reassembler R" and e: "enter_transfer c R = (R1, r)"
  shows "map fst (transfers R1) =
    refresh (nat (max_pending R)) (cf_transfer_id c) (map fst (transfers R))"
proof (cases "map_of (transfers R) (cf_transfer_id c)")
  case None
  then have "cf_transfer_id c \<notin> fst ` set (transfers R)" by (simp add: map_of_eq_None_iff)
  then have "removeAll (cf_transfer_id c) (map fst (transfers R)) = map fst (transfers R)" by simp
  then show ?thesis
    using e wf_reassemblerD(1) [OF wf] unfolding enter_transfer_new [OF wf None]
    by (auto simp: evict_oldest_drop refresh_def drop_map)
next
  case (Some st)
  then have k: "cf_transfer_id c \<in> fst ` set (transfers R)" by (rule map_of_key)
  let ?ks = "map fst (transfers R)"
  have "Suc (length (removeAll (cf_transfer_id c) ?ks)) \<le> length ?ks"
    using k by (metis length_removeAll_less Suc_le_eq image_set)
  then have "refresh (nat (max_pending R)) (cf_transfer_id c) ?ks =
      removeAll (cf_transfer_id c) ?ks @ [cf_transfer_id c]"
    using wf_reassemblerD(1,3) [OF wf] by (simp add: refresh_def nat_le_iff le_nat_iff)
  moreover have "R1 = R\<lparr>transfers := move_to_end (cf_transfer_id c) (transfers R)\<rparr>"
    using e unfolding enter_transfer_old [OF Some] by simp
  ultimately show ?thesis using k by (simp add: keys_move_to_end)
qed

lemma lookup_enter_transfer:
  assumes wf: "wf_reassembler R" and c: "wf_fields c" and e: "enter_transfer c R = (R1, r)"
    and k: "k \<noteq> cf_transfer_id c" "k \<in> fst ` set (transfers R1)"
  shows "map_of (transfers R1) k = map_of (transfers R) k"
proof (cases "map_of (transfers R) (cf_transfer_id c)")
  case None
  let ?d = "transfers R @ [(cf_transfer_id c, fresh_transfer c)]"
  have d: "wf_dict ?d" using None wf_reassemblerD(2) [OF wf]
    by (simp add: wf_dict_def map_of_eq_None_iff)
  have R1: "transfers R1 = evict_oldest (max_pending R) ?d"
    using e unfolding enter_transfer_new [OF wf None] by auto
  obtain st where st: "map_of (transfers R1) k = Some st"
    using k(2) by (metis map_of_eq_None_iff not_None_eq)
  then have "map_of ?d k = Some st" using map_of_evict_oldest [OF d] R1 by metis
  with st k(1) show ?thesis by (simp add: map_add_def split: option.splits)
next
  case (Some st)
  then show ?thesis using e unfolding enter_transfer_old [OF Some] by auto
qed

lemma push_chunk_keys:
  assumes wf: "wf_reassembler R" and c: "wf_fields c"
  defines "ks \<equiv> refresh (nat (max_pending R)) (cf_transfer_id c) (map fst (transfers R))"
  shows "map fst (transfers (fst (push_chunk L c R))) \<in> {ks, removeAll (cf_transfer_id c) ks}"
    and "k \<noteq> cf_transfer_id c \<Longrightarrow> k \<in> fst ` set (transfers (fst (push_chunk L c R))) \<Longrightarrow>
      map_of (transfers (fst (push_chunk L c R))) k = map_of (transfers R) k"
proof -
  obtain R1 r where e: "enter_transfer c R = (R1, r)" by fastforce
  note ent = enter_transfer_wf [OF wf c e]
  note keys = keys_enter_transfer [OF wf e] and look = lookup_enter_transfer [OF wf c e]
  have "map fst (transfers (fst (push_chunk L c R))) \<in> {ks, removeAll (cf_transfer_id c) ks} \<and>
    (k \<noteq> cf_transfer_id c \<longrightarrow> k \<in> fst ` set (transfers (fst (push_chunk L c R))) \<longrightarrow>
      map_of (transfers (fst (push_chunk L c R))) k = map_of (transfers R) k)"
    using wf c e
  proof (cases rule: push_chunk_cases [of R c R1 r L])
    case refused
    then show ?thesis using keys look by (simp add: ks_def)
  next
    case (collected st st')
    have "cf_transfer_id c \<in> fst ` set (transfers R1)"
      using ent(3) [OF collected(1)] by (blast intro: map_of_key)
    with collected(4) show ?thesis
      using keys look by (auto simp: ks_def keys_dict_set_present)
  next
    case (completed st st' payload)
    have "cf_transfer_id c \<in> fst ` set (transfers R1)"
      using ent(3) [OF completed(1)] by (blast intro: map_of_key)
    with completed(6) show ?thesis
      using keys look by (simp add: ks_def map_fst_dict_pop)
  qed
  then show "map fst (transfers (fst (push_chunk L c R))) \<in> {ks, removeAll (cf_transfer_id c) ks}"
    "k \<noteq> cf_transfer_id c \<Longrightarrow> k \<in> fst ` set (transfers (fst (push_chunk L c R))) \<Longrightarrow>
      map_of (transfers (fst (push_chunk L c R))) k = map_of (transfers R) k"
    by blast+
qed

interpretation chunk_table: lru
  "\<lambda>R. map fst (transfers R)" "\<lambda>R. map_of (transfers R)"
  "\<lambda>body R. fst (push L body R)" "transfer_key L" "\<lambda>R. nat (max_pending R)" wf_reassembler
  for L
proof
  fix s a k
  assume wf: "wf_reassembler s"
  show "wf_reassembler (fst (push L a s))" using push_wf [OF wf] by simp
  show "distinct (map fst (transfers s))" using wf by (simp add: wf_reassembler_def wf_dict_def)
  show "length (map fst (transfers s)) \<le> nat (max_pending s)"
    using wf by (simp add: wf_reassembler_def nat_le_iff le_nat_iff)
  show "map fst (transfers (fst (push L a s))) \<in> {map fst (transfers s),
      removeAll (transfer_key L a) (map fst (transfers s)),
      refresh (nat (max_pending s)) (transfer_key L a) (map fst (transfers s)),
      removeAll (transfer_key L a) (refresh (nat (max_pending s)) (transfer_key L a) (map fst (transfers s)))}"
    using push_chunk_keys(1) [OF wf read_chunk_wf, of L a]
    by (cases "read_chunk L a") (auto simp: push_def transfer_key_def)
  show "k \<noteq> transfer_key L a \<Longrightarrow> k \<in> set (map fst (transfers (fst (push L a s)))) \<Longrightarrow>
      map_of (transfers (fst (push L a s))) k = map_of (transfers s) k"
    using push_chunk_keys(2) [OF wf read_chunk_wf, of L a]
    by (cases "read_chunk L a") (auto simp: push_def transfer_key_def)
next
  fix s a
  show "nat (max_pending (fst (push L a s))) = nat (max_pending s)"
    by (simp add: max_pending_push)
qed

end
