(* ===== verification/ChunkRoundtrip.thy ===== *)
theory ChunkRoundtrip
  imports ChunkFacts
begin

text \<open>
  What the encoder and the reassembler do together: the envelopes of one transfer, pushed in any
  order, with repetitions and between the envelopes of other transfers, give back the body that
  was encoded, exactly once and as soon as the last missing one arrives.
\<close>

section \<open>Slices\<close>

lemma slices_Nil [simp]: "slices n [] = []"
  by (simp add: slices.simps)

lemma concat_slices: "0 < n \<Longrightarrow> concat (slices n bs) = bs"
  by (induction n bs rule: slices.induct) (subst slices.simps, simp)

lemma slices_length: "c \<in> set (slices n bs) \<Longrightarrow> c \<noteq> [] \<and> length c \<le> n"
proof (induction n bs rule: slices.induct)
  case (1 n bs)
  show ?case
  proof (cases "bs = [] \<or> n = 0")
    case True
    with "1.prems" show ?thesis by (auto simp: slices.simps [of n bs])
  next
    case False
    then have "c = take n bs \<or> c \<in> set (slices n (drop n bs))"
      using "1.prems" by (auto simp: slices.simps [of n bs])
    with False "1.IH" show ?thesis by auto
  qed
qed

lemma slices_Cons: "bs \<noteq> [] \<Longrightarrow> 0 < n \<Longrightarrow> slices n bs = take n bs # slices n (drop n bs)"
  by (simp add: slices.simps [of n bs])

lemma slices_count: "0 < n \<Longrightarrow> length (slices n bs) = (length bs + n - 1) div n"
proof (induction "length bs" arbitrary: bs rule: less_induct)
  case less
  show ?case
  proof (cases "bs = []")
    case True
    with less.prems show ?thesis by simp
  next
    case ne: False
    have IH: "length (slices n (drop n bs)) = (length (drop n bs) + n - 1) div n"
      using less.prems ne by (intro less.hyps) simp_all
    show ?thesis
    proof (cases "length bs \<le> n")
      case True
      have eq: "length bs + n - 1 = (length bs - 1) + n"
        using ne by (cases bs) simp_all
      have "(length bs - 1) div n = 0" using True ne less.prems by (cases bs) simp_all
      then have "(length bs + n - 1) div n = 1"
        unfolding eq using div_add_self2 [of n "length bs - 1"] less.prems by simp
      with True show ?thesis by (simp add: slices_Cons [OF ne less.prems])
    next
      case False
      then have eq: "length bs + n - 1 = (length (drop n bs) + n - 1) + n" by simp
      have "(length bs + n - 1) div n = Suc ((length (drop n bs) + n - 1) div n)"
        unfolding eq by (subst div_add_self2) (use less.prems in simp_all)
      with IH show ?thesis by (simp add: slices_Cons [OF ne less.prems])
    qed
  qed
qed

section \<open>Reading an envelope the encoder wrote\<close>

lemma read_chunk_body:
  assumes "0 \<le> i" "i < n"
  shows "read_chunk L (chunk_body (chunk_metadata t rid i n tot hash ce) bs) =
    Inr \<lparr>cf_transfer_id = t, cf_request_id = rid, cf_count = n, cf_index = i,
         cf_total_bytes = tot, cf_sha256 = hash, cf_content_encoding = ce, cf_bytes = bs\<rparr>"
proof -
  let ?m = "chunk_metadata t rid i n tot hash ce"
  have meta: "chunk_meta (chunk_body ?m bs) = Inr ?m"
    by (simp add: chunk_meta_def chunk_body_def)
  have ints: "meta_int ?m ''count'' = Inr n" "meta_int ?m ''index'' = Inr i"
    "meta_int ?m ''total_bytes'' = Inr tot"
    by (simp_all add: meta_int_def chunk_metadata_def)
  have strs: "meta_str L ?m ''transfer_id'' d = t" "meta_str L ?m ''request_id'' d = rid"
    "meta_str L ?m ''sha256'' d = hash" "meta_str L ?m ''content_encoding'' d = ce"
    "meta_str L ?m ''content_type'' d = CHUNK_CONTENT_TYPE" for d
    by (simp_all add: meta_str_def chunk_metadata_def)
  have data: "decode_chunk_data (chunk_body ?m bs) = Inr bs"
    by (simp add: decode_chunk_data_def chunk_body_def CHUNK_MARKER_def CHUNK_DATA_KEY_def
        b64encode_ascii)
  show ?thesis
    using assms by (simp add: read_chunk_def meta ints strs data)
qed

lemma is_chunk_envelope_body:
  "is_chunk_envelope (chunk_body (chunk_metadata t rid i n tot hash ce) bs) = Inr True"
  by (simp add: is_chunk_envelope_def chunk_meta_def chunk_body_def meta_int_def
      chunk_metadata_def CHUNK_VERSION_def)

section \<open>Collecting one transfer\<close>

text \<open>
  \<open>c0\<close> holds the metadata of the transfer, \<open>f\<close> the slice at each index; \<open>collecting\<close> says that
  the reassembler holds exactly the slices with indices \<open>S\<close>.
\<close>

definition nth_chunk :: "chunk_fields \<Rightarrow> (int \<Rightarrow> bytes) \<Rightarrow> int \<Rightarrow> chunk_fields" where
  "nth_chunk c0 f i = c0\<lparr>cf_index := i, cf_bytes := f i\<rparr>"

lemma nth_chunk_simps [simp]:
  "cf_transfer_id (nth_chunk c0 f i) = cf_transfer_id c0" "cf_index (nth_chunk c0 f i) = i"
  "cf_count (nth_chunk c0 f i) = cf_count c0" "cf_bytes (nth_chunk c0 f i) = f i"
  "same_metadata st (nth_chunk c0 f i) = same_metadata st c0"
  by (simp_all add: nth_chunk_def same_metadata_def)

definition collecting ::
    "chunk_fields \<Rightarrow> (int \<Rightarrow> bytes) \<Rightarrow> int set \<Rightarrow> reassembler \<Rightarrow> bool" where
  "collecting c0 f S R \<longleftrightarrow>
     (case map_of (transfers R) (cf_transfer_id c0) of
        None \<Rightarrow> S = {}
      | Some st \<Rightarrow> same_metadata st c0 \<and>
          map_of (pt_chunks st) = (\<lambda>i. if i \<in> S then Some (f i) else None))"

lemma collecting_enter:
  assumes wf: "wf_reassembler R" and col: "collecting c0 f S R"
    and e: "enter_transfer (nth_chunk c0 f i) R = (R1, r)"
  obtains st where "r = Inr st" "same_metadata st c0"
    "map_of (pt_chunks st) = (\<lambda>i. if i \<in> S then Some (f i) else None)"
proof (cases "map_of (transfers R) (cf_transfer_id c0)")
  case None
  with col have "S = {}" by (simp add: collecting_def)
  moreover have "r = Inr (fresh_transfer (nth_chunk c0 f i))"
    using e None enter_transfer_new [OF wf, of "nth_chunk c0 f i"] by simp
  moreover have "same_metadata (fresh_transfer (nth_chunk c0 f i)) c0"
    by (metis nth_chunk_simps(5) same_metadata_fresh)
  ultimately show thesis
    using that by (auto simp: fresh_transfer_def)
next
  case (Some st)
  with col e enter_transfer_old [of R "nth_chunk c0 f i" st] show thesis
    using that by (auto simp: collecting_def split: if_splits)
qed

lemma collecting_add:
  assumes "map_of (pt_chunks st) = (\<lambda>i. if i \<in> S then Some (f i) else None)"
  obtains st' where "add_chunk (nth_chunk c0 f i) st = Inr st'"
    "map_of (pt_chunks st') = (\<lambda>j. if j \<in> insert i S then Some (f j) else None)"
    "same_metadata st' c0 = same_metadata st c0"
  using assms that
  by (cases "i \<in> S") (auto simp: add_chunk_def same_metadata_def fun_eq_iff insert_absorb)

lemma collecting_cases:
  assumes wf: "wf_reassembler R" and col: "collecting c0 f S R"
    and i: "0 \<le> i" "i < cf_count c0"
  obtains
    (opened) R1 st' where "wf_reassembler R1" "insert i S \<noteq> {0..<cf_count c0}" "same_metadata st' c0"
      "map_of (pt_chunks st') = (\<lambda>j. if j \<in> insert i S then Some (f j) else None)"
      "cf_transfer_id c0 \<in> fst ` set (transfers R1)"
      "map fst (transfers R1) =
         refresh (nat (max_pending R)) (cf_transfer_id c0) (map fst (transfers R))"
      "push_chunk L (nth_chunk c0 f i) R =
         (R1\<lparr>transfers := dict_set (cf_transfer_id c0) st' (transfers R1)\<rparr>, Inr None)"
  | (finished) R1 st' where "insert i S = {0..<cf_count c0}" "same_metadata st' c0"
      "pt_transfer_id st' = cf_transfer_id c0"
      "push_chunk L (nth_chunk c0 f i) R =
         (R1\<lparr>transfers := dict_pop (cf_transfer_id c0) (transfers R1)\<rparr>,
          rbind (finish_transfer L st' (concat (map f [0..cf_count c0 - 1]))) (\<lambda>m. Inr (Some m)))"
proof -
  let ?c = "nth_chunk c0 f i" and ?full = "{0..<cf_count c0}"
  have c: "wf_fields ?c" using i by (simp add: wf_fields_def)
  obtain R1 r where e: "enter_transfer ?c R = (R1, r)" by fastforce
  note ent = enter_transfer_wf [OF wf c e]
  obtain st where r: "r = Inr st" and sm: "same_metadata st c0"
    and st: "map_of (pt_chunks st) = (\<lambda>i. if i \<in> S then Some (f i) else None)"
    using collecting_enter [OF wf col e] by blast
  obtain st' where add: "add_chunk ?c st = Inr st'"
    and st': "map_of (pt_chunks st') = (\<lambda>j. if j \<in> insert i S then Some (f j) else None)"
    and sm': "same_metadata st' c0"
    using collecting_add [OF st] sm by metis
  have cnt: "pt_chunk_count st' = cf_count c0" using sm' by (simp add: same_metadata_def)
  have dom: "fst ` set (pt_chunks st') = insert i S"
    unfolding dom_map_of_conv_image_fst [symmetric] st' by (auto split: if_splits)
  have in1: "cf_transfer_id c0 \<in> fst ` set (transfers R1)"
    using ent(3) [OF r] by (auto intro: map_of_key)
  from wf c e show thesis
  proof (cases rule: push_chunk_cases [of R ?c R1 r L])
    case (refused err)
    with r add show thesis by simp
  next
    case (collected stx stx')
    then have [simp]: "stx' = st'" using r add by simp
    have "card (insert i S) = length (pt_chunks st')"
      using distinct_card [of "map fst (pt_chunks st')"] collected(3) dom
      by (simp add: wf_transfer_def wf_dict_def)
    moreover have "int (length (pt_chunks st')) < cf_count c0"
      using collected(3) cnt by (simp add: wf_transfer_def)
    ultimately have "insert i S \<noteq> ?full" by auto
    then show thesis
      using opened [OF ent(1) _ sm' st' in1] collected(4) keys_enter_transfer [OF wf e] by simp
  next
    case (completed stx stx' payload)
    then have [simp]: "stx' = st'" using r add by simp
    have full: "insert i S = ?full"
      using complete_indices [OF completed(4)] completed(3) dom cnt by simp
    then have "map (\<lambda>j. the (map_of (pt_chunks st') j)) [0..cf_count c0 - 1] =
        map f [0..cf_count c0 - 1]"
      using st' by (intro map_cong) auto
    with cnt have "payload = concat (map f [0..cf_count c0 - 1])"
      using join_chunks_complete [OF completed(4,3)] completed(5) by (simp del: map_eq_conv)
    then show thesis
      using finished [OF full sm'] completed(4,6) by (simp add: wf_collected_def)
  qed
qed

text \<open>One more slice: the transfer stays open, or is complete and leaves the table.\<close>

lemma collecting_open:
  assumes "wf_reassembler R" "collecting c0 f S R" "0 \<le> i" "i < cf_count c0"
    and "insert i S \<noteq> {0..<cf_count c0}" and "push_chunk L (nth_chunk c0 f i) R = (R', r)"
  shows "r = Inr None" "collecting c0 f (insert i S) R'"
    "cf_transfer_id c0 \<in> fst ` set (transfers R')"
    "map fst (transfers R') = refresh (nat (max_pending R)) (cf_transfer_id c0) (map fst (transfers R))"
proof -
  have "r = Inr None \<and> collecting c0 f (insert i S) R' \<and>
    cf_transfer_id c0 \<in> fst ` set (transfers R') \<and>
    map fst (transfers R') = refresh (nat (max_pending R)) (cf_transfer_id c0) (map fst (transfers R))"
    using assms(1-4)
  proof (cases rule: collecting_cases [where L = L])
    case (opened R1 st')
    then show ?thesis
      using assms(6) keys_dict_set_present [OF opened(5)] by (simp add: collecting_def)
  next
    case finished
    with assms(5) show ?thesis by simp
  qed
  then show "r = Inr None" "collecting c0 f (insert i S) R'"
    "cf_transfer_id c0 \<in> fst ` set (transfers R')"
    "map fst (transfers R') = refresh (nat (max_pending R)) (cf_transfer_id c0) (map fst (transfers R))"
    by blast+
qed

lemma collecting_done:
  assumes "wf_reassembler R" "collecting c0 f S R" "0 \<le> i" "i < cf_count c0"
    and "insert i S = {0..<cf_count c0}" and "push_chunk L (nth_chunk c0 f i) R = (R', r)"
  obtains st where "cf_transfer_id c0 \<notin> fst ` set (transfers R')" "same_metadata st c0"
    "pt_transfer_id st = cf_transfer_id c0"
    "r = rbind (finish_transfer L st (concat (map f [0..cf_count c0 - 1]))) (\<lambda>m. Inr (Some m))"
  using assms
  by (cases rule: collecting_cases [where L = L, OF assms(1-4)]) auto

section \<open>A run of pushes\<close>

text \<open>Pushing one envelope after another, with all the outcomes.\<close>

fun push_all ::
    "pylib \<Rightarrow> pydict list \<Rightarrow> reassembler \<Rightarrow>
     reassembler \<times> (py_exn + decoded_chunk_message option) list" where
  "push_all L [] R = (R, [])"
| "push_all L (b # bs) R =
     (let (R1, r) = push L b R; (R2, rs) = push_all L bs R1 in (R2, r # rs))"

lemma push_all_append:
  "push_all L (as @ bs) R =
     (let (R1, rs) = push_all L as R; (R2, rs') = push_all L bs R1 in (R2, rs @ rs'))"
  by (induction as arbitrary: R) (simp_all add: Let_def split_beta)

lemma push_all_fold: "fst (push_all L bs R) = fold (\<lambda>b R. fst (push L b R)) bs R"
  by (induction bs arbitrary: R) (simp_all add: Let_def split_beta)

lemma length_push_all [simp]: "length (snd (push_all L bs R)) = length bs"
  by (induction bs arbitrary: R) (simp_all add: Let_def split_beta)

lemma push_all_wf: "wf_reassembler R \<Longrightarrow> wf_reassembler (fst (push_all L bs R))"
  by (induction bs arbitrary: R) (auto simp: Let_def split_beta dest: push_wf)

text \<open>
  One transfer among others: \<open>Inl i\<close> is its slice \<open>i\<close>, \<open>Inr b\<close> any envelope of another transfer.
  \<open>tracking\<close> is what holds in between: the slices seen so far are there, and only transfers of
  the set \<open>K\<close> are newer.
\<close>

definition tracking ::
    "chunk_fields \<Rightarrow> (int \<Rightarrow> bytes) \<Rightarrow> int set \<Rightarrow> pystr set \<Rightarrow> reassembler \<Rightarrow> bool" where
  "tracking c0 f S K R \<longleftrightarrow>
     wf_reassembler R \<and> collecting c0 f S R \<and>
     (cf_transfer_id c0 \<in> set (map fst (transfers R)) \<longrightarrow>
        newer (cf_transfer_id c0) (map fst (transfers R)) \<subseteq> K)"

lemma newer_refresh: "0 < cap \<Longrightarrow> newer k (refresh cap k ks) = {}"
proof -
  assume "0 < cap"
  then have "refresh cap k ks = drop (Suc (length (removeAll k ks)) - cap) (removeAll k ks) @ k # []"
    by (simp add: refresh_def)
  moreover have "k \<notin> set (drop n (removeAll k ks))" for n
    by (auto dest: in_set_dropD)
  ultimately show ?thesis by (simp only: newer_split) simp
qed

lemma tracking_own:
  assumes "tracking c0 f S K R" "0 \<le> i" "i < cf_count c0" "insert i S \<noteq> {0..<cf_count c0}"
    and "read_chunk L b = Inr (nth_chunk c0 f i)"
  shows "snd (push L b R) = Inr None \<and> tracking c0 f (insert i S) K (fst (push L b R))"
proof -
  from assms(1) have wf: "wf_reassembler R" and col: "collecting c0 f S R"
    by (simp_all add: tracking_def)
  obtain R' r where p: "push_chunk L (nth_chunk c0 f i) R = (R', r)" by fastforce
  then have b: "push L b R = (R', r)" using assms(5) by (simp add: push_def)
  note own = collecting_open [OF wf col assms(2-4) p]
  have "0 < nat (max_pending R)" using wf_reassemblerD(1) [OF wf] by simp
  then have "newer (cf_transfer_id c0) (map fst (transfers R')) = {}"
    using own(4) newer_refresh by metis
  moreover have "wf_reassembler R'" using push_wf [OF wf, of L b] b by simp
  ultimately show ?thesis using own b by (simp add: tracking_def)
qed

lemma tracking_other:
  assumes t: "tracking c0 f S K R" and k: "transfer_key L b \<noteq> cf_transfer_id c0" "transfer_key L b \<in> K"
    and K: "finite K" "card K < nat (max_pending R)"
  shows "tracking c0 f S K (fst (push L b R))"
proof -
  let ?t = "cf_transfer_id c0" and ?R' = "fst (push L b R)"
  from t have wf: "wf_reassembler R" and col: "collecting c0 f S R" by (simp_all add: tracking_def)
  have wf': "wf_reassembler ?R'" using push_wf [OF wf] by simp
  show ?thesis
  proof (cases "?t \<in> set (map fst (transfers R))")
    case True
    then have new: "newer ?t (map fst (transfers R)) \<subseteq> K" using t by (simp add: tracking_def)
    then have "card (insert (transfer_key L b) (newer ?t (map fst (transfers R)))) \<le> card K"
      using k(2) K(1) by (intro card_mono) auto
    then have "?t \<in> set (map fst (transfers ?R'))"
      and "newer ?t (map fst (transfers ?R')) \<subseteq> K"
      using chunk_table.keep_step [OF wf True, of L b] k new K(2) by auto
    moreover from this(1) have "map_of (transfers ?R') ?t = map_of (transfers R) ?t"
      using chunk_table.lookup_step [OF wf, of ?t L b] k(1) by simp
    ultimately show ?thesis using wf' col by (simp add: tracking_def collecting_def)
  next
    case False
    have "?t \<notin> set (refresh n (transfer_key L b) (map fst (transfers R)))" for n
      using False k(1) by (auto simp: refresh_def Let_def dest: in_set_dropD)
    then have "?t \<notin> set (map fst (transfers ?R'))"
      using chunk_table.keys_step [OF wf, of L b] False
      by (elim insertE emptyE) (simp_all only: set_removeAll, simp_all)
    then have "map_of (transfers ?R') ?t = None" "map_of (transfers R) ?t = None"
      using False by (simp_all add: map_of_eq_None_iff)
    with wf' col \<open>?t \<notin> set (map fst (transfers ?R'))\<close> show ?thesis
      by (simp add: tracking_def collecting_def)
  qed
qed

text \<open>The envelope of one operation of a run.\<close>

definition op_body :: "(int \<Rightarrow> pydict) \<Rightarrow> int + pydict \<Rightarrow> pydict" where
  "op_body own x = (case x of Inl i \<Rightarrow> own i | Inr b \<Rightarrow> b)"

lemma tracking_run:
  assumes "tracking c0 f S K R" "finite K" "card K < nat (max_pending R)"
    and own: "\<And>i. 0 \<le> i \<Longrightarrow> i < cf_count c0 \<Longrightarrow> read_chunk L (own i) = Inr (nth_chunk c0 f i)"
    and "\<And>i. Inl i \<in> set ops \<Longrightarrow> 0 \<le> i \<and> i < cf_count c0"
    and "\<And>b. Inr b \<in> set ops \<Longrightarrow> transfer_key L b \<noteq> cf_transfer_id c0 \<and> transfer_key L b \<in> K"
    and k: "0 \<le> k" "k < cf_count c0" and "k \<notin> S" "Inl k \<notin> set ops"
  shows "tracking c0 f (S \<union> {i. Inl i \<in> set ops}) K (fst (push_all L (map (op_body own) ops) R)) \<and>
    (\<forall>j < length ops. isl (ops ! j) \<longrightarrow> snd (push_all L (map (op_body own) ops) R) ! j = Inr None)"
  using assms(1,3,5,6,9,10)
proof (induction ops arbitrary: S R)
  case (Cons x ops)
  obtain R1 r where p: "push L (op_body own x) R = (R1, r)" by fastforce
  define S1 where "S1 = (case x of Inl i \<Rightarrow> insert i S | Inr _ \<Rightarrow> S)"
  have S1: "k \<notin> S1" "S1 \<union> {i. Inl i \<in> set ops} = S \<union> {i. Inl i \<in> set (x # ops)}"
    using Cons.prems(5,6) by (auto simp: S1_def split: sum.splits)
  have step: "tracking c0 f S1 K R1 \<and> (isl x \<longrightarrow> r = Inr None)"
  proof (cases x)
    case (Inl i)
    then have i: "0 \<le> i" "i < cf_count c0" using Cons.prems(3) [of i] by simp_all
    have "k \<notin> insert i S" "k \<in> {0..<cf_count c0}" using k S1(1) Inl by (simp_all add: S1_def)
    then have "insert i S \<noteq> {0..<cf_count c0}" by metis
    from tracking_own [OF Cons.prems(1) i this own [OF i]] p Inl
    show ?thesis by (simp add: S1_def op_body_def)
  next
    case (Inr b)
    with tracking_other [OF Cons.prems(1), of L b] Cons.prems(4) [of b] assms(2) Cons.prems(2) p
    show ?thesis by (simp add: S1_def op_body_def)
  qed
  have "max_pending R1 = max_pending R" using max_pending_push [of L "op_body own x" R] p by simp
  then have card: "card K < nat (max_pending R1)" using Cons.prems(2) by simp
  have ops: "\<And>i. Inl i \<in> set ops \<Longrightarrow> 0 \<le> i \<and> i < cf_count c0"
    "\<And>b. Inr b \<in> set ops \<Longrightarrow> transfer_key L b \<noteq> cf_transfer_id c0 \<and> transfer_key L b \<in> K"
    "Inl k \<notin> set ops"
    using Cons.prems(3,4,6) by simp_all
  note IH' = Cons.IH [OF conjunct1 [OF step] card ops(1,2) S1(1) ops(3)]
  have IH: "tracking c0 f (S1 \<union> {i. Inl i \<in> set ops}) K (fst (push_all L (map (op_body own) ops) R1))"
    "\<forall>j < length ops. isl (ops ! j) \<longrightarrow> snd (push_all L (map (op_body own) ops) R1) ! j = Inr None"
    using IH' by blast+
  have "snd (push_all L (map (op_body own) (x # ops)) R) ! j = Inr None"
    if "j < length (x # ops)" "isl ((x # ops) ! j)" for j
    using that IH(2) step p by (cases j) (auto simp: Let_def split_beta)
  with IH(1) S1(2) p show ?case by (simp add: Let_def split_beta)
qed simp

text \<open>
  The last missing slice delivers: after a run that misses only slice \<open>k\<close>, pushing it gives the
  outcome of \<open>finish_transfer\<close> on the concatenated slices, and the transfer is gone.
\<close>

lemma tracking_last:
  assumes t: "tracking c0 f ({0..<cf_count c0} - {k}) K R" and k: "0 \<le> k" "k < cf_count c0"
    and b: "read_chunk L b = Inr (nth_chunk c0 f k)"
  obtains st where "cf_transfer_id c0 \<notin> fst ` set (transfers (fst (push L b R)))"
    "same_metadata st c0" "pt_transfer_id st = cf_transfer_id c0"
    "snd (push L b R) =
      rbind (finish_transfer L st (concat (map f [0..cf_count c0 - 1]))) (\<lambda>m. Inr (Some m))"
proof -
  obtain R' r where p: "push_chunk L (nth_chunk c0 f k) R = (R', r)" by fastforce
  have "insert k ({0..<cf_count c0} - {k}) = {0..<cf_count c0}" using k by auto
  from collecting_done [OF _ _ k this p] t that p b show thesis
    unfolding tracking_def push_def by auto
qed

section \<open>Encoding and reassembling\<close>

text \<open>
  What the JSON codec guarantees for the object \<open>d\<close> (it has no value outside JSON): its text is not
  empty and parses back to it.
\<close>

definition json_faithful :: "pylib \<Rightarrow> pydict \<Rightarrow> bool" where
  "json_faithful L d \<longleftrightarrow>
     (case lib_dumps L False True (PDict d) of
        Inl _ \<Rightarrow> False
      | Inr text \<Rightarrow> text \<noteq> [] \<and> lib_loads L text = Inr (PDict d))"

lemma utf8_encode_Nil_iff: "utf8_encode s = Inr [] \<Longrightarrow> s = []"
  by (cases s) (auto simp: rbind_eq_Inr dest: utf8_char_not_Nil split: option.splits)

lemma json_faithful_bytes:
  assumes "json_faithful L d" "json_body_bytes L d = Inr raw"
  shows "raw \<noteq> []" and "rbind (utf8_decode raw) (lib_loads L) = Inr (PDict d)"
proof -
  obtain tx where js: "lib_dumps L False True (PDict d) = Inr tx" "tx \<noteq> []"
    "lib_loads L tx = Inr (PDict d)" and enc: "utf8_encode tx = Inr raw"
    using assms by (auto simp: json_faithful_def json_body_bytes_def rbind_eq_Inr split: sum.splits)
  show "raw \<noteq> []" using enc js(2) utf8_encode_Nil_iff by blast
  show "rbind (utf8_decode raw) (lib_loads L) = Inr (PDict d)"
    by (simp add: utf8.dec_enc [OF enc] js(3))
qed

lemma split_payload_simps:
  assumes "1 \<le> n"
  shows "concat (split_payload n bs) = bs" "split_payload n bs \<noteq> []"
    "c \<in> set (split_payload n bs) \<Longrightarrow> int (length c) \<le> n"
  using assms slices_length [of c "nat n" bs] concat_slices [of "nat n" bs]
  by (auto simp: split_payload_def Let_def nat_le_iff le_nat_iff split: if_splits)

lemma choose_encoding_cases:
  assumes "choose_encoding L compress raw = (encoded, ce)"
  shows "(ce = lit ''identity'' \<and> encoded = raw) \<or> (ce = lit ''gzip'' \<and> encoded = lib_gzip L raw)"
  using assms by (auto simp: choose_encoding_def Let_def split: if_splits)

lemma encode_chunked_bodiesD:
  assumes "encode_chunked_bodies L fresh (PDict d) rid n compress tid = Inr batch"
  obtains raw encoded ce where "1 \<le> n" "json_body_bytes L d = Inr raw"
    "choose_encoding L compress raw = (encoded, ce)"
    "batch = make_batch L (pick_transfer_id fresh tid) rid n encoded ce"
proof (cases "json_body_bytes L d")
  case (Inl e)
  with assms show thesis by (simp add: encode_chunked_bodies_def body_payload_def split: if_splits)
next
  case (Inr raw)
  obtain encoded ce where ch: "choose_encoding L compress raw = (encoded, ce)" by fastforce
  with assms Inr have "1 \<le> n" "batch = make_batch L (pick_transfer_id fresh tid) rid n encoded ce"
    by (simp_all add: encode_chunked_bodies_def body_payload_def split: if_splits)
  with that Inr ch show thesis by blast
qed

lemma make_batch_simps:
  "ecb_transfer_id (make_batch L t rid n encoded ce) = t"
  "ecb_request_id (make_batch L t rid n encoded ce) = rid"
  "ecb_chunk_count (make_batch L t rid n encoded ce) = int (length (split_payload n encoded))"
  "length (ecb_bodies (make_batch L t rid n encoded ce)) = length (split_payload n encoded)"
  by (simp_all add: make_batch_def Let_def)

lemma make_batch_nth:
  assumes "i < length (split_payload n encoded)"
  shows "ecb_bodies (make_batch L t rid n encoded ce) ! i =
    chunk_body (chunk_metadata t rid (int i) (int (length (split_payload n encoded)))
      (int (length encoded)) (lib_sha256 L encoded) ce) (split_payload n encoded ! i)"
  using assms by (simp add: make_batch_def Let_def nth_enumerate_eq)

lemma finish_transfer_encoded:
  assumes "json_faithful L d" "json_body_bytes L d = Inr raw"
    and "choose_encoding L compress raw = (encoded, ce)"
    and "\<And>x. lib_gunzip L (lib_gzip L x) = Inr x"
    and "pt_total_bytes st = int (length encoded)" "pt_sha256 st = lib_sha256 L encoded"
    "pt_content_encoding st = ce"
  shows "finish_transfer L st encoded =
    Inr \<lparr>dcm_transfer_id = pt_transfer_id st, dcm_request_id = pt_request_id st, dcm_body = d,
         dcm_chunk_count = pt_chunk_count st, dcm_total_bytes = int (length encoded),
         dcm_sha256 = lib_sha256 L encoded, dcm_content_encoding = ce\<rparr>"
proof -
  have "decode_payload_bytes L encoded ce = Inr raw"
    using choose_encoding_cases [OF assms(3)] assms(4) by (auto simp: decode_payload_bytes_def)
  then show ?thesis
    using json_faithful_bytes [OF assms(1,2)] assms(5-7) by (simp add: finish_transfer_def)
qed

text \<open>The message the receiver must get for a batch.\<close>

definition batch_message :: "encoded_chunk_batch \<Rightarrow> pydict \<Rightarrow> decoded_chunk_message \<Rightarrow> bool" where
  "batch_message batch d m \<longleftrightarrow>
     dcm_body m = d \<and> dcm_transfer_id m = ecb_transfer_id batch \<and>
     dcm_request_id m = ecb_request_id batch \<and> dcm_chunk_count m = ecb_chunk_count batch"

text \<open>The metadata all the envelopes of a batch share, and the slice each carries.\<close>

definition batch_fields :: "pylib \<Rightarrow> encoded_chunk_batch \<Rightarrow> bytes \<Rightarrow> pystr \<Rightarrow> chunk_fields" where
  "batch_fields L batch encoded ce =
     \<lparr>cf_transfer_id = ecb_transfer_id batch, cf_request_id = ecb_request_id batch,
      cf_count = ecb_chunk_count batch, cf_index = 0, cf_total_bytes = int (length encoded),
      cf_sha256 = lib_sha256 L encoded, cf_content_encoding = ce, cf_bytes = []\<rparr>"

lemma batch_fields_simps [simp]:
  "cf_transfer_id (batch_fields L batch encoded ce) = ecb_transfer_id batch"
  "cf_count (batch_fields L batch encoded ce) = ecb_chunk_count batch"
  by (simp_all add: batch_fields_def)

lemma read_own_chunk:
  assumes "batch = make_batch L t rid n encoded ce" "0 \<le> i" "i < ecb_chunk_count batch"
  shows "read_chunk L (ecb_bodies batch ! nat i) =
    Inr (nth_chunk (batch_fields L batch encoded ce) (\<lambda>i. split_payload n encoded ! nat i) i)"
proof -
  have "nat i < length (split_payload n encoded)"
    using assms by (simp add: make_batch_simps)
  from make_batch_nth [OF this] assms show ?thesis
    by (simp add: read_chunk_body nth_chunk_def batch_fields_def make_batch_simps)
qed

lemma concat_upto_nth: "concat (map (\<lambda>i. cs ! nat i) [0..int (length cs) - 1]) = concat cs"
proof -
  have "[0..int (length cs) - 1] = map int [0..<length cs]"
    by (rule nth_equalityI) simp_all
  then have "map (\<lambda>i. cs ! nat i) [0..int (length cs) - 1] = map ((!) cs) [0..<length cs]"
    by (simp add: comp_def)
  then show ?thesis by (simp add: map_nth)
qed

lemma tracking_start:
  assumes "wf_reassembler R" "cf_transfer_id c0 \<notin> fst ` set (transfers R)"
  shows "tracking c0 f {} K R"
proof -
  have "map_of (transfers R) (cf_transfer_id c0) = None"
    using assms(2) by (simp add: map_of_eq_None_iff)
  with assms show ?thesis by (simp add: tracking_def collecting_def)
qed

lemma finish_batch:
  assumes "json_faithful L d" "json_body_bytes L d = Inr raw"
    and "choose_encoding L compress raw = (encoded, ce)"
    and "\<And>x. lib_gunzip L (lib_gzip L x) = Inr x"
    and st: "same_metadata st (batch_fields L batch encoded ce)" "pt_transfer_id st = ecb_transfer_id batch"
  shows "\<exists>m. finish_transfer L st encoded = Inr m \<and> batch_message batch d m"
  using finish_transfer_encoded [OF assms(1-4), of st] st
  by (simp add: same_metadata_def batch_fields_def batch_message_def)

lemma reassemble_batch:
  assumes wf: "wf_reassembler R"
    and enc: "encode_chunked_bodies L fresh (PDict d) rid n compress tid = Inr batch"
    and json: "json_faithful L d" and gz: "\<And>x. lib_gunzip L (lib_gzip L x) = Inr x"
    and new: "ecb_transfer_id batch \<notin> fst ` set (transfers R)"
    and k: "0 \<le> k" "k < ecb_chunk_count batch"
    and own_ops: "{i. Inl i \<in> set ops} = {0..<ecb_chunk_count batch} - {k}"
    and other_ops: "\<And>b. Inr b \<in> set ops \<Longrightarrow> transfer_key L b \<noteq> ecb_transfer_id batch"
    and room: "card (transfer_key L ` {b. Inr b \<in> set ops}) < nat (max_pending R)"
  defines "own \<equiv> \<lambda>i. ecb_bodies batch ! nat i"
  defines "R1 \<equiv> fst (push_all L (map (op_body own) ops) R)"
  shows "\<forall>j < length ops. isl (ops ! j) \<longrightarrow> snd (push_all L (map (op_body own) ops) R) ! j = Inr None"
    and "\<exists>m. snd (push L (own k) R1) = Inr (Some m) \<and> batch_message batch d m"
    and "ecb_transfer_id batch \<notin> fst ` set (transfers (fst (push L (own k) R1)))"
proof -
  obtain raw encoded ce where e: "1 \<le> n" "json_body_bytes L d = Inr raw"
      "choose_encoding L compress raw = (encoded, ce)"
    and batch: "batch = make_batch L (pick_transfer_id fresh tid) rid n encoded ce"
    using encode_chunked_bodiesD [OF enc] by blast
  define cs where "cs = split_payload n encoded"
  let ?c0 = "batch_fields L batch encoded ce" and ?f = "\<lambda>i. cs ! nat i"
  let ?K = "transfer_key L ` {b. Inr b \<in> set ops}"
  have own: "read_chunk L (own i) = Inr (nth_chunk ?c0 ?f i)" if "0 \<le> i" "i < cf_count ?c0" for i
    using read_own_chunk [OF batch] that by (simp add: own_def cs_def)
  have "{b. Inr b \<in> set ops} \<subseteq> projr ` set ops" by force
  then have fin: "finite ?K" by (intro finite_imageI) (rule finite_subset, auto)
  have mem: "Inl i \<in> set ops \<longleftrightarrow> 0 \<le> i \<and> i < ecb_chunk_count batch \<and> i \<noteq> k" for i
    using own_ops by (simp add: set_eq_iff)
  have ops: "\<And>i. Inl i \<in> set ops \<Longrightarrow> 0 \<le> i \<and> i < cf_count ?c0" "Inl k \<notin> set ops"
    by (simp_all add: mem)
  have others: "\<And>b. Inr b \<in> set ops \<Longrightarrow> transfer_key L b \<noteq> cf_transfer_id ?c0 \<and> transfer_key L b \<in> ?K"
    using other_ops by auto
  have k': "0 \<le> k" "k < cf_count ?c0" using k by simp_all
  have "tracking ?c0 ?f {} ?K R" using wf new by (intro tracking_start) simp_all
  from tracking_run [OF this fin room own ops(1) others k' _ ops(2)]
  have run: "tracking ?c0 ?f ({0..<cf_count ?c0} - {k}) ?K R1"
    "\<forall>j < length ops. isl (ops ! j) \<longrightarrow> snd (push_all L (map (op_body own) ops) R) ! j = Inr None"
    using own_ops by (simp_all add: R1_def)
  show "\<forall>j < length ops. isl (ops ! j) \<longrightarrow> snd (push_all L (map (op_body own) ops) R) ! j = Inr None"
    by (rule run(2))
  obtain st where st: "cf_transfer_id ?c0 \<notin> fst ` set (transfers (fst (push L (own k) R1)))"
    "same_metadata st ?c0" "pt_transfer_id st = cf_transfer_id ?c0"
    "snd (push L (own k) R1) =
      rbind (finish_transfer L st (concat (map ?f [0..cf_count ?c0 - 1]))) (\<lambda>m. Inr (Some m))"
    using tracking_last [OF run(1) k' own [OF k']] by blast
  have "concat (map ?f [0..cf_count ?c0 - 1]) = encoded"
    using concat_upto_nth [of cs] split_payload_simps(1) [OF e(1), of encoded]
    by (simp add: batch make_batch_simps cs_def)
  with st finish_batch [OF json e(2,3) gz st(2)]
  show "\<exists>m. snd (push L (own k) R1) = Inr (Some m) \<and> batch_message batch d m"
    and "ecb_transfer_id batch \<notin> fst ` set (transfers (fst (push L (own k) R1)))"
    by auto
qed

text \<open>How many envelopes there are, and what reading one of them gives.\<close>

lemma length_split_payload:
  assumes "1 \<le> n"
  shows "int (length (split_payload n encoded)) = max 1 ((int (length encoded) + n - 1) div n)"
proof -
  have "int (length (slices (nat n) encoded)) = (int (length encoded) + n - 1) div n"
    using assms slices_count [of "nat n" encoded] by (simp add: zdiv_int of_nat_diff)
  moreover have "slices (nat n) encoded = [] \<longleftrightarrow> encoded = []"
    using assms by (auto simp: slices.simps [of "nat n" encoded])
  ultimately show ?thesis
    using assms by (cases "slices (nat n) encoded") (auto simp: split_payload_def Let_def)
qed

lemma envelope_of_batch:
  assumes "1 \<le> n" "i < length (split_payload n encoded)"
  shows "is_chunk_envelope (ecb_bodies (make_batch L tid rid n encoded ce) ! i) = Inr True \<and>
    (\<exists>c. read_chunk L (ecb_bodies (make_batch L tid rid n encoded ce) ! i) = Inr c \<and> cf_index c = int i \<and>
       cf_count c = int (length (split_payload n encoded)) \<and> cf_transfer_id c = tid \<and>
       cf_request_id c = rid \<and> int (length (cf_bytes c)) \<le> n \<and> cf_total_bytes c = int (length encoded))"
proof -
  have "int (length (split_payload n encoded ! i)) \<le> n"
    using split_payload_simps(3) [OF assms(1)] nth_mem [OF assms(2)] by blast
  with make_batch_nth [OF assms(2)] assms(2) show ?thesis
    by (simp add: is_chunk_envelope_body read_chunk_body)
qed

end
