(* ===== verification/StdLib.thy ===== *)
theory StdLib
  imports Sha256 ChunkRoundtrip
begin

text \<open>
  The library parameters instantiated with Python's own text codec and hash (\<open>Json\<close>, \<open>Sha256\<close>); the texts
  of floats, \<open>repr\<close> and gzip remain parameters. What the components ask of their library is proved for it.
\<close>

definition std_lib ::
    "float_text \<Rightarrow> (pyval \<Rightarrow> pystr) \<Rightarrow> (bytes \<Rightarrow> bytes) \<Rightarrow> (bytes \<Rightarrow> py_exn + bytes) \<Rightarrow> pylib" where
  "std_lib FT rp gz gunz =
     \<lparr>lib_repr = rp, lib_sha256 = sha256_hex, lib_gzip = gz, lib_gunzip = gunz,
      lib_dumps = json_dumps FT, lib_loads = json_loads FT\<rparr>"

lemma std_lib_simps [simp]:
  "lib_repr (std_lib FT rp gz gunz) = rp" "lib_sha256 (std_lib FT rp gz gunz) = sha256_hex"
  "lib_gzip (std_lib FT rp gz gunz) = gz" "lib_gunzip (std_lib FT rp gz gunz) = gunz"
  "lib_dumps (std_lib FT rp gz gunz) = json_dumps FT" "lib_loads (std_lib FT rp gz gunz) = json_loads FT"
  by (simp_all add: std_lib_def)

lemma std_lib_json_faithful:
  assumes "json_body_bytes (std_lib FT rp gz gunz) d = Inr raw" "json_ok FT False (PDict d)"
  shows "json_faithful (std_lib FT rp gz gunz) d"
proof -
  obtain t where "json_dumps FT False True (PDict d) = Inr t"
    using assms(1) by (auto simp: json_body_bytes_def rbind_eq_Inr)
  with assms(2) json_loads_dumps json_dumps_not_Nil show ?thesis
    by (fastforce simp: json_faithful_def)
qed

lemma std_lib_encoded_faithful:
  assumes "encode_chunked_bodies (std_lib FT rp gz gunz) fresh (PDict d) rid n compress tid = Inr batch"
    and "json_ok FT False (PDict d)"
  shows "json_faithful (std_lib FT rp gz gunz) d"
proof -
  obtain raw where "json_body_bytes (std_lib FT rp gz gunz) d = Inr raw"
    using assms(1) by (cases "json_body_bytes (std_lib FT rp gz gunz) d")
      (auto simp: encode_chunked_bodies_def body_payload_def split: if_splits)
  from std_lib_json_faithful [OF this assms(2)] show ?thesis .
qed

lemma std_loads_dumps:
  assumes "dumps_message (std_lib FT rp gz gunz) m ea = Inr t" "json_ok FT ea (PDict m)"
  shows "loads_message (std_lib FT rp gz gunz) t = Inr (PDict m)"
  using assms json_loads_dumps by (simp add: dumps_message_def loads_message_def)

section \<open>A concrete instance\<close>

text \<open>For the witnesses: one float text, the identity as compressor.\<close>

definition sample_floats :: float_text where
  "sample_floats = \<lparr>fl_repr = (\<lambda>_. lit ''0.5''), fl_parse = (\<lambda>_. FFin 1 (- 1))\<rparr>"

definition std_sample :: pylib where
  "std_sample = std_lib sample_floats (\<lambda>_. lit ''?'') (\<lambda>bs. bs) Inr"

lemma show_nat_digit [simp]: "n < 10 \<Longrightarrow> show_nat n = [48 + n]"
  by (simp add: show_nat.simps)

lemma std_sample_dumps_body:
  "lib_dumps std_sample ea True (PDict [(lit ''a'', PInt 1)]) = Inr [123, 34, 97, 34, 58, 49, 125]"
  by (simp add: std_sample_def json_dumps_def dump_int_def show_int_def max_str_digits_def dump_string_def
      escape_string_def escape_char_def key_sep_def lit_Cons)

lemma std_sample_gunzip [simp]: "lib_gunzip std_sample (lib_gzip std_sample x) = Inr x"
  by (simp add: std_sample_def)

definition std_body_bytes :: bytes where
  "std_body_bytes = [123, 34, 97, 34, 58, 49, 125]"

lemma std_sample_encoded:
  "encode_chunked_bodies std_sample fresh (PDict [(lit ''a'', PInt 1)]) rid 4 False None =
    Inr (make_batch std_sample fresh rid 4 std_body_bytes (lit ''identity''))"
proof -
  have "utf8_encode [123, 34, 97, 34, 58, 49, 125] = Inr std_body_bytes"
    unfolding std_body_bytes_def by (subst utf8_encode_ascii) simp_all
  then have "json_body_bytes std_sample [(lit ''a'', PInt 1)] = Inr std_body_bytes"
    by (simp add: json_body_bytes_def std_sample_dumps_body)
  then show ?thesis
    by (simp add: encode_chunked_bodies_def body_payload_def choose_encoding_def pick_transfer_id_def)
qed

lemma std_sample_count: "length (split_payload 4 std_body_bytes) = 2"
  by (simp add: split_payload_def slices.simps std_body_bytes_def)

lemma sample_json_ok: "json_ok FT ea (PDict [(lit ''a'', PInt 1)])"
  by (simp add: wf_dict_def char_ok_def surrogate_def lit_Cons)

end
