(* ===== verification/Samples.thy ===== *)
theory Samples
  imports ChunkFacts
begin

text \<open>
  A concrete instance of the library parameters for the witnesses: a checksum that adds up the
  bytes, the identity as compressor, and a JSON codec for two objects.  It satisfies the laws the properties ask for.
\<close>

definition sample_body :: pydict where
  "sample_body = [(lit ''a'', PInt 1)]"

definition sample_dumps :: "bool \<Rightarrow> bool \<Rightarrow> pyval \<Rightarrow> py_exn + pystr" where
  "sample_dumps ensure_ascii compact v =
     (if v = PDict [] then Inr (lit ''{}'')
      else if v = PDict sample_body then Inr (lit ''{+a+:1}'')
      else raise TypeError ''not in the sample'')"

definition sample_loads :: "pystr \<Rightarrow> py_exn + pyval" where
  "sample_loads s =
     (if s = lit ''{}'' then Inr (PDict [])
      else if s = lit ''{+a+:1}'' then Inr (PDict sample_body)
      else raise JSONDecodeError ''not in the sample'')"

definition sample_lib :: pylib where
  "sample_lib =
     \<lparr>lib_repr = (\<lambda>_. lit ''?''),
      lib_sha256 = (\<lambda>bs. show_nat (sum_list (map unat bs))),
      lib_gzip = (\<lambda>bs. bs), lib_gunzip = Inr,
      lib_dumps = sample_dumps, lib_loads = sample_loads\<rparr>"

lemma sample_lib_simps [simp]:
  "lib_gzip sample_lib bs = bs" "lib_gunzip sample_lib bs = Inr bs"
  "lib_dumps sample_lib = sample_dumps" "lib_loads sample_lib = sample_loads"
  by (simp_all add: sample_lib_def)

text \<open>A table with one transfer of two slices, none of them there yet.\<close>

definition sample_transfer :: pending_transfer where
  "sample_transfer =
     \<lparr>pt_transfer_id = lit ''t0'', pt_request_id = lit ''job'', pt_chunk_count = 2, pt_total_bytes = 3,
      pt_sha256 = [], pt_content_encoding = lit ''identity'', pt_chunks = []\<rparr>"

definition sample_table :: reassembler where
  "sample_table = \<lparr>max_pending = 2, transfers = [(lit ''t0'', sample_transfer)]\<rparr>"

lemma sample_table_wf: "wf_reassembler sample_table"
  by (simp add: wf_reassembler_def wf_dict_def wf_transfer_def sample_table_def sample_transfer_def)

lemma sample_table_lookup: "map_of (transfers sample_table) (lit ''t0'') = Some sample_transfer"
  by (simp add: sample_table_def)

lemma read_chunk_empty: "read_chunk L [] = raise ValueError ''missing chunk metadata''"
  by (simp add: read_chunk_def chunk_meta_def)

lemma push_empty: "push L [] R = (R, raise ValueError ''missing chunk metadata'')"
  by (simp add: push_def read_chunk_empty raise_def)

lemma transfer_key_empty: "transfer_key L [] = []"
  by (simp add: transfer_key_def read_chunk_empty raise_def)

end
