(* ===== verification/WireProps.thy ===== *)
theory WireProps
  imports Wire StdLib Samples
begin

text \<open>The properties of the wire format (\<open>fastapi_ws_rpc/wire.py\<close>).\<close>

text \<open>
  What counts as a call: \<open>extract_request\<close> finds one exactly when the message has a \<open>request\<close>
  object with a string \<open>method\<close> and a \<open>call_id\<close> that is not null, and no \<open>response\<close>; the id is
  read as text, and arguments that are not an object as none.
\<close>

theorem extract_request_iff:
  "extract_request L obj = Some q \<longleftrightarrow>
     (\<exists>req m cid. get obj ''request'' = PDict req \<and> get obj ''response'' = PNone \<and>
        get req ''method'' = PStr m \<and> get req ''call_id'' = cid \<and> cid \<noteq> PNone \<and>
        q = \<lparr>rq_method = m, rq_call_id = lib_str L cid,
             rq_arguments = (case get req ''arguments'' of PDict args \<Rightarrow> Some args | _ \<Rightarrow> None)\<rparr>)"
  (is "?l \<longleftrightarrow> ?r")
proof
  assume ?l
  then obtain req cid where "is_pending_rpc_call obj" "get obj ''request'' = PDict req"
    "get req ''method'' = PStr (rq_method q)" "get req ''call_id'' = cid" "cid \<noteq> PNone"
    "rq_call_id q = lib_str L cid"
    "rq_arguments q = (case get req ''arguments'' of PDict args \<Rightarrow> Some args | _ \<Rightarrow> None)"
    by (rule extract_request_SomeD)
  then show ?r by (auto simp: is_pending_iff intro!: rpc_request.equality)
next
  assume ?r
  then obtain req m cid where r: "get obj ''request'' = PDict req" "get obj ''response'' = PNone"
    "get req ''method'' = PStr m" "get req ''call_id'' = cid" "cid \<noteq> PNone"
    and q: "q = \<lparr>rq_method = m, rq_call_id = lib_str L cid,
             rq_arguments = (case get req ''arguments'' of PDict args \<Rightarrow> Some args | _ \<Rightarrow> None)\<rparr>" by blast
  have "map_of req (lit ''method'') \<noteq> None" "map_of req (lit ''call_id'') \<noteq> None"
    using r(3-5) by (auto simp: dict_get_def split: option.splits)
  then have "is_pending_rpc_call obj" using r by (simp add: is_pending_rpc_call_def)
  then show ?l using r q by (auto simp: extract_request_def)
qed

text \<open>
  A reply is a response and nothing else: it is given only to a pending call, carries that call's
  id with the built-in result, or with what the handler of unknown methods says, and is never itself
  taken for a call and answered.
\<close>

theorem reply_answers_request:
  assumes "reply_message_for_envelope L msg ch h = Some reply"
  shows "is_pending_rpc_call msg \<and> \<not> looks_like_rpc_response_only msg \<and>
    looks_like_rpc_response_only reply \<and> reply_message_for_envelope L reply ch' h' = None \<and>
    (\<exists>req v rt. extract_request L msg = Some req \<and> reply = response_message v (rq_call_id req) rt \<and>
       (v, rt) = (if rq_method req = lit ''_ping_'' then (PStr PING_RESPONSE, lit ''str'')
                  else if rq_method req = lit ''_get_channel_id_'' then (PStr ch, lit ''str'')
                  else case h of None \<Rightarrow> (PStr (lit ''success''), lit ''str'') | Some f \<Rightarrow> f req))"
proof -
  from assms obtain req where req: "extract_request L msg = Some req"
    and reply: "reply = reply_message_for_request req ch h"
    by (auto simp: reply_message_for_envelope_def split: option.splits)
  then have p: "is_pending_rpc_call msg" by (auto elim: extract_request_SomeD)
  obtain v rt where v: "(v, rt) = (if rq_method req = lit ''_ping_'' then (PStr PING_RESPONSE, lit ''str'')
                  else if rq_method req = lit ''_get_channel_id_'' then (PStr ch, lit ''str'')
                  else case h of None \<Rightarrow> (PStr (lit ''success''), lit ''str'') | Some f \<Rightarrow> f req)"
    by (metis surj_pair)
  then have r: "reply = response_message v (rq_call_id req) rt"
    by (auto simp: reply reply_message_for_request_def builtin_result_def default_unknown_result_def Let_def
        split: option.splits prod.splits if_splits)
  have "looks_like_rpc_response_only reply" "reply_message_for_envelope L reply ch' h' = None"
    by (simp_all add: r reply_message_for_envelope_def)
  with p req r v pending_response_exclusive [OF p] show ?thesis by blast
qed

theorem reply_answers_request_witness:
  "\<exists>reply. reply_message_for_envelope sample_lib (call_request_message (lit ''_ping_'') [] (lit ''c1'')) [] None =
     Some reply \<and> looks_like_rpc_response_only reply"
proof -
  obtain reply where *: "reply_message_for_envelope sample_lib (call_request_message (lit ''_ping_'') [] (lit ''c1'')) [] None
      = Some reply"
    by (simp add: reply_message_for_envelope_def extract_call_request)
  from reply_answers_request [OF this] * show ?thesis by blast
qed

section \<open>Text frames\<close>

text \<open>
  C12: a message reads back as it was written: whatever text \<open>dumps_message\<close> makes of a message, with or without
  \<open>ensure_ascii\<close>, \<open>loads_message\<close> gives the same message again, keys in the same order, if the message is
  JSON: dictionaries without double keys, finite floats whose \<open>repr\<close> reads back, and, with \<open>ensure_ascii\<close>, code
  points that are not surrogates.
\<close>

theorem message_round_trip:
  assumes "L = std_lib FT rp gz gunz" "json_ok FT ea (PDict m)" "dumps_message L m ea = Inr t"
  shows "loads_message L t = Inr (PDict m)"
  using std_loads_dumps assms by blast

definition sample_message :: pydict where
  "sample_message = response_message (PList [PStr [34, 233, 128512, 10], PFloat (FFin 1 (- 1)), PInt (- 7), PBool True, PDict []])
     (lit ''c1'') (lit ''list'')"

lemma sample_message_ok: "json_ok sample_floats ea (PDict sample_message)"
  by (simp add: sample_message_def response_message_def response_body_def wf_dict_def char_ok_def surrogate_def
      lit_Cons sample_floats_def float_literal_def scan_int_def json_digit_def)

lemma sample_message_dumps: "\<exists>t. dumps_message std_sample sample_message ea = Inr t"
  by (simp add: dumps_message_def std_sample_def json_dumps_def sample_message_def response_message_def
      response_body_def dump_int_def max_str_digits_def)

theorem message_round_trip_witness:
  "\<exists>t. dumps_message std_sample sample_message True = Inr t \<and> loads_message std_sample t = Inr (PDict sample_message)"
  using message_round_trip [OF std_sample_def sample_message_ok] sample_message_dumps by blast


text \<open>
  C14: what comes from the wire is JSON: a value that \<open>loads_message\<close> returns consists of the JSON types alone, no
  dictionary in it has a key twice and no integer more than 4300 digits; so \<open>json.dumps\<close> can write it
  again, in every form.
\<close>

theorem loaded_values_are_json:
  assumes "L = std_lib FT rp gz gunz" "loads_message L s = Inr v"
  shows "json_value v \<and> (\<forall>ea cp. \<exists>t. lib_dumps L ea cp v = Inr t)"
proof -
  have "json_value v" using assms json_loads_value by (simp add: loads_message_def)
  with dump_value_total(1) assms(1) show ?thesis by (simp add: json_dumps_def)
qed

theorem loaded_values_are_json_witness:
  "\<exists>s. loads_message std_sample s = Inr (PDict sample_message) \<and> json_value (PDict sample_message)"
proof -
  obtain t where "dumps_message std_sample sample_message False = Inr t"
    using sample_message_dumps by blast
  then have "loads_message std_sample t = Inr (PDict sample_message)"
    using std_loads_dumps sample_message_ok unfolding std_sample_def by blast
  with loaded_values_are_json [OF std_sample_def this] show ?thesis by blast
qed

end
