(* ===== verification/ChunkProps.thy ===== *)
theory ChunkProps
  imports StdLib Samples
begin

text \<open>The properties of the chunked envelope format (\<open>client/chunking.py\<close>).\<close>

section \<open>Round trip\<close>

text \<open>
  C1: the envelopes of \<open>encode_chunked_bodies\<close>, pushed into a reassembler in any order, with
  repetitions and between envelopes of fewer than \<open>max_pending\<close> other transfers (or unreadable
  ones), are all acknowledged without a result until the last missing one, which returns exactly
  the body, the request id and the transfer id that were encoded, and frees the transfer's entry.
  The JSON codec and the hash are Python's; gzip is a parameter that decompresses what it compressed.
\<close>

theorem chunk_roundtrip:
  assumes "L = std_lib FT rp gz gunz" "\<forall>x. gunz (gz x) = Inr x" "json_ok FT False (PDict d)"
    and "wf_reassembler R"
    and "encode_chunked_bodies L fresh (PDict d) rid n compress tid = Inr batch"
    and "ecb_transfer_id batch \<notin> fst ` set (transfers R)"
    and "0 \<le> k" "k < ecb_chunk_count batch"
    and "{i. Inl i \<in> set ops} = {0..<ecb_chunk_count batch} - {k}"
    and "\<forall>b. Inr b \<in> set ops \<longrightarrow> transfer_key L b \<noteq> ecb_transfer_id batch"
    and "card (transfer_key L ` {b. Inr b \<in> set ops}) < nat (max_pending R)"
  shows "(let own = (\<lambda>i. ecb_bodies batch ! nat i);
              (R1, rs) = push_all L (map (op_body own) ops) R;
              (R2, r) = push L (own k) R1
          in (\<forall>j < length ops. isl (ops ! j) \<longrightarrow> rs ! j = Inr None) \<and>
             (\<exists>m. r = Inr (Some m) \<and> batch_message batch d m) \<and>
             ecb_transfer_id batch \<notin> fst ` set (transfers R2))"
proof -
  have "json_faithful L d" "\<forall>x. lib_gunzip L (lib_gzip L x) = Inr x"
    using assms(1-3,5) std_lib_encoded_faithful [of FT rp gz gunz] by simp_all
  then show ?thesis
    using reassemble_batch [of R L fresh d rid n compress tid batch k ops] assms(4-)
    by (simp add: Let_def split_beta)
qed

theorem chunk_roundtrip_witness:
  "\<exists>batch m. encode_chunked_bodies std_sample (lit ''t1'') (PDict sample_body) (lit ''job'') 4 False None
      = Inr batch \<and>
    snd (push std_sample (ecb_bodies batch ! 0)
      (fst (push_all std_sample [ecb_bodies batch ! 1, [], ecb_bodies batch ! 1]
        \<lparr>max_pending = 2, transfers = []\<rparr>))) = Inr (Some m) \<and> dcm_body m = sample_body"
proof -
  let ?R = "\<lparr>max_pending = 2, transfers = []\<rparr>"
  let ?batch = "make_batch std_sample (lit ''t1'') (lit ''job'') 4 std_body_bytes (lit ''identity'')"
  let ?ops = "[Inl 1, Inr [], Inl 1] :: (int + pydict) list"
  have key: "transfer_key std_sample [] = []" by (rule transfer_key_empty)
  have own: "{i. Inl i \<in> set ?ops} = {0..<ecb_chunk_count ?batch} - {0}"
    and others: "{b. Inr b \<in> set ?ops} = {[]}"
    by (auto simp: make_batch_simps std_sample_count)
  have wf: "wf_reassembler ?R" by (simp add: wf_reassembler_def)
  have ops: "\<forall>b. Inr b \<in> set ?ops \<longrightarrow> transfer_key std_sample b \<noteq> ecb_transfer_id ?batch"
    by (auto simp: key make_batch_simps)
  have room: "card (transfer_key std_sample ` {b. Inr b \<in> set ?ops}) < nat (max_pending ?R)"
    unfolding others by simp
  have new: "ecb_transfer_id ?batch \<notin> fst ` set (transfers ?R)" by simp
  have k: "(0::int) \<le> 0" "0 < ecb_chunk_count ?batch" by (simp_all add: make_batch_simps std_sample_count)
  have gz: "\<forall>x. Inr x = Inr x" by simp
  note enc = std_sample_encoded [of "lit ''t1''" "lit ''job''"]
  from chunk_roundtrip [OF std_sample_def gz sample_json_ok wf enc new k own ops room] enc
  show ?thesis
    by (intro exI [of _ ?batch]) (auto simp: Let_def split_beta op_body_def batch_message_def sample_body_def)
qed

section \<open>The table of transfers\<close>

text \<open>
  C9: a reassembler created with \<open>max_pending\<close> \<open>n\<close> never holds more than \<open>n\<close> transfers, whatever
  is pushed, and every transfer it holds is incomplete, with each of its slices at an index
  below its chunk count.
\<close>

theorem reassembler_bounded:
  assumes "new_reassembler n = Inr R"
  shows "(let R' = fst (push_all L bs R)
          in int (length (transfers R')) \<le> n \<and> wf_dict (transfers R') \<and>
             (\<forall>tid st. map_of (transfers R') tid = Some st \<longrightarrow>
                int (length (pt_chunks st)) < pt_chunk_count st \<and>
                fst ` set (pt_chunks st) \<subseteq> {0..<pt_chunk_count st}))"
proof -
  have "max_pending (fst (push_all L bs R)) = max_pending R" for R
    by (induction bs arbitrary: R) (simp_all add: Let_def split_beta)
  moreover have "max_pending R = n" using assms by (auto simp: new_reassembler_def split: if_splits)
  ultimately show ?thesis
    using push_all_wf [OF new_reassembler_wf [OF assms], of L bs]
    by (auto simp: Let_def wf_reassembler_def wf_transfer_def)
qed

theorem reassembler_bounded_witness:
  "int (length (transfers (fst (push_all sample_lib [[], []] \<lparr>max_pending = 1, transfers = []\<rparr>)))) \<le> 1"
proof -
  have "new_reassembler 1 = Inr \<lparr>max_pending = 1, transfers = []\<rparr>"
    by (simp add: new_reassembler_def)
  from reassembler_bounded [OF this, of sample_lib "[[], []]"] show ?thesis
    by (simp only: Let_def)
qed

text \<open>
  C10: a transfer in progress is not lost to other traffic: it is still there, unchanged, after
  any envelopes of other transfers, as long as those and the transfers already newer than it are
  fewer than \<open>max_pending\<close>.
\<close>

theorem transfer_survives:
  assumes "wf_reassembler R" "map_of (transfers R) k = Some st"
    and "k \<notin> transfer_key L ` set bs"
    and "card (newer k (map fst (transfers R)) \<union> transfer_key L ` set bs) < nat (max_pending R)"
  shows "map_of (transfers (fst (push_all L bs R))) k = Some st"
proof -
  have "k \<in> set (map fst (transfers R))" using map_of_key [OF assms(2)] by simp
  from chunk_table.survives [OF assms(1) this assms(3,4)] show ?thesis
    using assms(2) by (simp add: push_all_fold)
qed

theorem transfer_survives_witness:
  "map_of (transfers (fst (push_all sample_lib [[], []] sample_table))) (lit ''t0'') = Some sample_transfer"
proof -
  have key: "transfer_key sample_lib ` set [[], []] = {[]}"
    by (simp add: transfer_key_empty)
  have "newer (lit ''t0'') (map fst (transfers sample_table)) = {}"
    by (simp add: newer_def sample_table_def)
  then have "card (newer (lit ''t0'') (map fst (transfers sample_table)) \<union>
      transfer_key sample_lib ` set [[], []]) < nat (max_pending sample_table)"
    unfolding key by (simp add: sample_table_def)
  moreover have "lit ''t0'' \<notin> transfer_key sample_lib ` set [[], []]"
    unfolding key by simp
  ultimately show ?thesis
    by (intro transfer_survives [OF sample_table_wf sample_table_lookup])
qed

text \<open>
  C11: slices are write-once: no envelope, accepted or refused, changes the metadata of a transfer
  that stays in the table or removes or overwrites a slice it already has.
\<close>

theorem slices_write_once:
  assumes "wf_reassembler R" "map_of (transfers R) k = Some st"
    and "map_of (transfers (fst (push L b R))) k = Some st'"
  shows "map_of (pt_chunks st) \<subseteq>\<^sub>m map_of (pt_chunks st') \<and>
    st' = st\<lparr>pt_chunks := pt_chunks st'\<rparr>"
proof (cases "read_chunk L b")
  case (Inl e)
  with assms show ?thesis by (simp add: push_def)
next
  case (Inr c)
  note wf = assms(1) and c = read_chunk_wf [OF Inr]
  have b: "push L b R = push_chunk L c R" using Inr by (simp add: push_def)
  show ?thesis
  proof (cases "k = cf_transfer_id c")
    case False
    then have "map_of (transfers (fst (push_chunk L c R))) k = map_of (transfers R) k"
      using assms(3) map_of_key b by (intro push_chunk_keys(2) [OF wf c]) (auto simp: image_iff)
    with assms(2,3) b show ?thesis by simp
  next
    case k: True
    then have st: "map_of (transfers R) (cf_transfer_id c) = Some st" using assms(2) by simp
    obtain R1 r where e: "enter_transfer c R = (R1, r)" by fastforce
    then have R1: "map_of (transfers R1) = map_of (transfers R)" and r: "r = Inr s \<Longrightarrow> s = st" for s
      using enter_transfer_old [OF st] by (auto split: if_splits)
    from wf c e show ?thesis
    proof (cases rule: push_chunk_cases [of R c R1 r L])
      case (refused err)
      with assms(2,3) b R1 show ?thesis by simp
    next
      case (collected s s')
      then have s: "s = st" and s': "st' = s'" using r assms(3) b k by auto
      show ?thesis
        using collected(2) unfolding s s'
        by (auto simp: add_chunk_def map_le_def split: option.splits if_splits)
    next
      case completed
      with assms(3) b k show ?thesis by simp
    qed
  qed
qed

theorem slices_write_once_witness:
  "map_of (pt_chunks sample_transfer) \<subseteq>\<^sub>m map_of (pt_chunks sample_transfer) \<and>
   map_of (transfers (fst (push sample_lib [] sample_table))) (lit ''t0'') = Some sample_transfer"
proof -
  have *: "map_of (transfers (fst (push sample_lib [] sample_table))) (lit ''t0'') = Some sample_transfer"
    by (simp add: push_empty sample_table_lookup)
  from slices_write_once [OF sample_table_wf sample_table_lookup *] * show ?thesis by blast
qed

lemma push_delivered:
  assumes "push L b R = (R', Inr (Some m))"
  obtains c st st' payload where "read_chunk L b = Inr c" "snd (enter_transfer c R) = Inr st"
    "add_chunk c st = Inr st'" "join_chunks st' = Some payload" "finish_transfer L st' payload = Inr m"
proof -
  from assms obtain c where c: "read_chunk L b = Inr c" and p: "push_chunk L c R = (R', Inr (Some m))"
    by (auto simp: push_def split: sum.splits)
  obtain R1 r where e: "enter_transfer c R = (R1, r)" by fastforce
  from p e that [OF c] show thesis
    by (auto simp: push_chunk_def Let_def rbind_eq_Inr
        split: sum.splits if_splits option.splits)
qed

lemma finish_transfer_InrD:
  assumes "finish_transfer L st payload = Inr m"
  obtains plain where "int (length payload) = dcm_total_bytes m" "lib_sha256 L payload = dcm_sha256 m"
    "decode_payload_bytes L payload (dcm_content_encoding m) = Inr plain"
    "if plain = [] then dcm_body m = []
     else rbind (utf8_decode plain) (lib_loads L) = Inr (PDict (dcm_body m))"
    "dcm_total_bytes m = pt_total_bytes st" "dcm_chunk_count m = pt_chunk_count st"
proof -
  from assms obtain plain v where c: "int (length payload) = pt_total_bytes st"
      "lib_sha256 L payload = pt_sha256 st"
    and p: "decode_payload_bytes L payload (pt_content_encoding st) = Inr plain"
    and v: "(if plain \<noteq> [] then rbind (utf8_decode plain) (lib_loads L) else Inr (PDict [])) = Inr v"
    and m: "(case v of PDict body \<Rightarrow>
                  Inr \<lparr>dcm_transfer_id = pt_transfer_id st, dcm_request_id = pt_request_id st,
                       dcm_body = body, dcm_chunk_count = pt_chunk_count st,
                       dcm_total_bytes = pt_total_bytes st, dcm_sha256 = pt_sha256 st,
                       dcm_content_encoding = pt_content_encoding st\<rparr>
              | _ \<Rightarrow> raise TypeError ''reassembled payload must decode to a JSON object'') = Inr m"
    unfolding finish_transfer_def rbind_eq_Inr by (auto simp: rbind_eq_Inr split: if_splits)
  from m obtain body where body: "v = PDict body" "dcm_body m = body"
    "dcm_total_bytes m = pt_total_bytes st" "dcm_sha256 m = pt_sha256 st"
    "dcm_content_encoding m = pt_content_encoding st" "dcm_chunk_count m = pt_chunk_count st"
    by (cases v) auto
  have "if plain = [] then dcm_body m = []
     else rbind (utf8_decode plain) (lib_loads L) = Inr (PDict (dcm_body m))"
    using v body by (cases "plain = []") auto
  with c p body show thesis by (intro that) auto
qed

lemma enter_transfer_slices:
  assumes "snd (enter_transfer c R) = Inr st" "map_of (pt_chunks st) i = Some s"
  shows "\<exists>st0. map_of (transfers R) (cf_transfer_id c) = Some st0 \<and> map_of (pt_chunks st0) i = Some s"
  using assms
  by (auto simp: enter_transfer_def fresh_transfer_def split: option.splits if_splits)

lemma add_chunk_slices:
  assumes "add_chunk c st = Inr st'" "map_of (pt_chunks st') i = Some s"
  shows "(i = cf_index c \<and> s = cf_bytes c) \<or> map_of (pt_chunks st) i = Some s"
  using assms by (auto simp: add_chunk_def split: option.splits if_splits)


text \<open>A transfer of one empty slice, which is complete at once.\<close>

definition sample_empty_body :: pydict where
  "sample_empty_body = chunk_body (chunk_metadata (lit ''t2'') (lit ''job'') 0 1 0 (lit ''0'') (lit ''identity'')) []"

lemma sample_empty_push:
  "\<exists>m. push sample_lib sample_empty_body \<lparr>max_pending = 1, transfers = []\<rparr> =
     (\<lparr>max_pending = 1, transfers = []\<rparr>, Inr (Some m)) \<and> dcm_body m = []"
proof -
  have "show_nat 0 = lit ''0''" by (simp add: show_nat.simps lit_Cons)
  then have "lib_sha256 sample_lib [] = lit ''0''" by (simp add: sample_lib_def)
  moreover have "[0..0::int] = [0]" by (simp add: upto.simps)
  ultimately show ?thesis
    by (simp add: push_def sample_empty_body_def read_chunk_body push_chunk_def enter_transfer_def
        evict_if_needed_def fresh_transfer_def add_chunk_def store_transfer_def join_chunks_def
        finish_transfer_def decode_payload_bytes_def dict_set_def dict_pop_def)
qed


text \<open>
  What the encoder emits: at least one envelope; every envelope is recognised by
  \<open>is_chunk_envelope\<close>, carries its own index, the common count and at most \<open>chunk_size\<close> bytes; and
  there are as many as the payload needs (one for an empty payload).
\<close>

theorem encoder_output:
  assumes "encode_chunked_bodies L fresh (PDict d) rid n compress tid = Inr batch"
    and "i < length (ecb_bodies batch)"
  shows "is_chunk_envelope (ecb_bodies batch ! i) = Inr True \<and>
    (\<exists>c. read_chunk L (ecb_bodies batch ! i) = Inr c \<and> cf_index c = int i \<and>
       cf_count c = int (length (ecb_bodies batch)) \<and>
       cf_transfer_id c = ecb_transfer_id batch \<and> cf_request_id c = rid \<and>
       int (length (cf_bytes c)) \<le> n \<and>
       int (length (ecb_bodies batch)) = max 1 ((cf_total_bytes c + n - 1) div n))"
proof -
  obtain raw encoded ce where n: "1 \<le> n"
    and batch: "batch = make_batch L (pick_transfer_id fresh tid) rid n encoded ce"
    using encode_chunked_bodiesD [OF assms(1)] by blast
  have i: "i < length (split_payload n encoded)" using assms(2) by (simp add: batch make_batch_simps)
  show ?thesis
    using envelope_of_batch [OF n i, of L "pick_transfer_id fresh tid" rid ce] length_split_payload [OF n, of encoded]
    by (auto simp: batch make_batch_simps)
qed

theorem encoder_output_witness:
  "is_chunk_envelope (ecb_bodies (make_batch std_sample (lit ''t1'') (lit ''job'') 4
     std_body_bytes (lit ''identity'')) ! 1) = Inr True"
proof -
  have "1 < length (ecb_bodies (make_batch std_sample (lit ''t1'') (lit ''job'') 4
     std_body_bytes (lit ''identity'')))"
    by (simp add: make_batch_simps std_sample_count)
  from encoder_output [OF std_sample_encoded this] show ?thesis by blast
qed

text \<open>
  The transport request ids of a chunked send are one per envelope and pairwise distinct, so
  that the relay can tell the envelopes apart.
\<close>

theorem transport_ids_distinct:
  assumes "make_chunk_transport_request_ids tid rid n = Inr ids"
  shows "int (length ids) = n \<and> distinct ids"
  using assms
  by (auto simp: make_chunk_transport_request_ids_def Let_def distinct_map inj_on_def
      chunk_transport_id_def split: if_splits)

theorem transport_ids_distinct_witness:
  "distinct (map (chunk_transport_id (lit ''job'') 2) [0..<2])"
proof -
  have strip: "py_strip (lit ''job'') = lit ''job''"
    by (simp add: py_strip_def py_lstrip_def py_rstrip_def py_space_def lit_Cons)
  have "make_chunk_transport_request_ids (lit ''t'') (lit ''job'') 2 =
      Inr (map (chunk_transport_id (lit ''job'') 2) [0..<2])"
    by (simp add: make_chunk_transport_request_ids_def strip)
  from transport_ids_distinct [OF this] show ?thesis by blast
qed

section \<open>A complete message against a full table\<close>

text \<open>
  Every push enters its transfer in the table before the count of its slices is compared: the envelope of a
  message of one chunk, which needs no place, takes the place of the oldest transfer of a full table.
\<close>

lemma one_chunk_evicts:
  assumes wf: "wf_reassembler R" and full: "int (length (transfers R)) = max_pending R"
    and c: "read_chunk L body = Inr c" "cf_count c = 1" "cf_transfer_id c \<notin> fst ` set (transfers R)"
  shows "transfers (fst (push L body R)) = tl (transfers R)"
proof -
  let ?k = "cf_transfer_id c" and ?n = "nat (max_pending R)"
  have none: "map_of (transfers R) ?k = None" using c(3) by (simp add: map_of_eq_None_iff)
  have idx: "cf_index c = 0" using read_chunk_wf [OF c(1)] c(2) by (simp add: wf_fields_def)
  have len: "length (transfers R) = ?n" using full by linarith
  then have one: "transfers R \<noteq> []" using wf_reassemblerD(1) [OF wf] by auto
  have ent: "evict_oldest (max_pending R) (transfers R @ [(?k, fresh_transfer c)]) = tl (transfers R) @ [(?k, fresh_transfer c)]"
    using one len wf_reassemblerD(1) [OF wf] by (simp add: evict_oldest_drop drop_Suc)
  have new: "?k \<notin> fst ` set (tl (transfers R))" using c(3) one by (auto dest: list.set_sel(2))
  have none': "map_of (tl (transfers R)) ?k = None" using new by (simp add: map_of_eq_None_iff)
  show ?thesis
    unfolding push_def c(1) sum.case push_chunk_def enter_transfer_new [OF wf none] ent
    using new none' c(2)
    by (simp add: add_chunk_def fresh_transfer_def idx store_transfer_def join_chunks_def Let_def dict_set_last dict_pop_last dict_set_def [of 0] map_add_def)
qed

end
