(* ===== verification/ClientBase.thy ===== *)
theory ClientBase
  imports Chunking
begin

text \<open>
  \<open>src/rpcproxy/client/base.py\<close>: the single-reader WebSocket client.  Its coroutines run on one
  event loop, so the code between two \<open>await\<close>s is atomic: each definition here is one such
  segment (or the pure function a segment calls), from the state of the client to its next state
  and what the segment ends with.  \<open>ClientSteps\<close> puts the segments together into the step
  relation of all their interleavings.

  \<^item> A future is a number; \<open>c_futs\<close> holds the state of each, \<open>c_next_fut\<close> is the next to create.
  \<^item> \<open>c_reader\<close> is \<open>_reader_task\<close> with the place the reader loop has reached.
  \<^item> \<open>c_sent\<close> is the sequence of texts handed to \<open>ws.send\<close>.

  A subclass extends the record \<open>client\<close>; all operations are stated for every extension.
\<close>

section \<open>State\<close>

datatype fut = Waiting | Done pydict | Cancelled

datatype reader =
    NoTask \<comment> \<open>\<open>_reader_task is None\<close>\<close>
  | Starting \<comment> \<open>created, not yet run\<close>
  | Receiving \<comment> \<open>at \<open>await self._ws.recv()\<close>\<close>
  | InHook pystr \<comment> \<open>at \<open>await self.receive_envelope(...)\<close>, for the call with this id\<close>
  | Replying \<comment> \<open>at \<open>await self._ws.send(...)\<close>\<close>
  | Ended \<comment> \<open>returned\<close>
  | Failed py_exn \<comment> \<open>ended with an exception\<close>

record client =
  c_channel_id :: pystr
  c_default_call_timeout :: "pyfloat option"
  c_stash_max :: int
  c_ws :: bool
  c_pending :: "(pystr \<times> nat) list"
  c_reader :: reader
  c_stash :: "(pystr \<times> pydict) list"
  c_waiters :: "(pystr \<times> nat) list"
  c_chunks :: reassembler
  c_futs :: "nat \<Rightarrow> fut"
  c_next_fut :: nat
  c_sent :: "pystr list"

definition new_client :: "pystr \<Rightarrow> pyfloat option \<Rightarrow> int \<Rightarrow> int \<Rightarrow> py_exn + client" where
  "new_client channel_id timeout stash_max chunk_max =
     rbind (new_reassembler chunk_max) (\<lambda>R.
       Inr \<lparr>c_channel_id = channel_id, c_default_call_timeout = timeout, c_stash_max = stash_max,
            c_ws = False, c_pending = [], c_reader = NoTask, c_stash = [], c_waiters = [],
            c_chunks = R, c_futs = (\<lambda>_. Waiting), c_next_fut = 0, c_sent = []\<rparr>)"

text \<open>\<open>loop.create_future()\<close>, \<open>fut.set_result(r)\<close> and \<open>if not fut.done(): fut.cancel()\<close>\<close>

definition create_future :: "'a client_scheme \<Rightarrow> nat \<times> 'a client_scheme" where
  "create_future c =
     (c_next_fut c, c\<lparr>c_futs := (c_futs c)(c_next_fut c := Waiting), c_next_fut := Suc (c_next_fut c)\<rparr>)"

definition set_result :: "nat \<Rightarrow> pydict \<Rightarrow> 'a client_scheme \<Rightarrow> 'a client_scheme" where
  "set_result fid r c = c\<lparr>c_futs := (c_futs c)(fid := Done r)\<rparr>"

definition cancel_future :: "nat \<Rightarrow> 'a client_scheme \<Rightarrow> 'a client_scheme" where
  "cancel_future fid c =
     (if c_futs c fid = Waiting then c\<lparr>c_futs := (c_futs c)(fid := Cancelled)\<rparr> else c)"

definition cancel_all :: "(pystr \<times> nat) list \<Rightarrow> 'a client_scheme \<Rightarrow> 'a client_scheme" where
  "cancel_all d c = fold cancel_future (map snd d) c"

section \<open>Arguments of an envelope\<close>

definition RECEIVE_ENVELOPE_KEYS :: "pystr list" where
  "RECEIVE_ENVELOPE_KEYS =
     [lit ''message_type'', lit ''kind'', lit ''client_id'', lit ''sender'', lit ''receiver'',
      lit ''body'', lit ''request_id'']"

text \<open>\<open>_arg_str(args, key)\<close> with the default \<open>""\<close>, which every caller uses\<close>

definition arg_str :: "pylib \<Rightarrow> pydict \<Rightarrow> string \<Rightarrow> pystr" where
  "arg_str L args key =
     (case dict_get args (lit key) (PStr []) of
        PNone \<Rightarrow> []
      | PStr s \<Rightarrow> s
      | v \<Rightarrow> lib_str L v)"

text \<open>The keyword arguments of \<open>receive_envelope\<close>.\<close>

record envelope =
  ev_message_type :: pystr
  ev_kind :: pystr
  ev_client_id :: pystr
  ev_sender :: pystr
  ev_receiver :: pystr
  ev_body :: "pydict option"
  ev_request_id :: pystr
  ev_extra :: pydict

definition extra_arguments :: "pydict \<Rightarrow> pydict" where
  "extra_arguments args = filter (\<lambda>(k, v). k \<notin> set RECEIVE_ENVELOPE_KEYS) args"

definition dict_body :: "pyval \<Rightarrow> pydict option" where
  "dict_body v = (case v of PDict d \<Rightarrow> Some d | _ \<Rightarrow> None)"

definition envelope_of :: "pylib \<Rightarrow> pydict \<Rightarrow> envelope" where
  "envelope_of L args =
     \<lparr>ev_message_type = arg_str L args ''message_type'', ev_kind = arg_str L args ''kind'',
      ev_client_id = arg_str L args ''client_id'', ev_sender = arg_str L args ''sender'',
      ev_receiver = arg_str L args ''receiver'', ev_body = dict_body (get args ''body''),
      ev_request_id = arg_str L args ''request_id'', ev_extra = extra_arguments args\<rparr>"

section \<open>Relay receipts\<close>

definition relay_receipt :: "pydict \<Rightarrow> pydict" where
  "relay_receipt args = [(lit ''ok'', PBool True), (lit ''arguments'', PDict args)]"

definition stash_receipt :: "pystr \<Rightarrow> pydict \<Rightarrow> 'a client_scheme \<Rightarrow> 'a client_scheme" where
  "stash_receipt rid receipt c =
     (if c_stash_max c \<le> 0 then c
      else c\<lparr>c_stash := evict_oldest (c_stash_max c) (dict_pop rid (c_stash c) @ [(rid, receipt)])\<rparr>)"

definition relay_publish :: "pystr \<Rightarrow> pydict \<Rightarrow> 'a client_scheme \<Rightarrow> 'a client_scheme" where
  "relay_publish rid args c =
     (if py_strip rid = [] then c
      else let receipt = relay_receipt args;
               c1 = c\<lparr>c_waiters := dict_pop rid (c_waiters c)\<rparr>
           in case map_of (c_waiters c) rid of
                Some w \<Rightarrow> (if c_futs c w = Waiting then set_result w receipt c1
                           else stash_receipt rid receipt c1)
              | None \<Rightarrow> stash_receipt rid receipt c1)"

definition relay_cleanup :: "'a client_scheme \<Rightarrow> 'a client_scheme" where
  "relay_cleanup c = (cancel_all (c_waiters c) c)\<lparr>c_waiters := [], c_stash := []\<rparr>"

text \<open>
  \<open>wait_relay_predicate\<close> up to its first \<open>await\<close>: it raises, returns a stashed receipt, or waits
  on a new future.
\<close>

datatype 'r started = Returned 'r | Suspended nat

definition wait_relay_begin ::
    "pystr \<Rightarrow> 'a client_scheme \<Rightarrow> 'a client_scheme \<times> (py_exn + pydict started)" where
  "wait_relay_begin rid c =
     (if py_strip rid = [] then (c, raise ValueError ''request_id must be non-empty'')
      else case map_of (c_stash c) rid of
        Some receipt \<Rightarrow> (c\<lparr>c_stash := dict_pop rid (c_stash c)\<rparr>, Inr (Returned receipt))
      | None \<Rightarrow>
          if map_of (c_waiters c) rid \<noteq> None
          then (c, raise RuntimeError ''already waiting for this request_id'')
          else let (fid, c1) = create_future c
               in (c1\<lparr>c_waiters := dict_set rid fid (c_waiters c1)\<rparr>, Inr (Suspended fid)))"

text \<open>Its end, with the outcome \<open>out\<close> of the \<open>await\<close>: the \<open>finally\<close> block runs on every path.\<close>

definition wait_relay_end ::
    "pystr \<Rightarrow> nat \<Rightarrow> py_exn + pydict \<Rightarrow> 'a client_scheme \<Rightarrow> 'a client_scheme \<times> (py_exn + pydict)" where
  "wait_relay_end rid fid out c =
     (if map_of (c_waiters c) rid = Some fid
      then cancel_future fid (c\<lparr>c_waiters := dict_pop rid (c_waiters c)\<rparr>)
      else c, out)"

section \<open>Outbound calls\<close>

text \<open>
  \<open>_call_remote\<close> up to its first \<open>await\<close>, with the fresh \<open>uuid4().hex\<close> \<open>cid\<close>: the request is
  registered, then serialised; if that raises, the \<open>finally\<close> block takes it back.
\<close>

definition call_cleanup :: "pystr \<Rightarrow> nat \<Rightarrow> 'a client_scheme \<Rightarrow> 'a client_scheme" where
  "call_cleanup cid fid c = cancel_future fid (c\<lparr>c_pending := dict_pop cid (c_pending c)\<rparr>)"

definition call_remote_begin ::
    "pylib \<Rightarrow> pystr \<Rightarrow> pystr \<Rightarrow> pydict \<Rightarrow> 'a client_scheme \<Rightarrow> 'a client_scheme \<times> (py_exn + nat)" where
  "call_remote_begin L cid m args c =
     (if \<not> c_ws c then (c, raise RuntimeError ''not connected'')
      else let (fid, c1) = create_future c;
               c2 = c1\<lparr>c_pending := dict_set cid fid (c_pending c1)\<rparr>
           in case dumps_message L (call_request_message m args cid) False of
                Inl e \<Rightarrow> (call_cleanup cid fid c2, Inl e)
              | Inr s \<Rightarrow> (c2\<lparr>c_sent := c_sent c2 @ [s]\<rparr>, Inr fid))"

definition call_remote_end ::
    "pystr \<Rightarrow> nat \<Rightarrow> py_exn + pydict \<Rightarrow> 'a client_scheme \<Rightarrow> 'a client_scheme \<times> (py_exn + pyval)" where
  "call_remote_end cid fid out c =
     (call_cleanup cid fid c, rbind out (\<lambda>resp. Inr (get resp ''result'')))"

definition set_state_arguments :: "pystr \<Rightarrow> pyval \<Rightarrow> pydict" where
  "set_state_arguments key value = [(lit ''key'', PStr key), (lit ''value'', value)]"

definition post_message_arguments :: "pystr \<Rightarrow> pyval \<Rightarrow> pystr \<Rightarrow> pydict" where
  "post_message_arguments receiver body request_id =
     [(lit ''receiver'', PStr receiver), (lit ''request_id'', PStr request_id),
      (lit ''body'', if body = PNone then PDict [] else body)]"

section \<open>The reader loop\<close>

definition try_complete_pending ::
    "pylib \<Rightarrow> pydict \<Rightarrow> 'a client_scheme \<Rightarrow> 'a client_scheme \<times> bool" where
  "try_complete_pending L msg c =
     (case get msg ''response'' of
        PDict resp \<Rightarrow>
          (if get resp ''call_id'' = PNone then (c, False)
           else let cid = lib_str L (get resp ''call_id'')
                in case map_of (c_pending c) cid of
                     None \<Rightarrow> (c, False)
                   | Some fid \<Rightarrow>
                       let c1 = c\<lparr>c_pending := dict_pop cid (c_pending c)\<rparr>
                       in (if c_futs c1 fid = Waiting then set_result fid resp c1 else c1, True))
      | _ \<Rightarrow> (c, False))"

text \<open>
  \<open>_invoke_receive_envelope\<close> up to the call of \<open>receive_envelope\<close>: it raises, answers itself
  (a chunk that completes nothing, or is refused), or calls the hook.
\<close>

datatype invocation = Answer pydict | CallHook envelope

definition ok_result :: "bool \<Rightarrow> pydict" where
  "ok_result b = [(lit ''ok'', PBool b)]"

definition assembled_arguments :: "decoded_chunk_message \<Rightarrow> pydict \<Rightarrow> pydict" where
  "assembled_arguments m args =
     (let a1 = dict_set (lit ''body'') (PDict (dcm_body m)) args;
          a2 = (if py_strip (dcm_request_id m) \<noteq> []
                then dict_set (lit ''request_id'') (PStr (dcm_request_id m)) a1 else a1);
          a3 = dict_set (lit ''chunk_transfer_id'') (PStr (dcm_transfer_id m)) a2;
          a4 = dict_set (lit ''chunk_count'') (PInt (dcm_chunk_count m)) a3;
          a5 = dict_set (lit ''chunk_total_bytes'') (PInt (dcm_total_bytes m)) a4;
          a6 = dict_set (lit ''chunk_sha256'') (PStr (dcm_sha256 m)) a5
      in dict_set (lit ''chunk_content_encoding'') (PStr (dcm_content_encoding m)) a6)"

text \<open>A keyword \<open>self\<close> among the extra arguments clashes with the bound method's own.\<close>

definition deliver_envelope ::
    "pylib \<Rightarrow> pydict \<Rightarrow> 'a client_scheme \<Rightarrow> 'a client_scheme \<times> (py_exn + invocation)" where
  "deliver_envelope L args c =
     (relay_publish (arg_str L args ''request_id'') args c,
      if map_of (extra_arguments args) (lit ''self'') \<noteq> None
      then raise TypeError (''receive_envelope() got multiple values for argument '' @ [CHR 0x27] @ ''self'' @ [CHR 0x27])
      else Inr (CallHook (envelope_of L args)))"

definition invoke_receive_envelope ::
    "pylib \<Rightarrow> pydict \<Rightarrow> 'a client_scheme \<Rightarrow> 'a client_scheme \<times> (py_exn + invocation)" where
  "invoke_receive_envelope L args c =
     (case get args ''body'' of
        PDict body \<Rightarrow>
          (case is_chunk_envelope body of
             Inl e \<Rightarrow> (c, Inl e)
           | Inr False \<Rightarrow> deliver_envelope L args c
           | Inr True \<Rightarrow>
               let (R, r) = push L body (c_chunks c);
                   c1 = c\<lparr>c_chunks := R\<rparr>
               in case r of
                    Inl e \<Rightarrow> (c1, if is_exception e then Inr (Answer (ok_result False)) else Inl e)
                  | Inr None \<Rightarrow> (c1, Inr (Answer (ok_result True)))
                  | Inr (Some m) \<Rightarrow> deliver_envelope L (assembled_arguments m args) c1)
      | _ \<Rightarrow> deliver_envelope L args c)"

text \<open>What the reader does next.\<close>

datatype reader_action =
    NextFrame
  | Unmatched pydict \<comment> \<open>\<open>on_unmatched_message(msg)\<close>, then the next frame\<close>
  | Send pystr \<comment> \<open>\<open>await self._ws.send(...)\<close>\<close>
  | Hook pystr envelope \<comment> \<open>\<open>await self.receive_envelope(...)\<close> for the call with this id\<close>
  | Raise py_exn

definition send_reply :: "pylib \<Rightarrow> pyval \<Rightarrow> pystr \<Rightarrow> pystr \<Rightarrow> reader_action" where
  "send_reply L result cid result_type =
     (case dumps_message L (response_message result cid result_type) False of
        Inl e \<Rightarrow> Raise e | Inr s \<Rightarrow> Send s)"

definition dispatch_inbound ::
    "pylib \<Rightarrow> pydict \<Rightarrow> 'a client_scheme \<Rightarrow> 'a client_scheme \<times> reader_action" where
  "dispatch_inbound L msg c =
     (case extract_request L msg of
        None \<Rightarrow> (c, NextFrame)
      | Some req \<Rightarrow>
          if rq_method req \<in> set EXPOSED_BUILT_IN_METHODS
          then (c, case builtin_result req (c_channel_id c) of
                     None \<Rightarrow> NextFrame
                   | Some (result, rt) \<Rightarrow> send_reply L result (rq_call_id req) rt)
          else if rq_method req = lit ''receive_envelope''
          then (case invoke_receive_envelope L
                       (case rq_arguments req of None \<Rightarrow> [] | Some a \<Rightarrow> a) c of
                  (c1, Inl e) \<Rightarrow> (c1, Raise e)
                | (c1, Inr (Answer r)) \<Rightarrow> (c1, send_reply L (PDict r) (rq_call_id req) (lit ''dict''))
                | (c1, Inr (CallHook ev)) \<Rightarrow> (c1, Hook (rq_call_id req) ev))
          else (c, NextFrame))"

definition handle_message ::
    "pylib \<Rightarrow> pydict \<Rightarrow> 'a client_scheme \<Rightarrow> 'a client_scheme \<times> reader_action" where
  "handle_message L msg c =
     (case try_complete_pending L msg c of
        (c1, True) \<Rightarrow> (c1, NextFrame)
      | (c1, False) \<Rightarrow>
          if is_pending_rpc_call msg then dispatch_inbound L msg c1 else (c1, Unmatched msg))"

datatype frame = Binary bytes | Text pystr

definition handle_frame ::
    "pylib \<Rightarrow> frame \<Rightarrow> 'a client_scheme \<Rightarrow> 'a client_scheme \<times> reader_action" where
  "handle_frame L raw c =
     (case raw of
        Binary _ \<Rightarrow> (c, NextFrame)
      | Text s \<Rightarrow>
          (case loads_message L s of
             Inl e \<Rightarrow> (c, if exn_class e = JSONDecodeError then NextFrame else Raise e)
           | Inr (PDict msg) \<Rightarrow> handle_message L msg c
           | Inr _ \<Rightarrow> (c, NextFrame)))"

text \<open>The \<open>finally\<close> block of the reader loop, and the loop going to its next place.\<close>

definition reader_cleanup :: "'a client_scheme \<Rightarrow> 'a client_scheme" where
  "reader_cleanup c = relay_cleanup ((cancel_all (c_pending c) c)\<lparr>c_pending := []\<rparr>)"

definition reader_stop :: "py_exn option \<Rightarrow> 'a client_scheme \<Rightarrow> 'a client_scheme" where
  "reader_stop e c =
     (reader_cleanup c)\<lparr>c_reader := (case e of None \<Rightarrow> Ended | Some x \<Rightarrow>
        if exn_class x = CancelledError then Ended else Failed x)\<rparr>"

definition reader_goto :: "reader_action \<Rightarrow> 'a client_scheme \<Rightarrow> 'a client_scheme" where
  "reader_goto a c =
     (case a of
        NextFrame \<Rightarrow> c\<lparr>c_reader := Receiving\<rparr>
      | Unmatched _ \<Rightarrow> c\<lparr>c_reader := Receiving\<rparr>
      | Send s \<Rightarrow> c\<lparr>c_sent := c_sent c @ [s], c_reader := Replying\<rparr>
      | Hook cid _ \<Rightarrow> c\<lparr>c_reader := InHook cid\<rparr>
      | Raise e \<Rightarrow> reader_stop (Some e) c)"

definition reader_frame :: "pylib \<Rightarrow> frame \<Rightarrow> 'a client_scheme \<Rightarrow> 'a client_scheme" where
  "reader_frame L raw c = (case handle_frame L raw c of (c1, a) \<Rightarrow> reader_goto a c1)"

text \<open>\<open>receive_envelope\<close> ends with \<open>out\<close>; the result goes back to the caller.\<close>

definition hook_return :: "pylib \<Rightarrow> pystr \<Rightarrow> py_exn + pydict \<Rightarrow> 'a client_scheme \<Rightarrow> 'a client_scheme" where
  "hook_return L cid out c =
     (case out of
        Inl e \<Rightarrow> reader_stop (Some e) c
      | Inr r \<Rightarrow> reader_goto (send_reply L (PDict r) cid (lit ''dict'')) c)"

text \<open>
  \<open>_log_assigned_id_if_present\<close>: what is logged about a frame that nobody expected; and the property
  \<open>channel_id\<close>.
\<close>

datatype assigned_log = NoNotice | MissingClientId | AssignedId pystr

definition log_assigned_id :: "pylib \<Rightarrow> pydict \<Rightarrow> assigned_log" where
  "log_assigned_id L msg =
     (if get msg ''kind'' \<noteq> PStr (lit ''assigned_id'') then NoNotice
      else if get msg ''client_id'' = PNone then MissingClientId
      else AssignedId (lib_str L (get msg ''client_id'')))"

definition client_channel_id :: "'a client_scheme \<Rightarrow> pystr" where
  "client_channel_id c = c_channel_id c"

section \<open>Connecting and closing\<close>

text \<open>\<open>connect\<close>, with the outcome of \<open>websockets.connect\<close>\<close>

definition connect :: "py_exn + unit \<Rightarrow> 'a client_scheme \<Rightarrow> 'a client_scheme \<times> (py_exn + unit)" where
  "connect out c =
     (if c_ws c then (c, raise RuntimeError ''already connected'')
      else case out of
        Inl e \<Rightarrow> (c, Inl e)
      | Inr _ \<Rightarrow> (c\<lparr>c_ws := True, c_reader := Starting\<rparr>, Inr ()))"

text \<open>
  \<open>wait_until_disconnected\<close>, when it is looked at: it raises, or ends with the reader (\<open>None\<close>
  while that runs).
\<close>

definition wait_until_disconnected :: "'a client_scheme \<Rightarrow> (py_exn + unit) option" where
  "wait_until_disconnected c =
     (case c_reader c of
        NoTask \<Rightarrow> Some (raise RuntimeError ''not connected'')
      | Ended \<Rightarrow> Some (Inr ())
      | Failed e \<Rightarrow> Some (Inl e)
      | _ \<Rightarrow> None)"

text \<open>
  \<open>close\<close>: the cancellation of the reader, which stops at its \<open>await\<close> (a task that has not run
  yet never enters the loop), and what follows once the reader has ended.
\<close>

definition close_begin :: "'a client_scheme \<Rightarrow> 'a client_scheme" where
  "close_begin c =
     (case c_reader c of
        Starting \<Rightarrow> c\<lparr>c_reader := Ended\<rparr>
      | Receiving \<Rightarrow> reader_stop None c
      | InHook _ \<Rightarrow> reader_stop None c
      | Replying \<Rightarrow> reader_stop None c
      | _ \<Rightarrow> c)"

definition close_cleanup :: "'a client_scheme \<Rightarrow> 'a client_scheme" where
  "close_cleanup c =
     (let c1 = (cancel_all (c_pending c) c)\<lparr>c_pending := []\<rparr>;
          c2 = relay_cleanup c1
      in c2\<lparr>c_chunks := Chunking.clear (c_chunks c2)\<rparr>)"

definition close_middle :: "'a client_scheme \<Rightarrow> 'a client_scheme \<times> (py_exn + unit)" where
  "close_middle c =
     (case c_reader c of
        Failed e \<Rightarrow> (c, Inl e)
      | _ \<Rightarrow> (close_cleanup (c\<lparr>c_reader := NoTask\<rparr>), Inr ()))"

text \<open>\<open>await self._ws.close()\<close> ends, or raises what is logged and dropped (a cancellation is not).\<close>

definition close_end :: "py_exn + unit \<Rightarrow> 'a client_scheme \<Rightarrow> 'a client_scheme \<times> (py_exn + unit)" where
  "close_end out c =
     (if \<not> c_ws c then (c, Inr ())
      else case out of
        Inl e \<Rightarrow> if is_exception e then (c\<lparr>c_ws := False\<rparr>, Inr ()) else (c, Inl e)
      | Inr _ \<Rightarrow> (c\<lparr>c_ws := False\<rparr>, Inr ()))"

definition close :: "py_exn + unit \<Rightarrow> 'a client_scheme \<Rightarrow> 'a client_scheme \<times> (py_exn + unit)" where
  "close out c =
     (case close_middle (close_begin c) of
        (c1, Inl e) \<Rightarrow> (c1, Inl e)
      | (c1, Inr _) \<Rightarrow> close_end out c1)"

end
