(* ===== verification/ClientFacts.thy ===== *)
theory ClientFacts
  imports ClientBase ChunkFacts
begin

text \<open>
  Invariant and lemmas of the client base (\<open>ClientBase\<close>): the tables of pending calls, of relay
  waiters and of stashed receipts are consistent, and every segment keeps them so.  The stash is an
  instance of the bounded table \<open>lru\<close>.
\<close>

section \<open>Futures\<close>

lemma cancel_future_eq:
  "cancel_future f c = c\<lparr>c_futs :=
     (\<lambda>g. if g = f \<and> c_futs c g = Waiting then Cancelled else c_futs c g)\<rparr>"
proof (cases "c_futs c f = Waiting")
  case True
  then show ?thesis by (simp add: cancel_future_def fun_upd_def) (metis (full_types))
next
  case False
  then have "(\<lambda>g. if g = f \<and> c_futs c g = Waiting then Cancelled else c_futs c g) = c_futs c"
    by auto
  with False show ?thesis by (simp add: cancel_future_def)
qed

lemma cancel_all_eq:
  "cancel_all d c = c\<lparr>c_futs :=
     (\<lambda>f. if f \<in> snd ` set d \<and> c_futs c f = Waiting then Cancelled else c_futs c f)\<rparr>"
proof -
  have "fold cancel_future fs c = c\<lparr>c_futs :=
     (\<lambda>f. if f \<in> set fs \<and> c_futs c f = Waiting then Cancelled else c_futs c f)\<rparr>" for fs
  proof (induction fs arbitrary: c)
    case (Cons f fs)
    have "fold cancel_future (f # fs) c = fold cancel_future fs (cancel_future f c)" by simp
    also have "\<dots> = c\<lparr>c_futs :=
       (\<lambda>g. if g \<in> set (f # fs) \<and> c_futs c g = Waiting then Cancelled else c_futs c g)\<rparr>"
      unfolding Cons.IH cancel_future_eq
      by simp (rule arg_cong [where f = "\<lambda>g. c\<lparr>c_futs := g\<rparr>"], auto)
    finally show ?case .
  qed simp
  then show ?thesis by (simp add: cancel_all_def)
qed

lemma map_of_value: "map_of d k = Some f \<Longrightarrow> f \<in> snd ` set d"
  by (force dest: map_of_SomeD)

lemma relay_cleanup_eq:
  "relay_cleanup c = c\<lparr>c_waiters := [], c_stash := [], c_futs :=
     (\<lambda>f. if f \<in> snd ` set (c_waiters c) \<and> c_futs c f = Waiting then Cancelled else c_futs c f)\<rparr>"
  by (simp add: relay_cleanup_def cancel_all_eq)

lemma reader_cleanup_eq:
  "reader_cleanup c = c\<lparr>c_pending := [], c_waiters := [], c_stash := [], c_futs :=
     (\<lambda>f. if f \<in> snd ` set (c_pending c) \<union> snd ` set (c_waiters c) \<and> c_futs c f = Waiting
          then Cancelled else c_futs c f)\<rparr>"
  by (simp add: reader_cleanup_def relay_cleanup_eq cancel_all_eq) (simp add: fun_eq_iff)

lemma close_cleanup_eq:
  "close_cleanup c = (reader_cleanup c)\<lparr>c_chunks := Chunking.clear (c_chunks c)\<rparr>"
  by (simp add: close_cleanup_def reader_cleanup_def relay_cleanup_eq cancel_all_eq Let_def)

section \<open>The invariant\<close>

definition tables_ok :: "'a client_scheme \<Rightarrow> bool" where
  "tables_ok c \<longleftrightarrow>
     wf_dict (c_pending c) \<and> wf_dict (c_waiters c) \<and> wf_dict (c_stash c) \<and>
     fst ` set (c_waiters c) \<inter> fst ` set (c_stash c) = {} \<and>
     int (length (c_stash c)) \<le> max 0 (c_stash_max c) \<and>
     wf_reassembler (c_chunks c)"

definition live_fut :: "'a client_scheme \<Rightarrow> nat \<Rightarrow> bool" where
  "live_fut c f \<longleftrightarrow> f < c_next_fut c \<and> (\<forall>r. c_futs c f \<noteq> Done r)"

definition futs_ok :: "'a client_scheme \<Rightarrow> bool" where
  "futs_ok c \<longleftrightarrow>
     (\<forall>k k' f. map_of (c_pending c) k = Some f \<and> map_of (c_pending c) k' = Some f \<longrightarrow> k = k') \<and>
     (\<forall>k k' f. map_of (c_waiters c) k = Some f \<and> map_of (c_waiters c) k' = Some f \<longrightarrow> k = k') \<and>
     (\<forall>k k' f. map_of (c_pending c) k = Some f \<longrightarrow> map_of (c_waiters c) k' \<noteq> Some f) \<and>
     (\<forall>k f. map_of (c_pending c) k = Some f \<or> map_of (c_waiters c) k = Some f \<longrightarrow> live_fut c f)"

definition client_ok :: "'a client_scheme \<Rightarrow> bool" where
  "client_ok c \<longleftrightarrow> tables_ok c \<and> futs_ok c"

lemma client_ok_tables:
  assumes "client_ok c"
  shows "wf_dict (c_pending c)" "wf_dict (c_waiters c)" "wf_dict (c_stash c)"
    "fst ` set (c_waiters c) \<inter> fst ` set (c_stash c) = {}"
    "int (length (c_stash c)) \<le> max 0 (c_stash_max c)" "wf_reassembler (c_chunks c)"
  using assms by (simp_all add: client_ok_def tables_ok_def)

lemma client_ok_irrelevant [simp]:
  "client_ok (c\<lparr>c_reader := r\<rparr>) = client_ok c"
  "client_ok (c\<lparr>c_sent := s\<rparr>) = client_ok c"
  "client_ok (c\<lparr>c_ws := w\<rparr>) = client_ok c"
  by (simp_all add: client_ok_def tables_ok_def futs_ok_def live_fut_def)

lemma new_client_ok: "new_client ch t n m = Inr c \<Longrightarrow> client_ok c"
  by (auto simp: new_client_def rbind_eq_Inr client_ok_def tables_ok_def futs_ok_def
      intro: new_reassembler_wf)

lemma futs_ok_cancel:
  assumes "futs_ok c" "\<And>f. g f = c_futs c f \<or> g f = Cancelled"
  shows "futs_ok (c\<lparr>c_futs := g\<rparr>)"
proof -
  have "live_fut (c\<lparr>c_futs := g\<rparr>) f" if "live_fut c f" for f
    using that assms(2) [of f] by (auto simp: live_fut_def)
  then show ?thesis using assms(1) unfolding futs_ok_def by simp
qed

lemma cancel_future_ok [simp, intro]: "client_ok c \<Longrightarrow> client_ok (cancel_future f c)"
  unfolding cancel_future_eq client_ok_def
  by (auto simp: tables_ok_def intro!: futs_ok_cancel)

lemma pop_pending_ok [simp, intro]:
  "client_ok c \<Longrightarrow> client_ok (c\<lparr>c_pending := dict_pop k (c_pending c)\<rparr>)"
  unfolding client_ok_def tables_ok_def futs_ok_def live_fut_def by (auto simp: fun_upd_def)

lemma pop_waiter_ok [simp, intro]:
  "client_ok c \<Longrightarrow> client_ok (c\<lparr>c_waiters := dict_pop k (c_waiters c)\<rparr>)"
  unfolding client_ok_def tables_ok_def futs_ok_def live_fut_def by (auto simp: fun_upd_def)

lemma pop_stash_ok [simp, intro]:
  assumes "client_ok c"
  shows "client_ok (c\<lparr>c_stash := dict_pop k (c_stash c)\<rparr>)"
proof -
  have "length (dict_pop k (c_stash c)) \<le> length (c_stash c)"
    using client_ok_tables(3) [OF assms] by (simp add: length_dict_pop)
  with assms show ?thesis
    by (auto simp: client_ok_def tables_ok_def futs_ok_def live_fut_def)
qed

lemma reader_cleanup_ok [simp, intro]: "client_ok c \<Longrightarrow> client_ok (reader_cleanup c)"
  by (simp add: reader_cleanup_eq client_ok_def tables_ok_def futs_ok_def)

lemma close_cleanup_ok [simp, intro]: "client_ok c \<Longrightarrow> client_ok (close_cleanup c)"
  by (simp add: close_cleanup_eq reader_cleanup_eq client_ok_def tables_ok_def futs_ok_def clear_wf)

lemma set_result_ok:
  assumes "client_ok c" "\<And>k. map_of (c_pending c) k \<noteq> Some f" "\<And>k. map_of (c_waiters c) k \<noteq> Some f"
  shows "client_ok (set_result f r c)"
proof -
  have "live_fut (set_result f r c) g" if "live_fut c g" "g \<noteq> f" for g
    using that by (simp add: live_fut_def set_result_def)
  with assms show ?thesis
    unfolding client_ok_def tables_ok_def futs_ok_def by (simp add: set_result_def) blast
qed

section \<open>Segments keep the invariant\<close>

lemma set_stash_ok:
  assumes "client_ok c" "wf_dict d" "fst ` set (c_waiters c) \<inter> fst ` set d = {}"
    and "int (length d) \<le> max 0 (c_stash_max c)"
  shows "client_ok (c\<lparr>c_stash := d\<rparr>)"
  using assms by (simp add: client_ok_def tables_ok_def futs_ok_def live_fut_def)

lemma stash_receipt_ok:
  assumes "client_ok c" "rid \<notin> fst ` set (c_waiters c)"
  shows "client_ok (stash_receipt rid r c)"
proof (cases "c_stash_max c \<le> 0")
  case False
  let ?d = "dict_pop rid (c_stash c) @ [(rid, r)]"
  have "wf_dict ?d" using client_ok_tables(3) [OF assms(1)]
    by (auto simp: wf_dict_def dict_pop_def AList.delete_eq distinct_map_filter)
  moreover have "fst ` set (evict_oldest (c_stash_max c) ?d) \<subseteq> insert rid (fst ` set (c_stash c))"
    using set_evict_oldest [of "c_stash_max c" ?d] by (auto simp: set_dict_pop)
  moreover have "int (length (evict_oldest (c_stash_max c) ?d)) \<le> c_stash_max c"
    using False by (intro length_evict_oldest) simp
  ultimately show ?thesis
    using assms client_ok_tables(4) [OF assms(1)] False unfolding stash_receipt_def
    by simp (intro set_stash_ok; auto)
qed (use assms in \<open>simp add: stash_receipt_def\<close>)

lemma futs_okD:
  assumes "client_ok c"
  shows "\<lbrakk>map_of (c_pending c) k = Some f; map_of (c_pending c) k' = Some f\<rbrakk> \<Longrightarrow> k' = k"
    and "\<lbrakk>map_of (c_waiters c) k = Some f; map_of (c_waiters c) k' = Some f\<rbrakk> \<Longrightarrow> k' = k"
    and "map_of (c_pending c) k = Some f \<Longrightarrow> map_of (c_waiters c) k' \<noteq> Some f"
    and "map_of (c_pending c) k = Some f \<Longrightarrow> live_fut c f"
    and "map_of (c_waiters c) k = Some f \<Longrightarrow> live_fut c f"
  using assms unfolding client_ok_def futs_ok_def by blast+

lemma relay_publish_ok [simp, intro]:
  assumes "client_ok c"
  shows "client_ok (relay_publish rid args c)"
proof -
  let ?c1 = "c\<lparr>c_waiters := dict_pop rid (c_waiters c)\<rparr>"
  have c1: "client_ok ?c1" using assms by (rule pop_waiter_ok)
  then have stash: "client_ok (stash_receipt rid r ?c1)" for r
    by (rule stash_receipt_ok) simp
  have "client_ok (set_result w r ?c1)" if "map_of (c_waiters c) rid = Some w" for w r
  proof (rule set_result_ok [OF c1])
    show "map_of (c_pending ?c1) k \<noteq> Some w" for k
      using futs_okD(3) [OF assms] that by auto
    show "map_of (c_waiters ?c1) k \<noteq> Some w" for k
      using futs_okD(2) [OF assms that] by auto
  qed
  with stash assms show ?thesis
    by (auto simp: relay_publish_def Let_def split: option.splits)
qed

lemma create_future_ok:
  assumes "client_ok c"
  shows "client_ok (snd (create_future c))" "fst (create_future c) = c_next_fut c"
    and "map_of (c_pending c) k \<noteq> Some (c_next_fut c)" "map_of (c_waiters c) k \<noteq> Some (c_next_fut c)"
proof -
  show *: "map_of (c_pending c) k \<noteq> Some (c_next_fut c)" "map_of (c_waiters c) k \<noteq> Some (c_next_fut c)"
    for k using futs_okD(4,5) [OF assms, of k "c_next_fut c"] by (auto simp: live_fut_def)
  have "live_fut (snd (create_future c)) f" if "live_fut c f" for f
    using that by (auto simp: live_fut_def create_future_def)
  with assms show "client_ok (snd (create_future c))"
    unfolding client_ok_def tables_ok_def futs_ok_def by (simp add: create_future_def)
qed (simp add: create_future_def)

lemma live_fut_tables [simp]:
  "live_fut (c\<lparr>c_pending := p\<rparr>) = live_fut c" "live_fut (c\<lparr>c_waiters := w\<rparr>) = live_fut c"
  by (simp_all add: live_fut_def fun_eq_iff)

lemma add_waiter_ok:
  assumes "client_ok c" "live_fut c f" "rid \<notin> fst ` set (c_stash c)"
    and "\<And>k. map_of (c_pending c) k \<noteq> Some f" "\<And>k. map_of (c_waiters c) k \<noteq> Some f"
  shows "client_ok (c\<lparr>c_waiters := dict_set rid f (c_waiters c)\<rparr>)"
  using assms unfolding client_ok_def tables_ok_def futs_ok_def
  by (simp add: fun_upd_def) (intro allI impI conjI; metis option.inject)

lemma add_pending_ok:
  assumes "client_ok c" "live_fut c f"
    and "\<And>k. map_of (c_pending c) k \<noteq> Some f" "\<And>k. map_of (c_waiters c) k \<noteq> Some f"
  shows "client_ok (c\<lparr>c_pending := dict_set cid f (c_pending c)\<rparr>)"
  using assms unfolding client_ok_def tables_ok_def futs_ok_def
  by (simp add: fun_upd_def)

lemma created_simps:
  "c_pending (snd (create_future c)) = c_pending c" "c_waiters (snd (create_future c)) = c_waiters c"
  "c_stash (snd (create_future c)) = c_stash c" "c_sent (snd (create_future c)) = c_sent c"
  "live_fut (snd (create_future c)) (c_next_fut c)"
  by (simp_all add: create_future_def live_fut_def)

lemma wait_relay_begin_ok [simp, intro]:
  assumes "client_ok c"
  shows "client_ok (fst (wait_relay_begin rid c))"
proof -
  note cf = create_future_ok [OF assms]
  let ?c1 = "snd (create_future c)"
  have "client_ok (?c1\<lparr>c_waiters := dict_set rid (c_next_fut c) (c_waiters ?c1)\<rparr>)"
    if "map_of (c_stash c) rid = None"
    using that cf(1,3,4) by (intro add_waiter_ok) (simp_all add: created_simps map_of_eq_None_iff)
  with assms cf(2) show ?thesis
    by (auto simp: wait_relay_begin_def split_beta Let_def split: option.splits)
qed

lemma wait_relay_end_ok [simp, intro]: "client_ok c \<Longrightarrow> client_ok (fst (wait_relay_end rid f out c))"
  by (simp add: wait_relay_end_def)

lemma call_cleanup_ok [simp, intro]: "client_ok c \<Longrightarrow> client_ok (call_cleanup cid f c)"
  by (simp add: call_cleanup_def)

lemma call_remote_begin_ok [simp, intro]:
  assumes "client_ok c"
  shows "client_ok (fst (call_remote_begin L cid m args c))"
proof -
  note cf = create_future_ok [OF assms]
  let ?c2 = "(snd (create_future c))\<lparr>c_pending := dict_set cid (c_next_fut c) (c_pending c)\<rparr>"
  have c2: "client_ok ?c2"
    using add_pending_ok [OF cf(1), of "c_next_fut c" cid] cf(3,4) by (simp add: created_simps)
  then have "client_ok (?c2\<lparr>c_sent := s\<rparr>)" for s by simp
  with assms cf(2) c2 show ?thesis
    by (auto simp: call_remote_begin_def split_beta Let_def created_simps split: sum.splits)
qed

lemma call_remote_end_ok [simp, intro]: "client_ok c \<Longrightarrow> client_ok (fst (call_remote_end cid f out c))"
  by (simp add: call_remote_end_def)

lemma try_complete_pending_ok [simp, intro]:
  assumes "client_ok c"
  shows "client_ok (fst (try_complete_pending L msg c))"
proof -
  have "client_ok (set_result f r (c\<lparr>c_pending := dict_pop cid (c_pending c)\<rparr>))"
    if "map_of (c_pending c) cid = Some f" for f r cid
  proof (rule set_result_ok)
    show "client_ok (c\<lparr>c_pending := dict_pop cid (c_pending c)\<rparr>)" using assms by (rule pop_pending_ok)
    show "map_of (c_pending (c\<lparr>c_pending := dict_pop cid (c_pending c)\<rparr>)) k \<noteq> Some f" for k
      using futs_okD(1) [OF assms that] by auto
    show "map_of (c_waiters (c\<lparr>c_pending := dict_pop cid (c_pending c)\<rparr>)) k \<noteq> Some f" for k
      using futs_okD(3) [OF assms that] by auto
  qed
  with assms show ?thesis
    by (auto simp: try_complete_pending_def Let_def split: pyval.splits option.splits)
qed

lemma set_chunks_ok [simp]:
  "client_ok c \<Longrightarrow> wf_reassembler R \<Longrightarrow> client_ok (c\<lparr>c_chunks := R\<rparr>)"
  by (simp add: client_ok_def tables_ok_def futs_ok_def live_fut_def)

lemma deliver_envelope_ok [simp, intro]: "client_ok c \<Longrightarrow> client_ok (fst (deliver_envelope L args c))"
  by (simp add: deliver_envelope_def)

lemma invoke_receive_envelope_ok [simp, intro]:
  assumes "client_ok c"
  shows "client_ok (fst (invoke_receive_envelope L args c))"
proof -
  have "client_ok (c\<lparr>c_chunks := fst (push L body (c_chunks c))\<rparr>)" for body
    by (intro set_chunks_ok conjunct1 [OF push_wf] client_ok_tables(6) assms)
  with assms show ?thesis
    by (auto simp: invoke_receive_envelope_def Let_def split_beta
        split: pyval.splits sum.splits bool.splits option.splits)
qed

lemma dispatch_inbound_ok [simp, intro]:
  assumes "client_ok c"
  shows "client_ok (fst (dispatch_inbound L msg c))"
proof (cases "extract_request L msg")
  case (Some req)
  let ?args = "case rq_arguments req of None \<Rightarrow> [] | Some a \<Rightarrow> a"
  obtain c1 r where i: "invoke_receive_envelope L ?args c = (c1, r)" by fastforce
  then have "client_ok c1" using invoke_receive_envelope_ok [OF assms, of L ?args] by simp
  with Some i assms show ?thesis
    by (simp add: dispatch_inbound_def split: sum.split invocation.split)
qed (simp add: dispatch_inbound_def assms)

lemma handle_message_ok [simp, intro]:
  "client_ok c \<Longrightarrow> client_ok (fst (handle_message L msg c))"
  using try_complete_pending_ok [of c L msg]
  by (cases "try_complete_pending L msg c") (auto simp: handle_message_def split: bool.splits)

lemma handle_frame_ok [simp, intro]: "client_ok c \<Longrightarrow> client_ok (fst (handle_frame L raw c))"
  by (auto simp: handle_frame_def split: frame.splits sum.splits pyval.splits)

lemma reader_stop_ok [simp, intro]: "client_ok c \<Longrightarrow> client_ok (reader_stop e c)"
  by (simp add: reader_stop_def)

lemma reader_goto_ok [simp, intro]: "client_ok c \<Longrightarrow> client_ok (reader_goto a c)"
proof -
  have "client_ok (c\<lparr>c_sent := s, c_reader := r\<rparr>) = client_ok c" for s r
    by (simp add: client_ok_def tables_ok_def futs_ok_def live_fut_def)
  then show "client_ok c \<Longrightarrow> client_ok (reader_goto a c)"
    by (cases a) (simp_all add: reader_goto_def)
qed

lemma reader_frame_ok [simp, intro]: "client_ok c \<Longrightarrow> client_ok (reader_frame L raw c)"
  using handle_frame_ok [of c L raw] by (cases "handle_frame L raw c") (simp add: reader_frame_def)

lemma hook_return_ok [simp, intro]: "client_ok c \<Longrightarrow> client_ok (hook_return L cid out c)"
  by (auto simp: hook_return_def split: sum.splits)

lemma close_begin_ok [simp, intro]: "client_ok c \<Longrightarrow> client_ok (close_begin c)"
  by (auto simp: close_begin_def split: reader.splits)

lemma close_middle_ok [simp, intro]: "client_ok c \<Longrightarrow> client_ok (fst (close_middle c))"
  by (auto simp: close_middle_def split: reader.splits)

lemma close_end_ok [simp, intro]: "client_ok c \<Longrightarrow> client_ok (fst (close_end out c))"
  by (auto simp: close_end_def split: sum.splits)

lemma connect_ok [simp, intro]: "client_ok c \<Longrightarrow> client_ok (fst (connect out c))"
proof -
  have "client_ok (c\<lparr>c_ws := s, c_reader := r\<rparr>) = client_ok c" for s r
    by (simp add: client_ok_def tables_ok_def futs_ok_def live_fut_def)
  then show "client_ok c \<Longrightarrow> client_ok (fst (connect out c))"
    by (auto simp: connect_def split: sum.splits)
qed

section \<open>The stash as a bounded table\<close>

text \<open>The two operations on receipts, and the stash as a bounded table.\<close>

datatype relay_op = Publish pystr pydict | Take pystr

fun relay_step :: "relay_op \<Rightarrow> 'a client_scheme \<Rightarrow> 'a client_scheme" where
  "relay_step (Publish rid args) c = relay_publish rid args c"
| "relay_step (Take rid) c = fst (wait_relay_begin rid c)"

fun relay_key :: "relay_op \<Rightarrow> pystr" where
  "relay_key (Publish rid _) = rid"
| "relay_key (Take rid) = rid"

lemma stash_max_simps [simp]:
  "c_stash_max (set_result f r c) = c_stash_max c" "c_stash (set_result f r c) = c_stash c"
  "c_stash_max (snd (create_future c)) = c_stash_max c"
  by (simp_all add: set_result_def create_future_def)

lemma stash_relay_publish:
  "c_stash (relay_publish rid args c) \<in>
     {c_stash c, evict_oldest (c_stash_max c) (dict_pop rid (c_stash c) @ [(rid, relay_receipt args)])} \<and>
   (c_stash_max c \<le> 0 \<longrightarrow> c_stash (relay_publish rid args c) = c_stash c) \<and>
   c_stash_max (relay_publish rid args c) = c_stash_max c"
  by (simp add: relay_publish_def stash_receipt_def Let_def split: option.split)

lemma stash_wait_begin:
  "c_stash (fst (wait_relay_begin rid c)) \<in> {c_stash c, dict_pop rid (c_stash c)} \<and>
   c_stash_max (fst (wait_relay_begin rid c)) = c_stash_max c"
  by (auto simp: wait_relay_begin_def Let_def split_beta created_simps split: option.split)

lemma keys_dict_pop_list: "map fst (dict_pop k d) = removeAll k (map fst d)"
  by (simp add: dict_pop_def AList.delete_keys)

lemma keys_stash_evict:
  assumes "0 < n"
  shows "map fst (evict_oldest n (dict_pop k d @ [(k, v)])) = refresh (nat n) k (map fst d)"
proof -
  have "length (removeAll k (map fst d)) = length (dict_pop k d)"
    by (metis keys_dict_pop_list length_map)
  with assms show ?thesis
    by (simp add: evict_oldest_drop refresh_def Let_def drop_map [symmetric] keys_dict_pop_list del: drop_append)
qed

interpretation relay_stash: lru "\<lambda>c. map fst (c_stash c)" "\<lambda>c. map_of (c_stash c)" relay_step relay_key
  "\<lambda>c. nat (c_stash_max c)" client_ok
proof
  fix c :: "'a client_scheme" and a k
  assume ok: "client_ok c"
  show "client_ok (relay_step a c)" using ok by (cases a) simp_all
  show "distinct (map fst (c_stash c))" using client_ok_tables(3) [OF ok] by (simp add: wf_dict_def)
  show "length (map fst (c_stash c)) \<le> nat (c_stash_max c)" using client_ok_tables(5) [OF ok] by simp
  show "map fst (c_stash (relay_step a c)) \<in> {map fst (c_stash c), removeAll (relay_key a) (map fst (c_stash c)),
      refresh (nat (c_stash_max c)) (relay_key a) (map fst (c_stash c)),
      removeAll (relay_key a) (refresh (nat (c_stash_max c)) (relay_key a) (map fst (c_stash c)))}"
  proof (cases a)
    case (Publish rid args)
    with stash_relay_publish [of rid args c] keys_stash_evict [of "c_stash_max c" rid "c_stash c" "relay_receipt args"]
    show ?thesis by (cases "c_stash_max c \<le> 0") auto
  next
    case (Take rid)
    with stash_wait_begin [of rid c] show ?thesis by (auto simp: keys_dict_pop_list)
  qed
  assume k: "k \<noteq> relay_key a" "k \<in> set (map fst (c_stash (relay_step a c)))"
  then obtain v where v: "map_of (c_stash (relay_step a c)) k = Some v"
    by (metis list.set_map map_of_eq_None_iff not_None_eq)
  have wf: "wf_dict (c_stash c)" by (rule client_ok_tables(3) [OF ok])
  show "map_of (c_stash (relay_step a c)) k = map_of (c_stash c) k"
  proof (cases a)
    case (Publish rid args)
    let ?d = "dict_pop rid (c_stash c) @ [(rid, relay_receipt args)]"
    have "wf_dict ?d" using wf
      by (auto simp: wf_dict_def dict_pop_def AList.delete_eq distinct_map_filter)
    then have "map_of (evict_oldest (c_stash_max c) ?d) k = Some v \<Longrightarrow> map_of ?d k = Some v"
      by (rule map_of_evict_oldest)
    moreover have "map_of ?d k = map_of (c_stash c) k"
      using k(1) Publish unfolding map_of_snoc_pop by simp
    ultimately show ?thesis using v Publish stash_relay_publish [of rid args c] by auto
  next
    case (Take rid)
    with stash_wait_begin [of rid c] k(1) show ?thesis by auto
  qed
next
  fix c :: "'a client_scheme" and a
  show "nat (c_stash_max (relay_step a c)) = nat (c_stash_max c)"
    by (cases a) (simp_all add: stash_relay_publish stash_wait_begin)
qed

end
