(* ===== verification/ClientSteps.thy ===== *)
theory ClientSteps
  imports ClientFacts
begin

text \<open>
  All interleavings of the client's coroutines (\<open>client/base.py\<close>): the reader task, any number of
  calls and of relay waits, one \<open>close\<close>, and \<open>connect\<close>.  A state is the client with the coroutines
  that are suspended, the frames received so far and the calls that have ended; a step runs one
  segment of one of them.

  What a step is allowed is no less than what the event loop, the server and the callers may do: a
  future may be cancelled at any time (its timeout, or the cancellation of the coroutine), and an
  \<open>await\<close> may end with any exception, but with a value only if its future has it.
\<close>

section \<open>The step relation\<close>

record task =
  t_id :: pystr
  t_fut :: nat
  t_start :: nat \<comment> \<open>frames received before it started\<close>

datatype closing = NotClosing | AwaitingReader | AwaitingSocket

record world =
  w_client :: client
  w_calls :: "task list"
  w_waits :: "task list"
  w_closing :: closing
  w_frames :: "frame list"
  w_ended :: "(task \<times> (py_exn + pyval)) list"

definition start_world :: "client \<Rightarrow> world" where
  "start_world c = \<lparr>w_client = c, w_calls = [], w_waits = [], w_closing = NotClosing, w_frames = [], w_ended = []\<rparr>"

definition running :: "reader \<Rightarrow> bool" where
  "running r \<longleftrightarrow> (case r of NoTask \<Rightarrow> False | Ended \<Rightarrow> False | Failed _ \<Rightarrow> False | _ \<Rightarrow> True)"

text \<open>The outcomes of \<open>await fut\<close> (or of the send before it, or of the timeout around it).\<close>

definition await_outcome :: "fut \<Rightarrow> py_exn + pydict \<Rightarrow> bool" where
  "await_outcome f out \<longleftrightarrow> (case out of Inl _ \<Rightarrow> True | Inr r \<Rightarrow> f = Done r)"

inductive step :: "pylib \<Rightarrow> world \<Rightarrow> world \<Rightarrow> bool" for L where
  connect: "connect out (w_client w) = (c, r) \<Longrightarrow> step L w (w\<lparr>w_client := c\<rparr>)"
| reader_start: "c_reader (w_client w) = Starting \<Longrightarrow>
    step L w (w\<lparr>w_client := (w_client w)\<lparr>c_reader := Receiving\<rparr>\<rparr>)"
| frame: "c_reader (w_client w) = Receiving \<Longrightarrow>
    step L w (w\<lparr>w_client := reader_frame L raw (w_client w), w_frames := w_frames w @ [raw]\<rparr>)"
| closed: "c_reader (w_client w) = Receiving \<Longrightarrow>
    step L w (w\<lparr>w_client := reader_stop None (w_client w)\<rparr>)"
| recv_raises: "c_reader (w_client w) = Receiving \<Longrightarrow>
    step L w (w\<lparr>w_client := reader_stop (Some e) (w_client w)\<rparr>)"
| hook_returns: "c_reader (w_client w) = InHook cid \<Longrightarrow>
    step L w (w\<lparr>w_client := hook_return L cid out (w_client w)\<rparr>)"
| reply_sent: "c_reader (w_client w) = Replying \<Longrightarrow>
    step L w (w\<lparr>w_client := (w_client w)\<lparr>c_reader := Receiving\<rparr>\<rparr>)"
| reply_raises: "c_reader (w_client w) = Replying \<Longrightarrow>
    step L w (w\<lparr>w_client := reader_stop (Some e) (w_client w)\<rparr>)"
| call_begins: "call_remote_begin L cid m args (w_client w) = (c, Inr f) \<Longrightarrow>
    cid \<notin> t_id ` set (w_calls w) \<Longrightarrow>
    step L w (w\<lparr>w_client := c,
      w_calls := \<lparr>t_id = cid, t_fut = f, t_start = length (w_frames w)\<rparr> # w_calls w\<rparr>)"
| call_refused: "call_remote_begin L cid m args (w_client w) = (c, Inl e) \<Longrightarrow>
    cid \<notin> t_id ` set (w_calls w) \<Longrightarrow> step L w (w\<lparr>w_client := c\<rparr>)"
| call_ends: "t \<in> set (w_calls w) \<Longrightarrow> await_outcome (c_futs (w_client w) (t_fut t)) out \<Longrightarrow>
    call_remote_end (t_id t) (t_fut t) out (w_client w) = (c, r) \<Longrightarrow>
    step L w (w\<lparr>w_client := c, w_calls := remove1 t (w_calls w), w_ended := (t, r) # w_ended w\<rparr>)"
| wait_begins: "wait_relay_begin rid (w_client w) = (c, Inr (Suspended f)) \<Longrightarrow>
    step L w (w\<lparr>w_client := c,
      w_waits := \<lparr>t_id = rid, t_fut = f, t_start = length (w_frames w)\<rparr> # w_waits w\<rparr>)"
| wait_returns: "wait_relay_begin rid (w_client w) = (c, r) \<Longrightarrow> (\<And>f. r \<noteq> Inr (Suspended f)) \<Longrightarrow>
    step L w (w\<lparr>w_client := c\<rparr>)"
| wait_ends: "t \<in> set (w_waits w) \<Longrightarrow> await_outcome (c_futs (w_client w) (t_fut t)) out \<Longrightarrow>
    wait_relay_end (t_id t) (t_fut t) out (w_client w) = (c, r) \<Longrightarrow>
    step L w (w\<lparr>w_client := c, w_waits := remove1 t (w_waits w)\<rparr>)"
| future_cancelled: "t \<in> set (w_calls w @ w_waits w) \<Longrightarrow>
    step L w (w\<lparr>w_client := cancel_future (t_fut t) (w_client w)\<rparr>)"
| close_begins: "w_closing w = NotClosing \<Longrightarrow> step L w (w\<lparr>w_closing := AwaitingReader\<rparr>)"
| reader_cancelled: "w_closing w = AwaitingReader \<Longrightarrow> running (c_reader (w_client w)) \<Longrightarrow>
    step L w (w\<lparr>w_client := close_begin (w_client w)\<rparr>)"
| close_proceeds: "w_closing w = AwaitingReader \<Longrightarrow> \<not> running (c_reader (w_client w)) \<Longrightarrow>
    close_middle (w_client w) = (c, Inr u) \<Longrightarrow> step L w (w\<lparr>w_client := c, w_closing := AwaitingSocket\<rparr>)"
| close_raises: "w_closing w = AwaitingReader \<Longrightarrow> \<not> running (c_reader (w_client w)) \<Longrightarrow>
    close_middle (w_client w) = (c, Inl e) \<Longrightarrow> step L w (w\<lparr>w_client := c, w_closing := NotClosing\<rparr>)"
| close_ends: "w_closing w = AwaitingSocket \<Longrightarrow> close_end out (w_client w) = (c, r) \<Longrightarrow>
    step L w (w\<lparr>w_client := c, w_closing := NotClosing\<rparr>)"

inductive reachable :: "pylib \<Rightarrow> client \<Rightarrow> world \<Rightarrow> bool" for L c0 where
  start: "reachable L c0 (start_world c0)"
| more: "reachable L c0 w \<Longrightarrow> step L w w' \<Longrightarrow> reachable L c0 w'"

section \<open>The table invariant is kept\<close>

lemma step_client_ok:
  assumes "step L w w'" "client_ok (w_client w)"
  shows "client_ok (w_client w')"
  using assms
proof (cases rule: step.cases)
  case (connect out c r)
  then show ?thesis using connect_ok [OF assms(2), of out] by simp
next
  case (call_begins cid m args c f)
  then show ?thesis using call_remote_begin_ok [OF assms(2), of L cid m args] by simp
next
  case (call_refused cid m args c e)
  then show ?thesis using call_remote_begin_ok [OF assms(2), of L cid m args] by simp
next
  case (call_ends t out c r)
  then show ?thesis using call_remote_end_ok [OF assms(2), of "t_id t" "t_fut t" out] by simp
next
  case (wait_begins rid c f)
  then show ?thesis using wait_relay_begin_ok [OF assms(2), of rid] by simp
next
  case (wait_returns rid c r)
  then show ?thesis using wait_relay_begin_ok [OF assms(2), of rid] by simp
next
  case (wait_ends t out c r)
  then show ?thesis using wait_relay_end_ok [OF assms(2), of "t_id t" "t_fut t" out] by simp
next
  case (close_proceeds c u)
  then show ?thesis using close_middle_ok [OF assms(2)] by simp
next
  case (close_raises c e)
  then show ?thesis using close_middle_ok [OF assms(2)] by simp
next
  case (close_ends out c r)
  then show ?thesis using close_end_ok [OF assms(2), of out] by simp
qed auto

lemma reachable_client_ok:
  "reachable L c0 w \<Longrightarrow> client_ok c0 \<Longrightarrow> client_ok (w_client w)"
  by (induction rule: reachable.induct) (simp_all add: start_world_def step_client_ok)

end
