(* ===== verification/ClientCalls.thy ===== *)
theory ClientCalls
  imports ClientSteps
begin

text \<open>
  Calls, relay waits and their futures (\<open>client/base.py\<close>): what a segment of the reader or of
  \<open>close\<close> may do to them (\<open>settles\<close>), and the invariant that ties the coroutines in progress to
  the tables of the client.
\<close>

section \<open>What the reader and close do to futures\<close>

text \<open>
  \<open>settles P c c'\<close>: from \<open>c\<close> to \<open>c'\<close> the tables only lose entries, a future that is still
  waiting keeps its entries, and a future gets a result only as \<open>P\<close> says.
\<close>

definition settles :: "(nat \<Rightarrow> pydict \<Rightarrow> bool) \<Rightarrow> 'a client_scheme \<Rightarrow> 'a client_scheme \<Rightarrow> bool" where
  "settles P c c' \<longleftrightarrow>
     c_next_fut c \<le> c_next_fut c' \<and>
     map_of (c_pending c') \<subseteq>\<^sub>m map_of (c_pending c) \<and>
     map_of (c_waiters c') \<subseteq>\<^sub>m map_of (c_waiters c) \<and>
     (\<forall>f. c_futs c' f = Waiting \<longrightarrow> c_futs c f = Waiting \<and>
        (\<forall>k. map_of (c_pending c) k = Some f \<longrightarrow> map_of (c_pending c') k = Some f) \<and>
        (\<forall>k. map_of (c_waiters c) k = Some f \<longrightarrow> map_of (c_waiters c') k = Some f)) \<and>
     (\<forall>f r. c_futs c' f = Done r \<longrightarrow> c_futs c f = Done r \<or> P f r)"

lemma settlesD:
  assumes "settles P c c'"
  shows "c_next_fut c \<le> c_next_fut c'"
    "map_of (c_pending c') k = Some f \<Longrightarrow> map_of (c_pending c) k = Some f"
    "map_of (c_waiters c') k = Some f \<Longrightarrow> map_of (c_waiters c) k = Some f"
    "c_futs c' f = Waiting \<Longrightarrow> c_futs c f = Waiting"
    "c_futs c' f = Waiting \<Longrightarrow> map_of (c_pending c) k = Some f \<Longrightarrow> map_of (c_pending c') k = Some f"
    "c_futs c' f = Waiting \<Longrightarrow> map_of (c_waiters c) k = Some f \<Longrightarrow> map_of (c_waiters c') k = Some f"
    "c_futs c' f = Done r \<Longrightarrow> c_futs c f = Done r \<or> P f r"
proof -
  have le: "m \<subseteq>\<^sub>m m' \<Longrightarrow> m x = Some y \<Longrightarrow> m' x = Some y" for m m' :: "pystr \<rightharpoonup> nat" and x y
    by (force simp: map_le_def)
  from assms show "c_next_fut c \<le> c_next_fut c'" unfolding settles_def by blast
  have maps: "map_of (c_pending c') \<subseteq>\<^sub>m map_of (c_pending c)" "map_of (c_waiters c') \<subseteq>\<^sub>m map_of (c_waiters c)"
    using assms unfolding settles_def by blast+
  show "map_of (c_pending c') k = Some f \<Longrightarrow> map_of (c_pending c) k = Some f"
    by (rule le [OF maps(1)])
  show "map_of (c_waiters c') k = Some f \<Longrightarrow> map_of (c_waiters c) k = Some f"
    by (rule le [OF maps(2)])
  from assms show "c_futs c' f = Waiting \<Longrightarrow> c_futs c f = Waiting"
    "c_futs c' f = Waiting \<Longrightarrow> map_of (c_pending c) k = Some f \<Longrightarrow> map_of (c_pending c') k = Some f"
    "c_futs c' f = Waiting \<Longrightarrow> map_of (c_waiters c) k = Some f \<Longrightarrow> map_of (c_waiters c') k = Some f"
    "c_futs c' f = Done r \<Longrightarrow> c_futs c f = Done r \<or> P f r"
    unfolding settles_def by blast+
qed

lemma settles_refl [simp, intro]: "settles P c c"
  by (simp add: settles_def)

lemma settles_trans:
  assumes "settles P c c1" "settles Q c1 c2" "\<And>f r. Q f r \<Longrightarrow> P f r"
  shows "settles P c c2"
proof -
  have "c_futs c f = Done r \<or> P f r" if "c_futs c2 f = Done r" for f r
    using settlesD(7) [OF assms(2) that] settlesD(7) [OF assms(1)] assms(3) by blast
  with assms(1,2) show ?thesis unfolding settles_def by (auto intro: map_le_trans)
qed

lemma settles_mono: "settles P c c' \<Longrightarrow> (\<And>f r. P f r \<Longrightarrow> Q f r) \<Longrightarrow> settles Q c c'"
  unfolding settles_def by blast

lemma settles_other [simp]:
  "settles P c (c'\<lparr>c_reader := x\<rparr>) = settles P c c'"
  "settles P c (c'\<lparr>c_sent := s\<rparr>) = settles P c c'"
  "settles P c (c'\<lparr>c_ws := b\<rparr>) = settles P c c'"
  "settles P c (c'\<lparr>c_stash := d\<rparr>) = settles P c c'"
  "settles P c (c'\<lparr>c_chunks := R\<rparr>) = settles P c c'"
  by (simp_all add: settles_def)

lemma settles_other' [simp]:
  "settles P (c\<lparr>c_chunks := R\<rparr>) c' = settles P c c'"
  "settles P (c\<lparr>c_reader := x\<rparr>) c' = settles P c c'"
  by (simp_all add: settles_def)

lemma settles_cancel_future [simp, intro]: "settles P c (cancel_future f c)"
  by (simp add: settles_def cancel_future_eq)

lemma settles_reader_cleanup [simp, intro]: "settles P c (reader_cleanup c)"
  by (auto simp: settles_def reader_cleanup_eq dest: map_of_value)

lemma settles_reader_stop [simp, intro]: "settles P c (reader_stop e c)"
  by (simp add: reader_stop_def)

lemma settles_relay_publish:
  "settles (\<lambda>f _. \<exists>k. map_of (c_waiters c) k = Some f) c (relay_publish rid args c)"
proof (cases "py_strip rid = []")
  case True
  then show ?thesis by (simp add: relay_publish_def)
next
  case False
  let ?P = "\<lambda>f _. \<exists>k. map_of (c_waiters c) k = Some f"
  let ?c1 = "c\<lparr>c_waiters := dict_pop rid (c_waiters c)\<rparr>"
  have pop: "settles ?P c (?c1\<lparr>c_futs := g\<rparr>)"
    if "\<And>w. map_of (c_waiters c) rid = Some w \<Longrightarrow> g w \<noteq> Waiting"
      "\<And>f. (\<forall>k. map_of (c_waiters c) k \<noteq> Some f) \<Longrightarrow> g f = c_futs c f"
      "\<And>f. g f = Waiting \<Longrightarrow> c_futs c f = Waiting" for g
    using that unfolding settles_def map_le_def by (auto simp: dom_def split: if_splits)
  have stash: "settles ?P c (stash_receipt rid r ?c1)"
    if "\<And>w. map_of (c_waiters c) rid = Some w \<Longrightarrow> c_futs c w \<noteq> Waiting" for r
    using pop [of "c_futs c"] that by (simp add: stash_receipt_def)
  show ?thesis
  proof (cases "map_of (c_waiters c) rid")
    case None
    then show ?thesis using stash False by (simp add: relay_publish_def Let_def)
  next
    case (Some w)
    have "settles ?P c (?c1\<lparr>c_futs := (c_futs c)(w := Done r)\<rparr>)" for r
      by (rule pop) (use Some in \<open>auto split: if_splits\<close>)
    then have "settles ?P c (set_result w r ?c1)" for r
      by (simp add: set_result_def)
    then show ?thesis
      using stash False Some by (simp add: relay_publish_def Let_def)
  qed
qed

definition answers :: "pylib \<Rightarrow> pystr \<Rightarrow> pydict \<Rightarrow> pydict \<Rightarrow> bool" where
  "answers L cid resp msg \<longleftrightarrow>
     get msg ''response'' = PDict resp \<and> get resp ''call_id'' \<noteq> PNone \<and>
     lib_str L (get resp ''call_id'') = cid"

lemma settles_pop_pending:
  assumes "map_of (c_pending c) k = Some f"
    and "\<And>k'. map_of (c_pending c) k' = Some f \<Longrightarrow> k' = k"
    and "g f \<noteq> Waiting" "\<And>h. h \<noteq> f \<Longrightarrow> g h = c_futs c h"
    and "\<And>r. g f = Done r \<Longrightarrow> c_futs c f = Done r \<or> P f r"
  shows "settles P c (c\<lparr>c_pending := dict_pop k (c_pending c), c_futs := g\<rparr>)"
proof -
  have "c_futs c h = Waiting \<and> (\<forall>k'. map_of (c_pending c) k' = Some h \<longrightarrow> k' \<noteq> k)"
    if "g h = Waiting" for h
    using that assms(1,3,4) by (metis option.inject)
  moreover have "c_futs c h = Done r \<or> P h r" if "g h = Done r" for h r
    using that assms(4) [of h] assms(5) [of r] by metis
  ultimately show ?thesis by (simp add: settles_def)
qed

lemma settles_try_complete:
  assumes "client_ok c"
  shows "settles (\<lambda>f r. \<exists>k. map_of (c_pending c) k = Some f \<and> answers L k r msg) c
    (fst (try_complete_pending L msg c))" (is "settles ?P _ _")
proof (cases "\<exists>resp. get msg ''response'' = PDict resp \<and> get resp ''call_id'' \<noteq> PNone")
  case False
  then show ?thesis by (auto simp: try_complete_pending_def split: pyval.split)
next
  case True
  then obtain resp where r: "get msg ''response'' = PDict resp" "get resp ''call_id'' \<noteq> PNone" by blast
  let ?cid = "lib_str L (get resp ''call_id'')"
  have a: "answers L ?cid resp msg" using r by (simp add: answers_def)
  show ?thesis
  proof (cases "map_of (c_pending c) ?cid")
    case None
    then show ?thesis using r by (simp add: try_complete_pending_def)
  next
    case (Some f)
    let ?c1 = "c\<lparr>c_pending := dict_pop ?cid (c_pending c)\<rparr>"
    from Some have "fst (try_complete_pending L msg c) =
      (let c1 = c\<lparr>c_pending := dict_pop ?cid (c_pending c)\<rparr>
       in if c_futs c f = Waiting then set_result f resp c1 else c1)"
      using r by (simp add: try_complete_pending_def Let_def)
    moreover have "settles ?P c (?c1\<lparr>c_futs := c_futs c\<rparr>)" if "c_futs c f \<noteq> Waiting"
      by (rule settles_pop_pending [OF Some futs_okD(1) [OF assms Some]]) (use that in auto)
    moreover have "settles ?P c (?c1\<lparr>c_futs := (c_futs c)(f := Done resp)\<rparr>)"
      by (rule settles_pop_pending [OF Some futs_okD(1) [OF assms Some]])
        (use Some a futs_okD(3) [OF assms Some] in auto)
    ultimately show ?thesis by (auto simp: Let_def set_result_def)
  qed
qed

lemma settles_deliver:
  "settles (\<lambda>f _. \<exists>k. map_of (c_waiters c) k = Some f) c (fst (deliver_envelope L args c))"
  by (simp add: deliver_envelope_def settles_relay_publish)

lemma settles_invoke:
  "settles (\<lambda>f _. \<exists>k. map_of (c_waiters c) k = Some f) c (fst (invoke_receive_envelope L args c))"
  using settles_deliver [of c L] settles_deliver [of "c\<lparr>c_chunks := R\<rparr>" L for R]
  by (auto simp: invoke_receive_envelope_def Let_def split_beta
      split: pyval.split sum.split bool.split option.split)

lemma settles_dispatch:
  "settles (\<lambda>f _. \<exists>k. map_of (c_waiters c) k = Some f) c (fst (dispatch_inbound L msg c))"
proof (cases "extract_request L msg")
  case (Some req)
  let ?args = "case rq_arguments req of None \<Rightarrow> [] | Some a \<Rightarrow> a"
  obtain c1 r where i: "invoke_receive_envelope L ?args c = (c1, r)" by fastforce
  with settles_invoke [of c L ?args] Some show ?thesis
    by (simp add: dispatch_inbound_def split: sum.split invocation.split)
qed (simp add: dispatch_inbound_def)

definition frame_answers :: "pylib \<Rightarrow> pystr \<Rightarrow> pydict \<Rightarrow> frame \<Rightarrow> bool" where
  "frame_answers L cid resp raw \<longleftrightarrow>
     (\<exists>s msg. raw = Text s \<and> loads_message L s = Inr (PDict msg) \<and> answers L cid resp msg)"

definition frame_settles :: "pylib \<Rightarrow> frame \<Rightarrow> client \<Rightarrow> nat \<Rightarrow> pydict \<Rightarrow> bool" where
  "frame_settles L raw c f r \<longleftrightarrow>
     (\<exists>k. map_of (c_pending c) k = Some f \<and> frame_answers L k r raw) \<or>
     (\<exists>k. map_of (c_waiters c) k = Some f)"

lemma settles_handle_message:
  assumes "client_ok c"
  shows "settles (\<lambda>f r. (\<exists>k. map_of (c_pending c) k = Some f \<and> answers L k r msg) \<or>
     (\<exists>k. map_of (c_waiters c) k = Some f)) c (fst (handle_message L msg c))" (is "settles ?P c _")
proof -
  obtain c1 b where t: "try_complete_pending L msg c = (c1, b)" by fastforce
  with settles_try_complete [OF assms, of L msg] have 1: "settles ?P c c1"
    by (auto elim: settles_mono)
  have "settles ?P c (fst (dispatch_inbound L msg c1))"
    by (rule settles_trans [OF 1 settles_dispatch]) (auto dest: settlesD(3) [OF 1])
  with 1 t show ?thesis by (cases b) (simp_all add: handle_message_def)
qed

lemma settles_goto [simp]: "settles P c c' \<Longrightarrow> settles P c (reader_goto a c')"
  using settles_trans [OF _ settles_reader_stop] by (cases a) (auto simp: reader_goto_def)

lemma settles_frame:
  assumes "client_ok c"
  shows "settles (frame_settles L raw c) c (reader_frame L raw c)"
proof -
  have "settles (frame_settles L raw c) c (fst (handle_message L msg c))"
    if "raw = Text s" "loads_message L s = Inr (PDict msg)" for s msg
    by (rule settles_mono [OF settles_handle_message [OF assms]])
      (use that in \<open>auto simp: frame_settles_def frame_answers_def\<close>)
  then have "settles (frame_settles L raw c) c (fst (handle_frame L raw c))"
    by (simp add: handle_frame_def split: frame.split sum.split pyval.split)
  then show ?thesis by (simp add: reader_frame_def split_beta)
qed

lemma settles_hook [simp]: "settles P c (hook_return L cid out c)"
  by (simp add: hook_return_def split: sum.split)

lemma settles_close [simp]:
  "settles P c (close_begin c)" "settles P c (fst (close_middle c))" "settles P c (fst (close_end out c))"
proof -
  show "settles P c (close_begin c)"
    by (cases "c_reader c") (simp_all add: close_begin_def)
  have "settles P c (close_cleanup (c\<lparr>c_reader := NoTask\<rparr>))"
    using settles_reader_cleanup [of P "c\<lparr>c_reader := NoTask\<rparr>"]
    unfolding close_cleanup_eq settles_other settles_other' .
  then show "settles P c (fst (close_middle c))"
    by (cases "c_reader c") (simp_all add: close_middle_def)
  show "settles P c (fst (close_end out c))"
    by (cases out) (simp_all add: close_end_def)
qed

lemma settles_connect [simp]: "settles P c (fst (connect out c))"
  by (simp add: connect_def split: sum.split)

section \<open>The invariant of the coroutines in progress\<close>

definition answered :: "pylib \<Rightarrow> frame list \<Rightarrow> task \<Rightarrow> pydict \<Rightarrow> bool" where
  "answered L frames t r \<longleftrightarrow>
     t_start t \<le> length frames \<and> (\<exists>raw \<in> set (drop (t_start t) frames). frame_answers L (t_id t) r raw)"

lemma answered_snoc [simp]: "answered L fs t r \<Longrightarrow> answered L (fs @ [raw]) t r"
  by (auto simp: answered_def)

lemma answered_new: "t_start t \<le> length fs \<Longrightarrow> frame_answers L (t_id t) r raw \<Longrightarrow> answered L (fs @ [raw]) t r"
  by (simp add: answered_def)

text \<open>\<open>tasks_ok\<close>, for the calls and for the waits: distinct futures, and tables that list them.\<close>

definition listed :: "(pystr \<times> nat) list \<Rightarrow> task list \<Rightarrow> (nat \<Rightarrow> fut) \<Rightarrow> bool" where
  "listed table ts futs \<longleftrightarrow>
     (\<forall>t \<in> set ts. futs (t_fut t) = Waiting \<longrightarrow> map_of table (t_id t) = Some (t_fut t)) \<and>
     (\<forall>k f. map_of table k = Some f \<longrightarrow> (\<exists>t \<in> set ts. t_id t = k \<and> t_fut t = f))"

definition world_ok :: "pylib \<Rightarrow> world \<Rightarrow> bool" where
  "world_ok L w \<longleftrightarrow>
     (let c = w_client w; calls = w_calls w; waits = w_waits w
      in client_ok c \<and>
         distinct (map t_fut (calls @ waits)) \<and> distinct (map t_id calls) \<and>
         (\<forall>t \<in> set (calls @ waits). t_fut t < c_next_fut c \<and> t_start t \<le> length (w_frames w)) \<and>
         listed (c_pending c) calls (c_futs c) \<and> listed (c_waiters c) waits (c_futs c) \<and>
         (\<forall>t \<in> set calls. \<forall>r. c_futs c (t_fut t) = Done r \<longrightarrow> answered L (w_frames w) t r) \<and>
         (\<forall>t v. (t, Inr v) \<in> set (w_ended w) \<longrightarrow>
            (\<exists>r. answered L (w_frames w) t r \<and> v = get r ''result'')))"

lemma world_okD:
  assumes "world_ok L w"
  shows "client_ok (w_client w)" "distinct (map t_fut (w_calls w @ w_waits w))"
    "distinct (map t_id (w_calls w))"
    "t \<in> set (w_calls w) \<or> t \<in> set (w_waits w) \<Longrightarrow> t_fut t < c_next_fut (w_client w)"
    "t \<in> set (w_calls w) \<or> t \<in> set (w_waits w) \<Longrightarrow> t_start t \<le> length (w_frames w)"
    "listed (c_pending (w_client w)) (w_calls w) (c_futs (w_client w))"
    "listed (c_waiters (w_client w)) (w_waits w) (c_futs (w_client w))"
    "t \<in> set (w_calls w) \<Longrightarrow> c_futs (w_client w) (t_fut t) = Done r \<Longrightarrow> answered L (w_frames w) t r"
    "(t, Inr v) \<in> set (w_ended w) \<Longrightarrow> \<exists>r. answered L (w_frames w) t r \<and> v = get r ''result''"
  using assms unfolding world_ok_def Let_def by auto

lemma world_okI:
  assumes "client_ok (w_client w)" "distinct (map t_fut (w_calls w @ w_waits w))"
    "distinct (map t_id (w_calls w))"
    "\<And>t. t \<in> set (w_calls w) \<or> t \<in> set (w_waits w) \<Longrightarrow>
      t_fut t < c_next_fut (w_client w) \<and> t_start t \<le> length (w_frames w)"
    "listed (c_pending (w_client w)) (w_calls w) (c_futs (w_client w))"
    "listed (c_waiters (w_client w)) (w_waits w) (c_futs (w_client w))"
    "\<And>t r. t \<in> set (w_calls w) \<Longrightarrow> c_futs (w_client w) (t_fut t) = Done r \<Longrightarrow> answered L (w_frames w) t r"
    "\<And>t v. (t, Inr v) \<in> set (w_ended w) \<Longrightarrow> \<exists>r. answered L (w_frames w) t r \<and> v = get r ''result''"
  shows "world_ok L w"
  using assms unfolding world_ok_def Let_def by (simp add: ball_Un)

lemma start_world_ok:
  assumes "new_client ch t n m = Inr c"
  shows "world_ok L (start_world c)"
proof -
  have "c_pending c = []" "c_waiters c = []" using assms by (auto simp: new_client_def rbind_eq_Inr)
  with new_client_ok [OF assms] show ?thesis
    by (simp add: world_ok_def start_world_def listed_def)
qed

lemma listedD: "listed table ts futs \<Longrightarrow> map_of table k = Some f \<Longrightarrow> \<exists>t \<in> set ts. t_id t = k \<and> t_fut t = f"
  by (simp add: listed_def)

lemma listed_waiting: "listed table ts futs \<Longrightarrow> t \<in> set ts \<Longrightarrow> futs (t_fut t) = Waiting \<Longrightarrow>
    map_of table (t_id t) = Some (t_fut t)"
  by (simp add: listed_def)

lemma listed_settles:
  assumes "listed (c_pending c) ts (c_futs c)" "settles P c c'"
  shows "listed (c_pending c') ts (c_futs c')"
  using assms(1) settlesD(2,4,5) [OF assms(2)] unfolding listed_def by blast

lemma listed_settles_waits:
  assumes "listed (c_waiters c) ts (c_futs c)" "settles P c c'"
  shows "listed (c_waiters c') ts (c_futs c')"
  using assms(1) settlesD(3,4,6) [OF assms(2)] unfolding listed_def by blast

text \<open>A segment of the reader or of \<open>close\<close>, which may have received the frames \<open>raws\<close>.\<close>

lemma world_settles:
  assumes "world_ok L w" "client_ok c'" "settles P (w_client w) c'"
    and "\<And>t r. t \<in> set (w_calls w) \<Longrightarrow> P (t_fut t) r \<Longrightarrow> answered L (w_frames w @ raws) t r"
  shows "world_ok L (w\<lparr>w_client := c', w_frames := w_frames w @ raws\<rparr>)"
proof -
  note ok = world_okD [OF assms(1)]
  have more: "answered L (w_frames w @ raws) t r" if "answered L (w_frames w) t r" for t r
    using that by (auto simp: answered_def)
  have "answered L (w_frames w @ raws) t r" if "t \<in> set (w_calls w)" "c_futs c' (t_fut t) = Done r" for t r
    using settlesD(7) [OF assms(3) that(2)] ok(8) [OF that(1)] assms(4) [OF that(1)] more by blast
  moreover have "\<exists>r. answered L (w_frames w @ raws) t r \<and> v = get r ''result''"
    if "(t, Inr v) \<in> set (w_ended w)" for t v
    using ok(9) [OF that] more by blast
  moreover have "t_start t \<le> length (w_frames w) + length raws"
    if "t \<in> set (w_calls w) \<or> t \<in> set (w_waits w)" for t using ok(5) [OF that] by simp
  moreover have "t_fut t < c_next_fut c'" if "t \<in> set (w_calls w) \<or> t \<in> set (w_waits w)" for t
    using ok(4) [OF that] settlesD(1) [OF assms(3)] by simp
  ultimately show ?thesis
    using assms(2) ok(2,3) listed_settles [OF ok(6) assms(3)] listed_settles_waits [OF ok(7) assms(3)]
    by (simp add: world_ok_def Let_def ball_Un)
qed

lemma world_settles_quiet:
  assumes "world_ok L w" "client_ok c'" "settles (\<lambda>_ _. False) (w_client w) c'"
  shows "world_ok L (w\<lparr>w_client := c'\<rparr>)"
  using world_settles [OF assms, of "[]"] by simp

text \<open>A coroutine starts on a new future, or ends and leaves the table.\<close>

lemma call_remote_begin_Inr:
  assumes "call_remote_begin L cid m args c = (c', Inr f)"
  shows "f = c_next_fut c" "c_next_fut c' = Suc f" "c_pending c' = dict_set cid f (c_pending c)"
    "c_waiters c' = c_waiters c" "c_futs c' = (c_futs c)(f := Waiting)"
  using assms
  by (auto simp: call_remote_begin_def create_future_def Let_def split: if_splits sum.splits)

lemma call_remote_begin_sends:
  assumes "call_remote_begin L cid m args c = (c', Inr f)"
  obtains s where "c_sent c' = c_sent c @ [s]" "dumps_message L (call_request_message m args cid) False = Inr s"
  using assms by (auto simp: call_remote_begin_def create_future_def Let_def split: if_splits sum.splits)

lemma call_remote_begin_Inl:
  assumes "call_remote_begin L cid m args c = (c', Inl e)" "map_of (c_pending c) cid = None"
  shows "settles P c c'"
proof -
  have "dict_pop cid (dict_set cid f (c_pending c)) = dict_pop cid (c_pending c)" for f :: nat
    by (rule dict_pop_set)
  then have "dict_pop cid (dict_set cid f (c_pending c)) = c_pending c" for f :: nat
    using assms(2) by (simp add: map_of_eq_None_iff)
  with assms(1) show ?thesis
    by (auto simp: call_remote_begin_def create_future_def call_cleanup_def cancel_future_def
        settles_def Let_def split: if_splits sum.splits)
qed

lemma wait_relay_begin_Suspended:
  assumes "wait_relay_begin rid c = (c', Inr (Suspended f))"
  shows "f = c_next_fut c" "c_next_fut c' = Suc f" "c_waiters c' = dict_set rid f (c_waiters c)"
    "c_pending c' = c_pending c" "c_futs c' = (c_futs c)(f := Waiting)"
    "map_of (c_waiters c) rid = None"
  using assms
  by (auto simp: wait_relay_begin_def create_future_def split: if_splits option.splits)

lemma wait_relay_begin_Returned:
  assumes "wait_relay_begin rid c = (c', r)" "\<And>f. r \<noteq> Inr (Suspended f)"
  shows "settles P c c'"
  using assms
  by (auto simp: wait_relay_begin_def create_future_def split: if_splits option.splits)

lemma listed_add:
  assumes "listed table ts futs" "map_of table k = None" "f \<notin> t_fut ` set ts" "t_id t = k" "t_fut t = f"
  shows "listed (dict_set k f table) (t # ts) (futs(f := Waiting))"
proof -
  have "map_of (dict_set k f table) (t_id t') = Some (t_fut t')"
    if "t' \<in> set (t # ts)" "(futs(f := Waiting)) (t_fut t') = Waiting" for t'
  proof (cases "t' = t")
    case False
    with that assms(3) have "t' \<in> set ts" "futs (t_fut t') = Waiting" by (auto split: if_splits)
    with assms(1,2) show ?thesis unfolding listed_def by auto
  qed (use assms in simp)
  moreover have "\<exists>t' \<in> set (t # ts). t_id t' = k' \<and> t_fut t' = f'"
    if "map_of (dict_set k f table) k' = Some f'" for k' f'
    using that assms(1,4,5) unfolding listed_def by (auto split: if_splits)
  ultimately show ?thesis unfolding listed_def by blast
qed

lemma listed_keep:
  assumes "listed table ts futs" "f \<notin> t_fut ` set ts"
  shows "listed table ts (futs(f := v))"
  using assms unfolding listed_def by auto

lemma listed_remove:
  assumes "listed table ts futs" "\<And>k. map_of table k \<noteq> Some (t_fut t)"
  shows "listed table (remove1 t ts) futs"
proof -
  have "\<exists>t' \<in> set (remove1 t ts). t_id t' = k \<and> t_fut t' = f" if "map_of table k = Some f" for k f
  proof -
    obtain t' where t': "t' \<in> set ts" "t_id t' = k" "t_fut t' = f"
      using assms(1) \<open>map_of table k = Some f\<close> unfolding listed_def by blast
    then have "t' \<noteq> t" using that assms(2) by auto
    with t' show ?thesis by (auto simp: in_set_remove1)
  qed
  moreover have "set (remove1 t ts) \<subseteq> set ts" by (rule set_remove1_subset)
  ultimately show ?thesis using assms(1) unfolding listed_def by blast
qed

lemma map_of_calls:
  assumes "world_ok L w" "map_of (c_pending (w_client w)) k = Some f"
    "t \<in> set (w_calls w)" "t_id t = k \<or> t_fut t = f"
  shows "t_id t = k \<and> t_fut t = f"
proof -
  note ok = world_okD [OF assms(1)]
  obtain t' where "t' \<in> set (w_calls w)" "t_id t' = k" "t_fut t' = f"
    using ok(6) assms(2) unfolding listed_def by blast
  then have "t = t'" using assms(3,4) ok(2,3) by (auto simp: distinct_map inj_on_def)
  with \<open>t_id t' = k\<close> \<open>t_fut t' = f\<close> show ?thesis by simp
qed

section \<open>Every step keeps the invariant\<close>

lemma distinct_map_remove1:
  "distinct (map f xs) \<Longrightarrow> distinct (map f (remove1 t xs))"
  "distinct (map f (xs @ ys)) \<Longrightarrow> distinct (map f (remove1 t xs @ ys))"
  "distinct (map f (ys @ xs)) \<Longrightarrow> distinct (map f (ys @ remove1 t xs))"
proof -
  have sub: "f ` set (remove1 t xs) \<subseteq> f ` set xs" by (intro image_mono set_remove1_subset)
  show *: "distinct (map f (remove1 t xs))" if "distinct (map f xs)"
    using that by (auto simp: distinct_map intro: inj_on_subset)
  show "distinct (map f (xs @ ys)) \<Longrightarrow> distinct (map f (remove1 t xs @ ys))"
    "distinct (map f (ys @ xs)) \<Longrightarrow> distinct (map f (ys @ remove1 t xs))"
    using * sub by auto
qed

lemma fresh_fut:
  assumes "world_ok L w"
  shows "c_next_fut (w_client w) \<notin> t_fut ` set (w_calls w)" "c_next_fut (w_client w) \<notin> t_fut ` set (w_waits w)"
  using world_okD(4) [OF assms] by (metis imageE less_irrefl)+

lemma world_call_begins:
  assumes "world_ok L w" "call_remote_begin L cid m args (w_client w) = (c, Inr f)"
    and "cid \<notin> t_id ` set (w_calls w)"
  shows "world_ok L (w\<lparr>w_client := c,
    w_calls := \<lparr>t_id = cid, t_fut = f, t_start = length (w_frames w)\<rparr> # w_calls w\<rparr>)"
proof -
  note ok = world_okD [OF assms(1)] and c = call_remote_begin_Inr [OF assms(2)]
  have new: "f \<notin> t_fut ` set (w_calls w)" "f \<notin> t_fut ` set (w_waits w)"
    using fresh_fut [OF assms(1)] by (simp_all add: c(1))
  have "map_of (c_pending (w_client w)) cid = None"
    using ok(6) assms(3) unfolding listed_def by (metis image_eqI not_None_eq)
  with new have "listed (c_pending c) (\<lparr>t_id = cid, t_fut = f, t_start = length (w_frames w)\<rparr> # w_calls w) (c_futs c)"
    "listed (c_waiters c) (w_waits w) (c_futs c)"
    using ok(6,7) by (auto simp: c(3,4,5) intro: listed_add listed_keep)
  moreover have "client_ok c" using call_remote_begin_ok [OF ok(1), of L cid m args] assms(2) by simp
  moreover have "answered L (w_frames w) t r" if "t \<in> set (w_calls w)" "c_futs c (t_fut t) = Done r" for t r
    using ok(8) [of t r] that new(1) by (auto simp: c(5) split: if_splits)
  moreover have "t_fut t < c_next_fut c" if "t \<in> set (w_calls w) \<or> t \<in> set (w_waits w)" for t
    using ok(4) [OF that] by (simp add: c(1,2))
  ultimately show ?thesis
    using ok(2,3,5,9) new assms(3) by (simp add: world_ok_def Let_def ball_Un c(1,2,5))
qed

lemma world_wait_begins:
  assumes "world_ok L w" "wait_relay_begin rid (w_client w) = (c, Inr (Suspended f))"
  shows "world_ok L (w\<lparr>w_client := c,
    w_waits := \<lparr>t_id = rid, t_fut = f, t_start = length (w_frames w)\<rparr> # w_waits w\<rparr>)"
proof -
  note ok = world_okD [OF assms(1)] and c = wait_relay_begin_Suspended [OF assms(2)]
  have new: "f \<notin> t_fut ` set (w_calls w)" "f \<notin> t_fut ` set (w_waits w)"
    using fresh_fut [OF assms(1)] by (simp_all add: c(1))
  with c(6) have "listed (c_waiters c) (\<lparr>t_id = rid, t_fut = f, t_start = length (w_frames w)\<rparr> # w_waits w) (c_futs c)"
    "listed (c_pending c) (w_calls w) (c_futs c)"
    using ok(6,7) by (auto simp: c(3,4,5) intro: listed_add listed_keep)
  moreover have "client_ok c" using wait_relay_begin_ok [OF ok(1), of rid] assms(2) by simp
  moreover have "answered L (w_frames w) t r" if "t \<in> set (w_calls w)" "c_futs c (t_fut t) = Done r" for t r
    using ok(8) [of t r] that new(1) by (auto simp: c(5) split: if_splits)
  moreover have "t_fut t < c_next_fut c" if "t \<in> set (w_calls w) \<or> t \<in> set (w_waits w)" for t
    using ok(4) [OF that] by (simp add: c(1,2))
  ultimately show ?thesis
    using ok(2,3,5,9) new by (simp add: world_ok_def Let_def ball_Un c(1,2,5))
qed

lemma world_call_ends:
  assumes "world_ok L w" "t \<in> set (w_calls w)" "await_outcome (c_futs (w_client w) (t_fut t)) out"
    and "call_remote_end (t_id t) (t_fut t) out (w_client w) = (c, r)"
  shows "world_ok L (w\<lparr>w_client := c, w_calls := remove1 t (w_calls w), w_ended := (t, r) # w_ended w\<rparr>)"
proof -
  let ?c = "w_client w"
  have c: "c = call_cleanup (t_id t) (t_fut t) ?c" and r: "r = rbind out (\<lambda>resp. Inr (get resp ''result''))"
    using assms(4) by (auto simp: call_remote_end_def)
  have mine: "k = t_id t" if "map_of (c_pending ?c) k = Some (t_fut t)" for k
    using map_of_calls [OF assms(1) that assms(2)] by simp
  have "f = t_fut t" if "map_of (c_pending ?c) (t_id t) = Some f" for f
    using map_of_calls [OF assms(1) that assms(2)] by simp
  then have s: "settles (\<lambda>_ _. False) ?c c"
    by (auto simp: c call_cleanup_def cancel_future_eq settles_def split: if_splits)
  have "client_ok c" using world_okD(1) [OF assms(1)] by (simp add: c)
  note ok = world_okD [OF world_settles_quiet [OF assms(1) this s]]
  have "map_of (c_pending c) k \<noteq> Some (t_fut t)" for k
    using mine by (auto simp: c call_cleanup_def cancel_future_eq)
  with ok(6) have "listed (c_pending c) (remove1 t (w_calls w)) (c_futs c)"
    by (simp add: listed_remove)
  moreover have "\<exists>resp. answered L (w_frames w) t resp \<and> v = get resp ''result''" if "r = Inr v" for v
  proof -
    from that r obtain resp where "out = Inr resp" "v = get resp ''result''" by (auto simp: rbind_eq_Inr)
    with assms(3) world_okD(8) [OF assms(1,2)] show ?thesis by (auto simp: await_outcome_def)
  qed
  moreover have "distinct (map t_id (remove1 t (w_calls w)))"
    "distinct (map t_fut (remove1 t (w_calls w) @ w_waits w))"
    using distinct_map_remove1(1) [of t_id "w_calls w" t] distinct_map_remove1(2) [of t_fut "w_calls w" "w_waits w" t]
      ok(2,3) by simp_all
  moreover have "t' \<in> set (w_calls w)" if "t' \<in> set (remove1 t (w_calls w))" for t'
    using that set_remove1_subset [of t "w_calls w"] by blast
  ultimately show ?thesis
    using ok(1,4,5,7-9) by (intro world_okI) auto
qed

lemma world_wait_ends:
  assumes "world_ok L w" "t \<in> set (w_waits w)"
    and "wait_relay_end (t_id t) (t_fut t) out (w_client w) = (c, r)"
  shows "world_ok L (w\<lparr>w_client := c, w_waits := remove1 t (w_waits w)\<rparr>)"
proof -
  let ?c = "w_client w"
  have ok0: "client_ok ?c" and l: "listed (c_waiters ?c) (w_waits w) (c_futs ?c)"
    using world_okD(1,7) [OF assms(1)] by auto
  have c: "c = (if map_of (c_waiters ?c) (t_id t) = Some (t_fut t)
      then cancel_future (t_fut t) (?c\<lparr>c_waiters := dict_pop (t_id t) (c_waiters ?c)\<rparr>) else ?c)"
    using assms(3) by (auto simp: wait_relay_end_def)
  have mine: "k = t_id t" if entry: "map_of (c_waiters ?c) k = Some (t_fut t)" for k
  proof -
    obtain t' where "t' \<in> set (w_waits w)" "t_id t' = k" "t_fut t' = t_fut t"
      using listedD [OF l entry] by blast
    with assms(2) world_okD(2) [OF assms(1)] show ?thesis by (auto simp: distinct_map inj_on_def)
  qed
  have s: "settles (\<lambda>_ _. False) ?c c"
    by (auto simp: c cancel_future_eq settles_def split: if_splits)
  have "client_ok c" using wait_relay_end_ok [OF ok0, of "t_id t" "t_fut t" out] assms(3) by simp
  note ok = world_okD [OF world_settles_quiet [OF assms(1) this s]]
  have "map_of (c_waiters c) k \<noteq> Some (t_fut t)" for k
  proof
    assume "map_of (c_waiters c) k = Some (t_fut t)"
    then have "map_of (c_waiters ?c) k = Some (t_fut t)" "map_of (c_waiters ?c) (t_id t) = Some (t_fut t) \<longrightarrow> k \<noteq> t_id t"
      by (simp_all add: c cancel_future_eq split: if_splits)
    with mine [of k] show False by blast
  qed
  with ok(7) have "listed (c_waiters c) (remove1 t (w_waits w)) (c_futs c)"
    by (simp add: listed_remove)
  moreover have "distinct (map t_fut (w_calls w @ remove1 t (w_waits w)))"
    using distinct_map_remove1(3) [of t_fut "w_calls w" "w_waits w" t] ok(2) by simp
  moreover have "t' \<in> set (w_waits w)" if "t' \<in> set (remove1 t (w_waits w))" for t'
    using that set_remove1_subset [of t "w_waits w"] by blast
  ultimately show ?thesis
    using ok(1,3,4,5,6,8,9) by (intro world_okI) auto
qed

lemma step_world_ok:
  assumes "step L w w'" "world_ok L w"
  shows "world_ok L w'"
  using assms(1)
proof (cases rule: step.cases)
  note ok = world_okD [OF assms(2)] and quiet = world_settles_quiet [OF assms(2)]
  have fst: "client_ok c" if "x = (c, r)" "client_ok (fst x)" for x :: "client \<times> 'x" and c r
    using that by simp
  {
    case (connect out c r)
    then show ?thesis
      using quiet [OF connect_ok [OF ok(1)] settles_connect, of out] by simp
  next
    case reader_start
    then show ?thesis using quiet ok(1) by simp
  next
    case (frame raw)
    have "answered L (w_frames w @ [raw]) t r"
      if "t \<in> set (w_calls w)" "frame_settles L raw (w_client w) (t_fut t) r" for t r
    proof -
      have "map_of (c_waiters (w_client w)) k \<noteq> Some (t_fut t)" for k
      proof
        assume "map_of (c_waiters (w_client w)) k = Some (t_fut t)"
        then obtain t' where "t' \<in> set (w_waits w)" "t_fut t' = t_fut t"
          using listedD [OF ok(7)] by blast
        with ok(2) that(1) show False by (auto simp: image_iff)
      qed
      with that(2) obtain k where k: "map_of (c_pending (w_client w)) k = Some (t_fut t)"
        "frame_answers L k r raw" unfolding frame_settles_def by blast
      then have "t_id t = k" using map_of_calls [OF assms(2) k(1) that(1)] by simp
      with k(2) ok(5) that(1) show ?thesis by (simp add: answered_new)
    qed
    with world_settles [OF assms(2) reader_frame_ok [OF ok(1)] settles_frame [OF ok(1)]] frame
    show ?thesis by blast
  next
    case closed
    then show ?thesis using quiet ok(1) by simp
  next
    case recv_raises
    then show ?thesis using quiet ok(1) by simp
  next
    case hook_returns
    then show ?thesis using quiet ok(1) by simp
  next
    case reply_sent
    then show ?thesis using quiet ok(1) by simp
  next
    case reply_raises
    then show ?thesis using quiet ok(1) by simp
  next
    case call_begins
    then show ?thesis using world_call_begins [OF assms(2)] by blast
  next
    case (call_refused cid m args c e)
    have "map_of (c_pending (w_client w)) cid = None"
      using ok(6) call_refused(3) unfolding listed_def by (metis image_eqI not_None_eq)
    with call_refused show ?thesis
      using quiet [OF _ call_remote_begin_Inl] call_remote_begin_ok [OF ok(1), of L cid m args] by simp
  next
    case call_ends
    then show ?thesis using world_call_ends [OF assms(2)] by blast
  next
    case wait_begins
    then show ?thesis using world_wait_begins [OF assms(2)] by blast
  next
    case (wait_returns rid c r)
    then show ?thesis
      using quiet [OF _ wait_relay_begin_Returned] wait_relay_begin_ok [OF ok(1), of rid] by simp
  next
    case wait_ends
    then show ?thesis using world_wait_ends [OF assms(2)] by blast
  next
    case future_cancelled
    then show ?thesis using quiet ok(1) by simp
  next
    case close_begins
    then show ?thesis using assms(2) by (simp add: world_ok_def)
  next
    case reader_cancelled
    then show ?thesis using quiet ok(1) by simp
  next
    case (close_proceeds c u)
    then show ?thesis
      using quiet [OF close_middle_ok [OF ok(1)] settles_close(2)] by (simp add: world_ok_def)
  next
    case (close_raises c e)
    then show ?thesis
      using quiet [OF close_middle_ok [OF ok(1)] settles_close(2)] by (simp add: world_ok_def)
  next
    case (close_ends out c r)
    then show ?thesis
      using quiet [OF close_end_ok [OF ok(1)] settles_close(3), of out] by (simp add: world_ok_def)
  }
qed

lemma reachable_world_ok:
  assumes "reachable L c0 w" "new_client ch t n m = Inr c0"
  shows "world_ok L w"
  using assms(1) by induction (simp_all add: start_world_ok [OF assms(2)] step_world_ok)

end
