(* ===== verification/ClientProps.thy ===== *)
theory ClientProps
  imports ClientCalls StdLib Samples
begin

text \<open>The properties of the client base (\<open>client/base.py\<close>).\<close>

section \<open>A concrete client\<close>

definition sample_call :: pydict where
  "sample_call = call_request_message (lit ''_ping_'') [] (lit ''c1'')"

definition sample_reply :: pydict where
  "sample_reply = response_message (PStr PING_RESPONSE) (lit ''c1'') (lit ''str'')"

definition sample_envelope_call :: pydict where
  "sample_envelope_call = call_request_message (lit ''receive_envelope'')
     [(lit ''body'', PDict [(CHUNK_MARKER, PDict [])])] (lit ''c2'')"

text \<open>A codec for the three messages and a few texts.\<close>

definition wire_lib :: pylib where
  "wire_lib = sample_lib\<lparr>
     lib_dumps := (\<lambda>_ _ v. if v = PDict sample_call then Inr (lit ''q'')
       else if v = PDict sample_reply then Inr (lit ''r'') else raise TypeError ''not in the sample''),
     lib_loads := (\<lambda>s. if s = lit ''q'' then Inr (PDict sample_call)
       else if s = lit ''r'' then Inr (PDict sample_reply)
       else if s = lit ''e'' then Inr (PDict sample_envelope_call)
       else raise JSONDecodeError ''not in the sample'')\<rparr>"

lemma wire_lib_simps [simp]:
  "lib_dumps wire_lib a b (PDict sample_call) = Inr (lit ''q'')"
  "lib_dumps wire_lib a b (PDict sample_reply) = Inr (lit ''r'')"
  "lib_loads wire_lib (lit ''q'') = Inr (PDict sample_call)"
  "lib_loads wire_lib (lit ''r'') = Inr (PDict sample_reply)"
  "lib_loads wire_lib (lit ''e'') = Inr (PDict sample_envelope_call)"
proof -
  have "sample_reply \<noteq> sample_call"
    by (simp add: sample_call_def sample_reply_def call_request_message_def response_message_def)
  then show "lib_dumps wire_lib a b (PDict sample_reply) = Inr (lit ''r'')" by (simp add: wire_lib_def)
qed (simp_all add: wire_lib_def)

definition sample_client :: client where
  "sample_client = \<lparr>c_channel_id = lit ''ch'', c_default_call_timeout = Some (FFin 30 0), c_stash_max = 2,
     c_ws = False, c_pending = [], c_reader = NoTask, c_stash = [], c_waiters = [],
     c_chunks = \<lparr>max_pending = 2, transfers = []\<rparr>, c_futs = (\<lambda>_. Waiting), c_next_fut = 0, c_sent = []\<rparr>"

lemma sample_client_new: "new_client (lit ''ch'') (Some (FFin 30 0)) 2 2 = Inr sample_client"
  by (simp add: new_client_def new_reassembler_def sample_client_def)

definition open_client :: client where
  "open_client = sample_client\<lparr>c_ws := True, c_reader := Receiving\<rparr>"

definition calling_client :: client where
  "calling_client = open_client\<lparr>c_pending := [(lit ''c1'', 0)], c_next_fut := 1, c_sent := [lit ''q'']\<rparr>"

lemma open_client_reachable: "reachable wire_lib sample_client (start_world open_client)"
proof -
  let ?w1 = "start_world (sample_client\<lparr>c_ws := True, c_reader := Starting\<rparr>)"
  have "connect (Inr ()) sample_client = (sample_client\<lparr>c_ws := True, c_reader := Starting\<rparr>, Inr ())"
    by (simp add: connect_def sample_client_def)
  from step.connect [of "Inr ()" "start_world sample_client" _ _ wire_lib] this
  have "step wire_lib (start_world sample_client) ?w1"
    by (simp add: start_world_def)
  moreover have "step wire_lib ?w1 (start_world open_client)"
    using step.reader_start [of ?w1 wire_lib] by (simp add: start_world_def open_client_def)
  ultimately show ?thesis by (blast intro: reachable.intros)
qed

definition calling_world :: world where
  "calling_world = (start_world calling_client)\<lparr>w_calls := [\<lparr>t_id = lit ''c1'', t_fut = 0, t_start = 0\<rparr>]\<rparr>"

lemma open_client_call:
  "call_remote_begin wire_lib (lit ''c1'') (lit ''_ping_'') [] open_client = (calling_client, Inr 0)"
proof -
  have "dumps_message wire_lib (call_request_message (lit ''_ping_'') [] (lit ''c1'')) False = Inr (lit ''q'')"
    using wire_lib_simps(1) by (simp add: dumps_message_def sample_call_def)
  moreover have "(\<lambda>_. Waiting)(0 := Waiting) = (\<lambda>_::nat. Waiting)" by auto
  ultimately show ?thesis
    by (simp add: call_remote_begin_def create_future_def open_client_def calling_client_def
        sample_client_def dict_set_def)
qed

lemma calling_world_reachable: "reachable wire_lib sample_client calling_world"
proof -
  have "step wire_lib (start_world open_client) calling_world"
    using step.call_begins [of wire_lib "lit ''c1''" "lit ''_ping_''" "[]" "start_world open_client"]
      open_client_call by (simp add: start_world_def calling_world_def)
  with open_client_reachable show ?thesis by (rule reachable.more)
qed

text \<open>The call is answered and ends.\<close>

definition answered_world :: world where
  "answered_world = calling_world\<lparr>w_client := calling_client\<lparr>c_pending := [],
     c_futs := (\<lambda>_. Waiting)(0 := Done (response_body (PStr PING_RESPONSE) (lit ''c1'') (lit ''str'')))\<rparr>,
     w_calls := [], w_frames := [Text (lit ''r'')],
     w_ended := [(\<lparr>t_id = lit ''c1'', t_fut = 0, t_start = 0\<rparr>, Inr (PStr PING_RESPONSE))]\<rparr>"

lemma sample_try_complete:
  "try_complete_pending wire_lib sample_reply calling_client =
     (calling_client\<lparr>c_pending := [],
        c_futs := (\<lambda>_. Waiting)(0 := Done (response_body (PStr PING_RESPONSE) (lit ''c1'') (lit ''str'')))\<rparr>, True)"
  by (simp add: try_complete_pending_def sample_reply_def calling_client_def open_client_def
      sample_client_def set_result_def dict_pop_def)

lemma answered_world_reachable: "reachable wire_lib sample_client answered_world"
proof -
  let ?c = "calling_client\<lparr>c_pending := [],
    c_futs := (\<lambda>_. Waiting)(0 := Done (response_body (PStr PING_RESPONSE) (lit ''c1'') (lit ''str'')))\<rparr>"
  let ?t = "\<lparr>t_id = lit ''c1'', t_fut = 0, t_start = 0\<rparr>"
  let ?w = "calling_world\<lparr>w_client := ?c, w_frames := [Text (lit ''r'')]\<rparr>"
  have receiving: "c_reader ?c = Receiving"
    by (simp add: calling_client_def open_client_def)
  then have "reader_frame wire_lib (Text (lit ''r'')) calling_client = ?c"
    using sample_try_complete
    by (simp add: reader_frame_def handle_frame_def loads_message_def handle_message_def reader_goto_def)
  then have "step wire_lib calling_world ?w"
    using step.frame [of calling_world wire_lib "Text (lit ''r'')"] receiving
    by (simp add: calling_world_def start_world_def)
  moreover have "call_remote_end (lit ''c1'') 0 (Inr (response_body (PStr PING_RESPONSE) (lit ''c1'') (lit ''str''))) ?c
      = (?c, Inr (PStr PING_RESPONSE))"
    by (simp add: call_remote_end_def call_cleanup_def cancel_future_def dict_pop_def)
  then have "step wire_lib ?w answered_world"
    using step.call_ends [of ?t ?w "Inr (response_body (PStr PING_RESPONSE) (lit ''c1'') (lit ''str''))"
        ?c "Inr (PStr PING_RESPONSE)" wire_lib]
    by (simp add: answered_world_def calling_world_def start_world_def await_outcome_def)
  ultimately show ?thesis
    using calling_world_reachable by (blast intro: reachable.more)
qed

section \<open>Calls\<close>

text \<open>
  C2: a call that returns a value returns the result of a response with its own call id, in a frame
  that arrived after the call was made; whatever the interleaving of calls, waits, frames,
  timeouts and closing.
\<close>

theorem call_result_is_response:
  assumes "new_client ch timeout n m = Inr c0" "reachable L c0 w" "(t, Inr v) \<in> set (w_ended w)"
  shows "\<exists>raw \<in> set (drop (t_start t) (w_frames w)).
    \<exists>resp. frame_answers L (t_id t) resp raw \<and> v = get resp ''result''"
  using world_okD(9) [OF reachable_world_ok [OF assms(2,1)] assms(3)]
  unfolding answered_def by blast

theorem call_result_is_response_witness:
  "\<exists>resp. frame_answers wire_lib (lit ''c1'') resp (Text (lit ''r'')) \<and>
     PStr PING_RESPONSE = get resp ''result''"
proof -
  have "(\<lparr>t_id = lit ''c1'', t_fut = 0, t_start = 0\<rparr>, Inr (PStr PING_RESPONSE)) \<in> set (w_ended answered_world)"
    by (simp add: answered_world_def)
  from call_result_is_response [OF sample_client_new answered_world_reachable this]
  show ?thesis by (simp add: answered_world_def)
qed



text \<open>
  C6: the tables leak nothing: every entry of the pending calls belongs to a call in progress, every
  relay waiter to a wait in progress, and a future that still waits is the one its table lists.
\<close>

theorem tables_track_coroutines:
  assumes "new_client ch timeout n m = Inr c0" "reachable L c0 w"
  shows "(let c = w_client w
          in wf_dict (c_pending c) \<and> wf_dict (c_waiters c) \<and>
             set (c_pending c) \<subseteq> (\<lambda>t. (t_id t, t_fut t)) ` set (w_calls w) \<and>
             set (c_waiters c) \<subseteq> (\<lambda>t. (t_id t, t_fut t)) ` set (w_waits w) \<and>
             (\<forall>t \<in> set (w_calls w). c_futs c (t_fut t) = Waiting \<longrightarrow> (t_id t, t_fut t) \<in> set (c_pending c)) \<and>
             (\<forall>t \<in> set (w_waits w). c_futs c (t_fut t) = Waiting \<longrightarrow> (t_id t, t_fut t) \<in> set (c_waiters c)))"
proof -
  note ok = world_okD [OF reachable_world_ok [OF assms(2,1)]]
  note wf = client_ok_tables(1,2) [OF ok(1)]
  have sub: "set d \<subseteq> (\<lambda>t. (t_id t, t_fut t)) ` set ts"
    if "wf_dict d" "listed d ts (c_futs (w_client w))" for d ts
  proof
    fix p assume "p \<in> set d"
    then have "map_of d (fst p) = Some (snd p)" using that(1) by (simp add: wf_dict_def)
    from listedD [OF that(2) this] show "p \<in> (\<lambda>t. (t_id t, t_fut t)) ` set ts" by force
  qed
  show ?thesis
    using wf sub [OF wf(1) ok(6)] sub [OF wf(2) ok(7)]
      map_of_SomeD [OF listed_waiting [OF ok(6)]] map_of_SomeD [OF listed_waiting [OF ok(7)]]
    by (simp add: Let_def)
qed

theorem tables_track_coroutines_witness:
  "(lit ''c1'', 0) \<in> set (c_pending (w_client calling_world))"
proof -
  have "c_futs (w_client calling_world) 0 = Waiting"
    by (simp add: calling_world_def start_world_def calling_client_def open_client_def sample_client_def)
  with tables_track_coroutines [OF sample_client_new calling_world_reachable]
  show ?thesis by (simp add: Let_def) (simp add: calling_world_def)
qed

text \<open>
  A call that is over (answered, failed, timed out or cancelled) is forgotten: a late response
  to it changes no future and no table, and is left to \<open>on_unmatched_message\<close>.
\<close>

theorem late_response_ignored:
  assumes "answers L cid resp msg"
  shows "try_complete_pending L msg (fst (call_remote_end cid f out c)) =
    (fst (call_remote_end cid f out c), False)"
  using assms
  by (simp add: answers_def try_complete_pending_def call_remote_end_def call_cleanup_def cancel_future_eq)

theorem late_response_ignored_witness:
  "snd (try_complete_pending wire_lib sample_reply
     (fst (call_remote_end (lit ''c1'') 0 (raise TimeoutError ''timed out'') calling_client))) = False"
proof -
  have "answers wire_lib (lit ''c1'') (response_body (PStr PING_RESPONSE) (lit ''c1'') (lit ''str'')) sample_reply"
    by (simp add: answers_def sample_reply_def)
  from late_response_ignored [OF this, of 0 "raise TimeoutError ''timed out''" calling_client]
  show ?thesis by simp
qed

section \<open>Relay receipts\<close>

text \<open>
  The stash of receipts never exceeds \<open>relay_stash_max_size\<close>, and no request id is at once
  waited for and stashed.
\<close>

theorem relay_tables:
  assumes "new_client ch timeout n m = Inr c0" "reachable L c0 w"
  shows "int (length (c_stash (w_client w))) \<le> max 0 (c_stash_max (w_client w)) \<and>
    wf_dict (c_stash (w_client w)) \<and>
    fst ` set (c_waiters (w_client w)) \<inter> fst ` set (c_stash (w_client w)) = {}"
  using client_ok_tables [OF world_okD(1) [OF reachable_world_ok [OF assms(2,1)]]] by blast

theorem relay_tables_witness: "int (length (c_stash (w_client calling_world))) \<le> max 0 2"
proof -
  have "c_stash_max (w_client calling_world) = 2"
    by (simp add: calling_world_def start_world_def calling_client_def open_client_def sample_client_def)
  with relay_tables [OF sample_client_new calling_world_reachable] show ?thesis by simp
qed

lemma publish_stashes:
  assumes "client_ok c" "py_strip rid \<noteq> []" "map_of (c_waiters c) rid = None" "0 < c_stash_max c"
  shows "map_of (c_stash (relay_publish rid args c)) rid = Some (relay_receipt args)"
    and "newer rid (map fst (c_stash (relay_publish rid args c))) = {}"
proof -
  let ?d = "dict_pop rid (c_stash c)" and ?r = "relay_receipt args"
  have d: "c_stash (relay_publish rid args c) = evict_oldest (c_stash_max c) (?d @ [(rid, ?r)])"
    using assms(2-4) by (simp add: relay_publish_def stash_receipt_def Let_def)
  have wf: "wf_dict ?d" "rid \<notin> fst ` set ?d" using client_ok_tables(3) [OF assms(1)] by auto
  with assms(4) show "map_of (c_stash (relay_publish rid args c)) rid = Some ?r"
    unfolding d by (intro map_of_evict_last) auto
  obtain d' where d': "evict_oldest (c_stash_max c) (?d @ [(rid, ?r)]) = d' @ [(rid, ?r)]"
    using evict_oldest_last [of "c_stash_max c" ?d] assms(4) by auto
  have "wf_dict (d' @ [(rid, ?r)])"
    using client_ok_tables(3) [OF relay_publish_ok [OF assms(1)], of rid args] by (simp add: d d')
  then have "rid \<notin> set (map fst d')" by (auto simp: wf_dict_def)
  then show "newer rid (map fst (c_stash (relay_publish rid args c))) = {}"
    using newer_split [of rid "map fst d'" "[]"] by (simp add: d d')
qed


lemma strip_sample [simp]: "py_strip (lit ''r1'') = lit ''r1''"
  by (simp add: py_strip_def py_lstrip_def py_rstrip_def py_space_def lit_Cons)


text \<open>
  A receipt somebody waits for goes to that waiter alone: its future gets the receipt, every other
  future and the stash stay as they are, and a second wait for the same id has to wait.
\<close>

theorem relay_wakes_one_waiter:
  assumes "client_ok c" "py_strip rid \<noteq> []" "map_of (c_waiters c) rid = Some f" "c_futs c f = Waiting"
  shows "(let c' = relay_publish rid args c
          in c_futs c' f = Done (relay_receipt args) \<and> (\<forall>g. g \<noteq> f \<longrightarrow> c_futs c' g = c_futs c g) \<and>
             c_stash c' = c_stash c \<and> map_of (c_waiters c') rid = None \<and>
             (\<exists>g. snd (wait_relay_begin rid c') = Inr (Suspended g) \<and> g \<noteq> f))"
proof -
  have "rid \<notin> fst ` set (c_stash c)"
    using client_ok_tables(4) [OF assms(1)] map_of_key [OF assms(3)] by blast
  then have "map_of (c_stash c) rid = None" by (simp add: map_of_eq_None_iff)
  moreover have "f < c_next_fut c" using futs_okD(5) [OF assms(1,3)] by (simp add: live_fut_def)
  ultimately show ?thesis
    using assms(2-4)
    by (simp add: relay_publish_def set_result_def wait_relay_begin_def create_future_def Let_def)
qed

definition waiting_client :: client where
  "waiting_client = open_client\<lparr>c_waiters := [(lit ''r1'', 0)], c_next_fut := 1\<rparr>"

lemma waiting_client_ok: "client_ok waiting_client"
proof -
  have "wait_relay_begin (lit ''r1'') open_client = (waiting_client, Inr (Suspended 0))"
    by (auto simp: wait_relay_begin_def create_future_def waiting_client_def open_client_def
        sample_client_def dict_set_def)
  moreover have "client_ok open_client"
    using reachable_client_ok [OF open_client_reachable new_client_ok [OF sample_client_new]]
    by (simp add: start_world_def)
  ultimately show ?thesis using wait_relay_begin_ok [of open_client "lit ''r1''"] by simp
qed

theorem relay_wakes_one_waiter_witness:
  "c_futs (relay_publish (lit ''r1'') [] waiting_client) 0 = Done (relay_receipt [])"
proof -
  have "map_of (c_waiters waiting_client) (lit ''r1'') = Some 0" "c_futs waiting_client 0 = Waiting"
    by (simp_all add: waiting_client_def open_client_def sample_client_def)
  from relay_wakes_one_waiter [OF waiting_client_ok _ this, of "[]"] show ?thesis
    by (simp add: Let_def)
qed

section \<open>The reader\<close>

text \<open>
  C8: whatever the reader sends at once in answer to a frame is a response, never a request, to a
  pending call in that frame: it carries the id of that call and, for a built-in method, its result.
\<close>

theorem reader_sends_responses:
  assumes "handle_frame L raw c = (c', Send s)"
  shows "\<exists>str msg req result rt. raw = Text str \<and> loads_message L str = Inr (PDict msg) \<and>
    is_pending_rpc_call msg \<and> extract_request L msg = Some req \<and>
    dumps_message L (response_message result (rq_call_id req) rt) False = Inr s \<and>
    (rq_method req = lit ''_ping_'' \<and> result = PStr PING_RESPONSE \<or>
     rq_method req = lit ''_get_channel_id_'' \<and> result = PStr (c_channel_id c) \<or>
     rq_method req = lit ''receive_envelope'' \<and> (\<exists>b. result = PDict (ok_result b)))"
proof -
  have reply: "dumps_message L (response_message v cid rt) False = Inr s"
    if "send_reply L v cid rt = Send s" for v cid rt
    using that by (auto simp: send_reply_def split: sum.splits)
  from assms obtain str msg where t: "raw = Text str" "loads_message L str = Inr (PDict msg)"
    and h: "handle_message L msg c = (c', Send s)"
    by (auto simp: handle_frame_def split: frame.splits sum.splits pyval.splits if_splits)
  then obtain c1 where p: "is_pending_rpc_call msg" and c1: "try_complete_pending L msg c = (c1, False)"
    and d: "dispatch_inbound L msg c1 = (c', Send s)"
    by (auto simp: handle_message_def split: prod.splits bool.splits if_splits)
  have ch: "c_channel_id c1 = c_channel_id c"
    using c1 by (auto simp: try_complete_pending_def Let_def split: pyval.splits if_splits option.splits)
  from d obtain req where req: "extract_request L msg = Some req"
    by (auto simp: dispatch_inbound_def split: option.splits)
  show ?thesis
  proof (cases "rq_method req \<in> set EXPOSED_BUILT_IN_METHODS")
    case True
    with d req ch obtain result rt where "builtin_result req (c_channel_id c) = Some (result, rt)"
      "send_reply L result (rq_call_id req) rt = Send s"
      by (auto simp: dispatch_inbound_def split: option.splits)
    then show ?thesis using t p req reply
      by (auto simp: builtin_result_def split: if_splits)
  next
    case False
    have answer: "\<exists>b. r = ok_result b" if "invoke_receive_envelope L a c1 = (c2, Inr (Answer r))" for a c2 r
      using that by (auto simp: invoke_receive_envelope_def deliver_envelope_def Let_def raise_def
          split: pyval.splits sum.splits bool.splits option.splits if_splits prod.splits)
    from False d req have m: "rq_method req = lit ''receive_envelope''"
      by (auto simp: dispatch_inbound_def split: if_splits)
    let ?a = "case rq_arguments req of None \<Rightarrow> [] | Some a \<Rightarrow> a"
    obtain c2 r where i: "invoke_receive_envelope L ?a c1 = (c2, r)" by fastforce
    with False d req m obtain b where "r = Inr (Answer b)" "send_reply L (PDict b) (rq_call_id req) (lit ''dict'') = Send s"
      by (auto simp: dispatch_inbound_def split: sum.splits invocation.splits)
    with t p req m i reply answer show ?thesis by metis
  qed
qed

lemma wire_call_simps [simp]:
  "is_pending_rpc_call sample_call"
  "extract_request L sample_call = Some \<lparr>rq_method = lit ''_ping_'', rq_call_id = lit ''c1'', rq_arguments = Some []\<rparr>"
  "try_complete_pending L sample_call c = (c, False)"
  by (simp_all add: sample_call_def extract_call_request)
    (simp_all add: call_request_message_def is_pending_rpc_call_def try_complete_pending_def)

lemma ping_answered:
  "handle_frame wire_lib (Text (lit ''q'')) c = (c, Send (lit ''r''))"
proof -
  have "builtin_result \<lparr>rq_method = lit ''_ping_'', rq_call_id = lit ''c1'', rq_arguments = Some []\<rparr> (c_channel_id c)
      = Some (PStr PING_RESPONSE, lit ''str'')"
    by (simp add: builtin_result_def)
  moreover have "send_reply wire_lib (PStr PING_RESPONSE) (lit ''c1'') (lit ''str'') = Send (lit ''r'')"
    using wire_lib_simps(2) by (simp add: send_reply_def dumps_message_def sample_reply_def)
  ultimately show ?thesis
    by (simp add: handle_frame_def loads_message_def handle_message_def dispatch_inbound_def
        EXPOSED_BUILT_IN_METHODS_def)
qed

theorem reader_sends_responses_witness:
  "\<exists>req. extract_request wire_lib sample_call = Some req \<and> rq_method req = lit ''_ping_''"
proof -
  from reader_sends_responses [OF ping_answered, of open_client]
  obtain str msg req where "Text (lit ''q'') = Text str" "loads_message wire_lib str = Inr (PDict msg)"
    "extract_request wire_lib msg = Some req"
    "rq_method req = lit ''_ping_'' \<or> rq_method req = lit ''_get_channel_id_'' \<or>
     rq_method req = lit ''receive_envelope''"
    by (elim exE conjE) blast
  then show ?thesis by (auto simp: loads_message_def)
qed

lemma json_ok_call_request:
  "json_ok FT False (PDict args) \<Longrightarrow> json_ok FT False (PDict (call_request_message m args cid))"
  by (simp add: call_request_message_def wf_dict_def char_ok_def list_all_iff)

lemma json_ok_response:
  "json_ok FT False v \<Longrightarrow> json_ok FT False (PDict (response_message v cid rt))"
  by (simp add: response_message_def response_body_def wf_dict_def char_ok_def list_all_iff)

lemma dumps_str_response: "\<exists>s. dumps_message (std_lib FT rp gz gunz) (response_message (PStr v) cid rt) False = Inr s"
  by (simp add: dumps_message_def json_dumps_def response_message_def response_body_def)

text \<open>
  C15: two clients: if one calls a method the other has built in, with arguments JSON can express, then
  the text it sends makes the other answer at once, and the text of that answer completes the call with
  the built-in result (\<open>"pong"\<close>, or the channel id of the other).
\<close>

theorem builtin_call_round_trip:
  assumes "L = std_lib FT rp gz gunz" "json_ok FT False (PDict args)"
    and "call_remote_begin L cid m args A = (A1, Inr f)"
    and "m = lit ''_ping_'' \<and> v = PING_RESPONSE \<or> m = lit ''_get_channel_id_'' \<and> v = c_channel_id B"
  shows "\<exists>s s'. c_sent A1 = c_sent A @ [s] \<and> handle_frame L (Text s) B = (B, Send s') \<and>
    (\<exists>A2 resp. handle_frame L (Text s') A1 = (A2, NextFrame) \<and> c_futs A2 f = Done resp \<and>
       snd (call_remote_end cid f (Inr resp) A2) = Inr (PStr v))"
proof -
  note A1 = call_remote_begin_Inr [OF assms(3)]
  let ?msg = "call_request_message m args cid" and ?reply = "response_message (PStr v) cid (lit ''str'')"
  obtain s where sent: "c_sent A1 = c_sent A @ [s]" and s: "dumps_message L ?msg False = Inr s"
    using call_remote_begin_sends [OF assms(3)] by blast
  obtain s' where s': "dumps_message L ?reply False = Inr s'" using dumps_str_response assms(1) by blast
  have read: "loads_message L s = Inr (PDict ?msg)" "loads_message L s' = Inr (PDict ?reply)"
    using std_loads_dumps s s' json_ok_call_request [OF assms(2)] json_ok_response [of FT "PStr v"] assms(1)
    by (blast, auto simp: char_ok_def list_all_iff)
  have ex: "extract_request L ?msg = Some \<lparr>rq_method = m, rq_call_id = cid, rq_arguments = Some args\<rparr>"
    by (rule extract_call_request)
  then have "is_pending_rpc_call ?msg" by (auto elim: extract_request_SomeD)
  moreover have "try_complete_pending L ?msg B = (B, False)"
    by (simp add: try_complete_pending_def call_request_message_def)
  moreover have "builtin_result \<lparr>rq_method = m, rq_call_id = cid, rq_arguments = Some args\<rparr> (c_channel_id B)
      = Some (PStr v, lit ''str'')" "m \<in> set EXPOSED_BUILT_IN_METHODS"
    using assms(4) by (auto simp: builtin_result_def EXPOSED_BUILT_IN_METHODS_def)
  ultimately have "handle_frame L (Text s) B = (B, Send s')"
    using read(1) s' ex by (simp add: handle_frame_def handle_message_def dispatch_inbound_def send_reply_def)
  moreover have "map_of (c_pending A1) cid = Some f" "c_futs A1 f = Waiting"
    by (simp_all add: A1(3,5))
  then have "handle_frame L (Text s') A1 =
      (set_result f (response_body (PStr v) cid (lit ''str'')) (A1\<lparr>c_pending := dict_pop cid (c_pending A1)\<rparr>), NextFrame)"
    using read(2) by (simp add: handle_frame_def handle_message_def try_complete_pending_def Let_def)
  ultimately show ?thesis
    using sent by (simp add: set_result_def call_remote_end_def)
qed

lemma std_call_begins: "\<exists>A f. call_remote_begin std_sample (lit ''c1'') (lit ''_ping_'') [] open_client = (A, Inr f)"
proof -
  obtain s where "dumps_message std_sample (call_request_message (lit ''_ping_'') [] (lit ''c1'')) False = Inr s"
    by (simp add: dumps_message_def std_sample_def json_dumps_def call_request_message_def)
  then show ?thesis
    by (simp add: call_remote_begin_def create_future_def open_client_def sample_client_def)
qed

theorem builtin_call_round_trip_witness:
  "\<exists>s s'. handle_frame std_sample (Text s) sample_client = (sample_client, Send s')"
proof -
  obtain A f where "call_remote_begin std_sample (lit ''c1'') (lit ''_ping_'') [] open_client = (A, Inr f)"
    using std_call_begins by blast
  from builtin_call_round_trip [OF std_sample_def _ this, of PING_RESPONSE sample_client] show ?thesis
    by (auto simp: wf_dict_def)
qed

section \<open>Text that is not JSON\<close>



section \<open>Closing\<close>



text \<open>
  What happens after the reader has ended with an exception: \<open>close\<close> raises that exception
  before it cleans up, so the socket stays, and \<open>connect\<close> refuses.
\<close>

theorem close_after_failed_reader:
  assumes "c_reader c = Failed e"
  shows "close out c = (c, Inl e) \<and>
    (c_ws c \<longrightarrow> connect out' (fst (close out c)) = (c, raise RuntimeError ''already connected''))"
  using assms by (simp add: close_def close_begin_def close_middle_def connect_def)

theorem close_after_failed_reader_witness:
  "snd (connect (Inr ()) (fst (close (Inr ()) (open_client\<lparr>c_reader := Failed (Exn TypeError [])\<rparr>)))) =
     raise RuntimeError ''already connected''"
proof -
  let ?c = "open_client\<lparr>c_reader := Failed (Exn TypeError [])\<rparr>"
  have "c_reader ?c = Failed (Exn TypeError [])" "c_ws ?c" by (simp_all add: open_client_def)
  with close_after_failed_reader [of ?c "Exn TypeError []" "Inr ()" "Inr ()"]
  have "connect (Inr ()) (fst (close (Inr ()) ?c)) = (?c, raise RuntimeError ''already connected'')" by blast
  then show ?thesis by (simp only: snd_conv)
qed

text \<open>
  One malformed envelope ends the reader: a \<open>receive_envelope\<close> call whose body has a chunk marker
  without a version makes the reader loop end with a \<open>ValueError\<close>, and cancels every call and wait.
\<close>

theorem malformed_chunk_ends_reader:
  assumes "loads_message L s = Inr (PDict msg)" "extract_request L msg = Some req" "get msg ''response'' = PNone"
    and "rq_method req = lit ''receive_envelope''" "rq_arguments req = Some args"
    and "get args ''body'' = PDict [(CHUNK_MARKER, PDict meta)]" "map_of meta (lit ''version'') = None"
  shows "\<exists>e. exn_class e = ValueError \<and> reader_frame L (Text s) c = reader_stop (Some e) c \<and>
    c_reader (reader_frame L (Text s) c) = Failed e"
proof -
  have "is_pending_rpc_call msg" using assms(2) by (auto elim: extract_request_SomeD)
  moreover have "try_complete_pending L msg c = (c, False)"
    using assms(3) by (simp add: try_complete_pending_def)
  moreover have "\<exists>e. exn_class e = ValueError \<and> is_chunk_envelope [(CHUNK_MARKER, PDict meta)] = Inl e"
    using assms(7) by (simp add: is_chunk_envelope_def chunk_meta_def meta_int_def dict_get_None raise_def)
  then obtain e where e: "exn_class e = ValueError" "is_chunk_envelope [(CHUNK_MARKER, PDict meta)] = Inl e" by blast
  then have "invoke_receive_envelope L args c = (c, Inl e)"
    using assms(6) by (simp add: invoke_receive_envelope_def)
  ultimately have "reader_frame L (Text s) c = reader_stop (Some e) c"
    using assms(1-5) by (simp add: reader_frame_def handle_frame_def handle_message_def dispatch_inbound_def
        EXPOSED_BUILT_IN_METHODS_def reader_goto_def)
  with e(1) show ?thesis by (auto simp: reader_stop_def)
qed

theorem malformed_chunk_ends_reader_witness:
  "\<exists>e. exn_class e = ValueError \<and> c_reader (reader_frame wire_lib (Text (lit ''e'')) open_client) = Failed e"
proof -
  let ?args = "[(lit ''body'', PDict [(CHUNK_MARKER, PDict [])])]"
  have "loads_message wire_lib (lit ''e'') = Inr (PDict sample_envelope_call)"
    by (simp add: loads_message_def)
  moreover have "extract_request wire_lib sample_envelope_call =
      Some \<lparr>rq_method = lit ''receive_envelope'', rq_call_id = lit ''c2'', rq_arguments = Some ?args\<rparr>"
    unfolding sample_envelope_call_def by (rule extract_call_request)
  moreover have "get sample_envelope_call ''response'' = PNone"
    by (simp add: sample_envelope_call_def call_request_message_def)
  ultimately show ?thesis
    using malformed_chunk_ends_reader [of wire_lib "lit ''e''" sample_envelope_call _ ?args "[]" open_client]
    by auto
qed

end
