(* ===== verification/ClientPost.thy ===== *)
theory ClientPost
  imports ClientBase ChunkRoundtrip
begin

text \<open>
  The outbound operations of the client (\<open>client/base.py\<close>): \<open>set_state\<close>, \<open>post_message\<close> and its
  chunked and automatic forms.  They are sequences of awaited calls, so they are stated over
  \<open>call m args s\<close>, the outcome of \<open>await self._call_remote(m, args)\<close> from the state \<open>s\<close> of
  everything the call can see and change (\<open>ClientBase\<close> and \<open>ClientSteps\<close> have its segments).
\<close>

type_synonym 's remote_call = "pystr \<Rightarrow> pydict \<Rightarrow> 's \<Rightarrow> 's \<times> (py_exn + pyval)"

definition set_state :: "'s remote_call \<Rightarrow> pystr \<Rightarrow> pyval \<Rightarrow> 's \<Rightarrow> 's \<times> (py_exn + pyval)" where
  "set_state call key value s = call (lit ''set_state'') (set_state_arguments key value) s"

definition post_message ::
    "pylib \<Rightarrow> 's remote_call \<Rightarrow> pystr \<Rightarrow> pyval \<Rightarrow> pystr \<Rightarrow> 's \<Rightarrow> 's \<times> (py_exn + pystr)" where
  "post_message L call receiver body request_id s =
     (let (s1, r) = call (lit ''post_message'') (post_message_arguments receiver body request_id) s
      in (s1, rbind r (\<lambda>v. Inr (lib_str L v))))"

fun post_each ::
    "pylib \<Rightarrow> 's remote_call \<Rightarrow> pystr \<Rightarrow> (pystr \<times> pydict) list \<Rightarrow> 's \<Rightarrow> 's \<times> (py_exn + pystr list)" where
  "post_each L call receiver [] s = (s, Inr [])"
| "post_each L call receiver ((transport_id, chunk) # rest) s =
     (case post_message L call receiver (PDict chunk) transport_id s of
        (s1, Inl e) \<Rightarrow> (s1, Inl e)
      | (s1, Inr resp) \<Rightarrow>
          (case post_each L call receiver rest s1 of
             (s2, Inl e) \<Rightarrow> (s2, Inl e)
           | (s2, Inr resps) \<Rightarrow> (s2, Inr (resp # resps))))"

text \<open>
  \<open>zip(..., strict=True)\<close>: the ids and the bodies are equally many, as \<open>chunk_plan_lengths\<close> shows.
\<close>

definition chunk_plan ::
    "pylib \<Rightarrow> pystr \<Rightarrow> pyval \<Rightarrow> pystr \<Rightarrow> int \<Rightarrow> bool \<Rightarrow> py_exn + encoded_chunk_batch \<times> pystr list" where
  "chunk_plan L fresh_id body request_id chunk_size compress =
     rbind (encode_chunked_bodies L fresh_id body request_id chunk_size compress None) (\<lambda>batch.
     rbind (make_chunk_transport_request_ids (ecb_transfer_id batch) request_id (ecb_chunk_count batch))
       (\<lambda>ids. Inr (batch, ids)))"

definition post_message_chunked ::
    "pylib \<Rightarrow> 's remote_call \<Rightarrow> pystr \<Rightarrow> pystr \<Rightarrow> pyval \<Rightarrow> pystr \<Rightarrow> int \<Rightarrow> bool \<Rightarrow> 's \<Rightarrow>
     's \<times> (py_exn + chunk_send_report)" where
  "post_message_chunked L call fresh_id receiver body request_id chunk_size compress s =
     (case chunk_plan L fresh_id body request_id chunk_size compress of
        Inl e \<Rightarrow> (s, Inl e)
      | Inr (batch, ids) \<Rightarrow>
          (case post_each L call receiver (zip ids (ecb_bodies batch)) s of
             (s1, Inl e) \<Rightarrow> (s1, Inl e)
           | (s1, Inr responses) \<Rightarrow>
               (s1, Inr \<lparr>csr_transfer_id = ecb_transfer_id batch, csr_request_id = request_id,
                         csr_chunk_count = ecb_chunk_count batch,
                         csr_transport_request_ids = ids, csr_responses = responses\<rparr>)))"

definition post_message_auto ::
    "pylib \<Rightarrow> 's remote_call \<Rightarrow> pystr \<Rightarrow> pystr \<Rightarrow> pyval \<Rightarrow> pystr \<Rightarrow> int \<Rightarrow> int \<Rightarrow> bool \<Rightarrow> 's \<Rightarrow>
     's \<times> (py_exn + auto_post_message_result)" where
  "post_message_auto L call fresh_id receiver body request_id threshold chunk_size compress s =
     (if threshold < 1 then (s, raise ValueError ''auto_chunk_threshold must be >= 1'')
      else case estimate_body_wire_bytes L body of
        Inl e \<Rightarrow> (s, Inl e)
      | Inr n \<Rightarrow>
          if n < threshold
          then (case post_message L call receiver body request_id s of
                  (s1, r) \<Rightarrow> (s1, rbind r (\<lambda>resp.
                     Inr \<lparr>apr_chunked = False, apr_response = Some resp, apr_chunk_report = None\<rparr>)))
          else (case post_message_chunked L call fresh_id receiver body request_id chunk_size compress s of
                  (s1, r) \<Rightarrow> (s1, rbind r (\<lambda>report.
                     Inr \<lparr>apr_chunked = True, apr_response = None, apr_chunk_report = Some report\<rparr>))))"

section \<open>The calls that are made\<close>

text \<open>\<open>logged call\<close> keeps, beside the state, the calls made so far with their outcomes.\<close>

type_synonym call_log = "(pystr \<times> pydict \<times> (py_exn + pyval)) list"

definition logged :: "'s remote_call \<Rightarrow> ('s \<times> call_log) remote_call" where
  "logged call m args st =
     (let (s1, r) = call m args (fst st) in ((s1, snd st @ [(m, args, r)]), r))"

lemma logged_pair:
  "logged call m args (s, log) = (let (s1, r) = call m args s in ((s1, log @ [(m, args, r)]), r))"
  by (simp add: logged_def)

definition planned :: "pystr \<Rightarrow> pystr \<times> pydict \<Rightarrow> pystr \<times> pydict" where
  "planned receiver p = (lit ''post_message'', post_message_arguments receiver (PDict (snd p)) (fst p))"

definition call_of :: "pystr \<times> pydict \<times> (py_exn + pyval) \<Rightarrow> pystr \<times> pydict" where
  "call_of x = (fst x, fst (snd x))"

definition outcome_of :: "pystr \<times> pydict \<times> (py_exn + pyval) \<Rightarrow> py_exn + pyval" where
  "outcome_of x = snd (snd x)"

text \<open>
  Posting one after another: the calls are those planned, in order, up to the first that raises,
  and the outcome is that exception or the texts of all the results.
\<close>

lemma post_each_log:
  assumes "post_each L (logged call) receiver ps (s, log) = ((s', log'), r)"
  shows "\<exists>made. log' = log @ made \<and>
    map call_of made = map (planned receiver) (take (length made) ps) \<and>
    (case r of
       Inl e \<Rightarrow> made \<noteq> [] \<and> outcome_of (last made) = Inl e \<and> (\<forall>x \<in> set (butlast made). \<not> isl (outcome_of x))
     | Inr resps \<Rightarrow> length made = length ps \<and> (\<forall>x \<in> set made. \<not> isl (outcome_of x)) \<and>
         resps = map (\<lambda>x. lib_str L (projr (outcome_of x))) made)"
  using assms
proof (induction ps arbitrary: s log r)
  case (Cons p ps)
  obtain tid body where p: "p = (tid, body)" by fastforce
  let ?args = "post_message_arguments receiver (PDict body) tid"
  obtain s1 r1 where c: "call (lit ''post_message'') ?args s = (s1, r1)" by fastforce
  let ?x = "(lit ''post_message'', ?args, r1)"
  have x: "call_of ?x = planned receiver p" "outcome_of ?x = r1"
    by (simp_all add: call_of_def planned_def outcome_of_def p)
  show ?case
  proof (cases r1)
    case (Inl e)
    then have "log' = log @ [?x]" "r = Inl e"
      using Cons.prems c by (auto simp: p post_message_def logged_pair)
    with x Inl show ?thesis by (intro exI [of _ "[?x]"]) simp
  next
    case (Inr v)
    obtain st2 r2 where rec: "post_each L (logged call) receiver ps (s1, log @ [?x]) = (st2, r2)" by fastforce
    with Cons.prems c Inr have st: "st2 = (s', log')"
      and r: "r = (case r2 of Inl e \<Rightarrow> Inl e | Inr resps \<Rightarrow> Inr (lib_str L v # resps))"
      by (auto simp: p post_message_def logged_pair split: sum.splits)
    from Cons.IH [OF rec [unfolded st]] obtain made where
      made: "log' = (log @ [?x]) @ made" "map call_of made = map (planned receiver) (take (length made) ps)"
      and out: "case r2 of
       Inl e \<Rightarrow> made \<noteq> [] \<and> outcome_of (last made) = Inl e \<and> (\<forall>x \<in> set (butlast made). \<not> isl (outcome_of x))
     | Inr resps \<Rightarrow> length made = length ps \<and> (\<forall>x \<in> set made. \<not> isl (outcome_of x)) \<and>
         resps = map (\<lambda>x. lib_str L (projr (outcome_of x))) made" by blast
    then show ?thesis
      using x Inr r by (intro exI [of _ "?x # made"]) (auto split: sum.splits)
  qed
qed (auto intro: exI [of _ "[]"])

lemma chunk_planD:
  assumes "chunk_plan L fresh body rid n compress = Inr (batch, ids)"
  shows "encode_chunked_bodies L fresh body rid n compress None = Inr batch"
    "make_chunk_transport_request_ids (ecb_transfer_id batch) rid (ecb_chunk_count batch) = Inr ids"
  using assms by (auto simp: chunk_plan_def rbind_eq_Inr)

lemma encode_body:
  "encode_chunked_bodies L fresh body rid n compress tid = Inr batch \<Longrightarrow>
     \<exists>d. body_payload ''chunked body must be a dict or None'' body = Inr d \<and>
         encode_chunked_bodies L fresh (PDict d) rid n compress tid = Inr batch"
  by (auto simp: encode_chunked_bodies_def rbind_eq_Inr body_payload_def split: if_splits)

lemma chunk_plan_lengths:
  assumes "chunk_plan L fresh body rid n compress = Inr (batch, ids)"
  shows "length ids = length (ecb_bodies batch)" "int (length ids) = ecb_chunk_count batch"
proof -
  obtain d where "encode_chunked_bodies L fresh (PDict d) rid n compress None = Inr batch"
    using encode_body [OF chunk_planD(1) [OF assms]] by blast
  from encode_chunked_bodiesD [OF this] obtain enc ce where
    "batch = make_batch L (pick_transfer_id fresh None) rid n enc ce" by blast
  then have "ecb_chunk_count batch = int (length (ecb_bodies batch))"
    by (simp add: make_batch_simps)
  with chunk_planD(2) [OF assms] show "length ids = length (ecb_bodies batch)" "int (length ids) = ecb_chunk_count batch"
    by (auto simp: make_chunk_transport_request_ids_def Let_def split: if_splits)
qed

text \<open>Whatever form of posting is chosen, all its calls are \<open>post_message\<close> to the receiver.\<close>

definition posts_to :: "pystr \<Rightarrow> pystr \<times> pydict \<times> (py_exn + pyval) \<Rightarrow> bool" where
  "posts_to receiver x \<longleftrightarrow>
     (\<exists>body tid. call_of x = (lit ''post_message'', post_message_arguments receiver body tid))"

lemma post_message_chunked_each:
  assumes "post_message_chunked L call fresh receiver body rid n compress s = (s', r)"
  shows "(\<exists>e. chunk_plan L fresh body rid n compress = Inl e \<and> r = Inl e \<and> s' = s) \<or>
    (\<exists>batch ids rs. chunk_plan L fresh body rid n compress = Inr (batch, ids) \<and>
       post_each L call receiver (zip ids (ecb_bodies batch)) s = (s', rs))"
  using assms by (auto simp: post_message_chunked_def split: sum.splits prod.splits)

lemma post_each_receiver:
  assumes "post_each L (logged call) receiver ps (s, log) = ((s', log'), r)"
  shows "\<exists>made. log' = log @ made \<and> (\<forall>x \<in> set made. posts_to receiver x)"
proof -
  from post_each_log [OF assms] obtain made where made: "log' = log @ made"
    and calls: "map call_of made = map (planned receiver) (take (length made) ps)" by blast
  have "posts_to receiver x" if "x \<in> set made" for x
  proof -
    have "call_of x \<in> set (map (planned receiver) (take (length made) ps))"
      using that unfolding calls [symmetric] by simp
    then show ?thesis by (auto simp: posts_to_def planned_def)
  qed
  with made show ?thesis by blast
qed

lemma post_message_auto_receiver:
  assumes "post_message_auto L (logged call) fresh receiver body rid threshold n compress (s, log) = ((s', log'), r)"
  shows "\<exists>made. log' = log @ made \<and> (\<forall>x \<in> set made. posts_to receiver x)"
proof (cases "\<exists>size. 1 \<le> threshold \<and> estimate_body_wire_bytes L body = Inr size")
  case False
  then have "log' = log"
    using assms by (auto simp: post_message_auto_def split: if_splits sum.splits)
  then show ?thesis by auto
next
  case True
  then obtain size where size: "1 \<le> threshold" "estimate_body_wire_bytes L body = Inr size" by blast
  show ?thesis
  proof (cases "size < threshold")
    case True
    with assms size obtain v where "log' = log @ [(lit ''post_message'', post_message_arguments receiver body rid, v)]"
      by (auto simp: post_message_auto_def post_message_def logged_pair split: prod.splits)
    then show ?thesis by (auto simp: posts_to_def call_of_def)
  next
    case False
    with assms size obtain r1 where
      "post_message_chunked L (logged call) fresh receiver body rid n compress (s, log) = ((s', log'), r1)"
      by (auto simp: post_message_auto_def split: prod.splits)
    from post_message_chunked_each [OF this] post_each_receiver show ?thesis by fastforce
  qed
qed

end
