(* ===== verification/PostProps.thy ===== *)
theory PostProps
  imports ClientPost Samples
begin

text \<open>The properties of the outbound operations (\<open>client/base.py\<close>).\<close>

text \<open>
  C18: \<open>post_message_chunked\<close> posts the envelopes of the batch in order, each with its own transport
  id, one call after the other: a call that raises is the last one made and its exception is the
  outcome; otherwise the report has the result of every call.
\<close>

theorem chunked_post_in_order:
  assumes "post_message_chunked L (logged call) fresh receiver body rid n compress (s, []) = ((s', log), r)"
  shows "case chunk_plan L fresh body rid n compress of
      Inl e \<Rightarrow> log = [] \<and> s' = s \<and> r = Inl e
    | Inr (batch, ids) \<Rightarrow>
        map call_of log = map (planned receiver) (take (length log) (zip ids (ecb_bodies batch))) \<and>
        (case r of
           Inl e \<Rightarrow> log \<noteq> [] \<and> outcome_of (last log) = Inl e \<and> (\<forall>x \<in> set (butlast log). \<not> isl (outcome_of x))
         | Inr report \<Rightarrow> int (length log) = ecb_chunk_count batch \<and>
             csr_transport_request_ids report = ids \<and> csr_chunk_count report = ecb_chunk_count batch \<and>
             (\<forall>x \<in> set log. \<not> isl (outcome_of x)) \<and>
             csr_responses report = map (\<lambda>x. lib_str L (projr (outcome_of x))) log)"
proof (cases "chunk_plan L fresh body rid n compress")
  case (Inr p)
  obtain batch ids where p: "p = (batch, ids)" by fastforce
  let ?ps = "zip ids (ecb_bodies batch)"
  note len = chunk_plan_lengths [OF Inr [unfolded p]]
  obtain st rs where e: "post_each L (logged call) receiver ?ps (s, []) = (st, rs)" by fastforce
  with assms Inr p have st: "st = (s', log)"
    and r: "r = rbind rs (\<lambda>responses. Inr \<lparr>csr_transfer_id = ecb_transfer_id batch, csr_request_id = rid,
      csr_chunk_count = ecb_chunk_count batch, csr_transport_request_ids = ids, csr_responses = responses\<rparr>)"
    by (auto simp: post_message_chunked_def split: sum.splits)
  from post_each_log [OF e [unfolded st]] obtain
    "map call_of log = map (planned receiver) (take (length log) ?ps)" and
    out: "case rs of
       Inl e \<Rightarrow> log \<noteq> [] \<and> outcome_of (last log) = Inl e \<and> (\<forall>x \<in> set (butlast log). \<not> isl (outcome_of x))
     | Inr resps \<Rightarrow> length log = length ?ps \<and> (\<forall>x \<in> set log. \<not> isl (outcome_of x)) \<and>
         resps = map (\<lambda>x. lib_str L (projr (outcome_of x))) log" by auto
  with Inr p r len show ?thesis
    by (cases rs) auto
qed (use assms in \<open>simp add: post_message_chunked_def\<close>)

definition accepting :: "nat remote_call" where
  "accepting m args s = (Suc s, Inr (PInt (int s)))"

theorem chunked_post_in_order_witness:
  "\<exists>s' log r. post_message_chunked sample_lib (logged accepting) (lit ''t1'') (lit ''bob'') (PDict sample_body)
      (lit ''job'') 0 False (0, []) = ((s', log), r) \<and> log = []"
proof -
  obtain s' log r where p: "post_message_chunked sample_lib (logged accepting) (lit ''t1'') (lit ''bob'')
      (PDict sample_body) (lit ''job'') 0 False (0, []) = ((s', log), r)" by (metis surj_pair)
  from chunked_post_in_order [OF p] have "log = []"
    by (simp add: chunk_plan_def encode_chunked_bodies_def raise_def)
  with p show ?thesis by blast
qed

text \<open>
  C19: \<open>post_message_auto\<close> posts a body as it is, in one call, only if its JSON text is shorter than the
  threshold; otherwise every body it posts is a chunk envelope that carries at most \<open>chunk_size\<close>
  bytes.
\<close>

theorem auto_post_bounds_bodies:
  assumes "post_message_auto L (logged call) fresh receiver body rid threshold n compress (s, []) = ((s', log), r)"
    and "x \<in> set log"
  shows "(log = [x] \<and> call_of x = (lit ''post_message'', post_message_arguments receiver body rid) \<and>
       (\<exists>size. estimate_body_wire_bytes L body = Inr size \<and> size < threshold)) \<or>
    (\<exists>tid chunk c. call_of x = (lit ''post_message'', post_message_arguments receiver (PDict chunk) tid) \<and>
       read_chunk L chunk = Inr c \<and> int (length (cf_bytes c)) \<le> n)"
proof -
  obtain size where size: "estimate_body_wire_bytes L body = Inr size"
    using assms by (auto simp: post_message_auto_def split: if_splits sum.splits)
  show ?thesis
  proof (cases "size < threshold")
    case True
    with assms size show ?thesis
      by (auto simp: post_message_auto_def post_message_def logged_pair call_of_def raise_def
          split: if_splits prod.splits)
  next
    case False
    obtain r1 where p: "post_message_chunked L (logged call) fresh receiver body rid n compress (s, []) = ((s', log), r1)"
      using assms size False by (auto simp: post_message_auto_def raise_def split: if_splits prod.splits)
    then obtain batch ids where plan: "chunk_plan L fresh body rid n compress = Inr (batch, ids)"
      using assms(2) by (auto simp: post_message_chunked_def split: sum.splits prod.splits)
    have "\<exists>rs. post_each L (logged call) receiver (zip ids (ecb_bodies batch)) (s, []) = ((s', log), rs)"
      using p plan by (auto simp: post_message_chunked_def split: sum.splits prod.splits)
    then obtain rs where "post_each L (logged call) receiver (zip ids (ecb_bodies batch)) (s, []) = ((s', log), rs)" ..
    from post_each_log [OF this]
    have "map call_of log = map (planned receiver) (take (length log) (zip ids (ecb_bodies batch)))" by auto
    then have "call_of x \<in> planned receiver ` set (take (length log) (zip ids (ecb_bodies batch)))"
      using assms(2) by (metis image_eqI set_map)
    then obtain q where q: "q \<in> set (zip ids (ecb_bodies batch))" "call_of x = planned receiver q"
      by (auto dest: in_set_takeD)
    then obtain i where i: "i < length (ecb_bodies batch)" "snd q = ecb_bodies batch ! i"
      by (auto simp: in_set_zip)
    obtain d where "encode_chunked_bodies L fresh (PDict d) rid n compress None = Inr batch"
      using encode_body [OF chunk_planD(1) [OF plan]] by blast
    then obtain enc ce where n: "1 \<le> n" and b: "batch = make_batch L (pick_transfer_id fresh None) rid n enc ce"
      by (rule encode_chunked_bodiesD)
    then have "i < length (split_payload n enc)" using i by (simp add: make_batch_simps)
    from envelope_of_batch [OF n this] obtain c where
      "read_chunk L (snd q) = Inr c" "int (length (cf_bytes c)) \<le> n"
      unfolding i(2) b by blast
    with q(2) show ?thesis by (intro disjI2 exI conjI) (auto simp: planned_def)
  qed
qed

lemma sample_estimate: "estimate_body_wire_bytes sample_lib PNone = Inr 2"
proof -
  have "utf8_encode (lit ''{}'') = Inr (map of_nat (lit ''{}''))"
    by (rule utf8_encode_ascii) (simp add: lit_Cons)
  then show ?thesis
    by (simp add: estimate_body_wire_bytes_def body_payload_def json_body_bytes_def sample_dumps_def lit_Cons)
qed

theorem auto_post_bounds_bodies_witness:
  "(\<exists>size. estimate_body_wire_bytes sample_lib PNone = Inr size \<and> size < 10) \<or>
   (\<exists>chunk c. read_chunk sample_lib chunk = Inr c \<and> int (length (cf_bytes c)) \<le> 4)"
proof -
  let ?x = "(lit ''post_message'', post_message_arguments (lit ''bob'') PNone (lit ''job''), Inr (PInt 0))"
  have "post_message_auto sample_lib (logged accepting) (lit ''t1'') (lit ''bob'') PNone (lit ''job'') 10 4 False (0, [])
      = ((1, [?x]), Inr \<lparr>apr_chunked = False, apr_response = Some (show_int 0), apr_chunk_report = None\<rparr>)"
    by (simp add: post_message_auto_def sample_estimate post_message_def logged_pair accepting_def)
  from auto_post_bounds_bodies [OF this, of ?x] show ?thesis by auto
qed

end
