(* ===== verification/HandlerClient.thy ===== *)
theory HandlerClient
  imports ClientPost
begin

text \<open>
  \<open>src/rpcproxy/client/handler_client.py\<close>: the client that acknowledges an envelope at once and runs
  a user handler on it in a task of its own, at most \<open>max_inflight\<close> at a time; the result is posted
  back to the sender.  The handler and the outcomes of awaited calls are parameters; \<open>'s\<close> is
  whatever state they can see.
\<close>

section \<open>Data\<close>

record handler_result =
  hr_body :: pyval
  hr_request_id :: pystr
  hr_skip_post :: bool

record handler_config =
  hc_max_inflight :: int
  hc_threshold :: int
  hc_chunk_size :: int
  hc_compress :: bool

definition check_handler_config :: "handler_config \<Rightarrow> py_exn + handler_config" where
  "check_handler_config cfg =
     (if hc_max_inflight cfg < 1 then raise ValueError ''max_inflight must be >= 1''
      else if hc_threshold cfg < 1 then raise ValueError ''auto_chunk_threshold must be >= 1''
      else if hc_chunk_size cfg < 1 then raise ValueError ''auto_chunk_size must be >= 1''
      else Inr cfg)"

text \<open>The bounds a client gets when none are given\<close>

definition default_handler_config :: handler_config where
  "default_handler_config =
     \<lparr>hc_max_inflight = 8, hc_threshold = DEFAULT_AUTO_CHUNK_THRESHOLD, hc_chunk_size = 256 * 1024, hc_compress = False\<rparr>"

text \<open>\<open>__init__\<close>, given the outcome of \<open>super().__init__(**kwargs)\<close>\<close>

definition new_handler_client :: "py_exn + client \<Rightarrow> handler_config \<Rightarrow> py_exn + client \<times> handler_config" where
  "new_handler_client base cfg =
     rbind base (\<lambda>c. rbind (check_handler_config cfg) (\<lambda>cfg. Inr (c, cfg)))"

section \<open>Receiving\<close>

definition arguments_to_receive_kwargs :: "pylib \<Rightarrow> pydict \<Rightarrow> envelope" where
  "arguments_to_receive_kwargs L args =
     (let body = get args ''body'';
          body = (if body \<noteq> PNone \<and> \<not> is_dict body then PNone else body);
          extra = filter (\<lambda>(k, v). k \<notin> set RECEIVE_ENVELOPE_KEYS) args
      in \<lparr>ev_message_type = arg_str L args ''message_type'', ev_kind = arg_str L args ''kind'',
          ev_client_id = arg_str L args ''client_id'', ev_sender = arg_str L args ''sender'',
          ev_receiver = arg_str L args ''receiver'',
          ev_body = (case body of PDict d \<Rightarrow> Some d | _ \<Rightarrow> None),
          ev_request_id = arg_str L args ''request_id'', ev_extra = extra\<rparr>)"

definition pipeline_arguments :: "envelope \<Rightarrow> pydict" where
  "pipeline_arguments ev =
     dict_update
       [(lit ''message_type'', PStr (ev_message_type ev)), (lit ''kind'', PStr (ev_kind ev)),
        (lit ''client_id'', PStr (ev_client_id ev)), (lit ''sender'', PStr (ev_sender ev)),
        (lit ''receiver'', PStr (ev_receiver ev)), (lit ''request_id'', PStr (ev_request_id ev)),
        (lit ''body'', PDict (case ev_body ev of Some b \<Rightarrow> b | None \<Rightarrow> []))]
       (ev_extra ev)"

text \<open>\<open>receive_envelope\<close>: the answer, and the arguments of the pipeline task it creates.\<close>

definition receive_envelope :: "pylib \<Rightarrow> envelope \<Rightarrow> pydict \<times> pydict option" where
  "receive_envelope L ev =
     (let arguments = pipeline_arguments ev
      in if py_strip (arg_str L arguments ''request_id'') = [] then (ok_result False, None)
         else (ok_result True, Some arguments))"

text \<open>The declared type of the arguments; extra keys are allowed at run time.\<close>

definition envelope_arguments :: "pydict \<Rightarrow> bool" where
  "envelope_arguments d \<longleftrightarrow>
     (\<forall>k \<in> set [''message_type'', ''kind'', ''client_id'', ''sender'', ''receiver'', ''request_id''].
        map_of d (lit k) = None \<or> is_str (get d k)) \<and>
     (map_of d (lit ''body'') = None \<or> is_dict (get d ''body''))"

section \<open>The pipeline\<close>

definition post_message_receiver :: "pylib \<Rightarrow> pydict \<Rightarrow> pystr" where
  "post_message_receiver L args = arg_str L args ''sender''"

definition resolve_post_request_id :: "pylib \<Rightarrow> handler_result \<Rightarrow> pydict \<Rightarrow> pystr" where
  "resolve_post_request_id L result args =
     (if py_strip (hr_request_id result) \<noteq> [] then hr_request_id result
      else arg_str L args ''request_id'')"

type_synonym 's handler = "envelope \<Rightarrow> pydict \<Rightarrow> 's \<Rightarrow> 's \<times> (py_exn + handler_result)"

text \<open>An extra argument called \<open>arguments\<close> clashes with the keyword the client adds.\<close>

definition run_handler :: "pylib \<Rightarrow> 's handler \<Rightarrow> pydict \<Rightarrow> 's \<Rightarrow> 's \<times> (py_exn + handler_result)" where
  "run_handler L handler args s =
     (let kw = arguments_to_receive_kwargs L args
      in if map_of (ev_extra kw) (lit ''arguments'') \<noteq> None
         then (s, raise TypeError ''multiple values for keyword argument arguments'')
         else handler kw args s)"

text \<open>
  \<open>_run_handler_pipeline_unlocked\<close>.  \<open>on_handler_exception\<close> and the failure of the post only log;
  what is no \<open>Exception\<close> (a cancellation) passes through.
\<close>

definition run_handler_pipeline_unlocked ::
    "pylib \<Rightarrow> handler_config \<Rightarrow> 's handler \<Rightarrow> 's remote_call \<Rightarrow> pystr \<Rightarrow> pydict \<Rightarrow> 's \<Rightarrow>
     's \<times> (py_exn + unit)" where
  "run_handler_pipeline_unlocked L cfg handler call fresh_id args s =
     (case run_handler L handler args s of
        (s1, Inl e) \<Rightarrow> (s1, if is_exception e then Inr () else Inl e)
      | (s1, Inr result) \<Rightarrow>
          if hr_skip_post result then (s1, Inr ())
          else case post_message_auto L call fresh_id (post_message_receiver L args) (hr_body result)
                      (resolve_post_request_id L result args) (hc_threshold cfg) (hc_chunk_size cfg)
                      (hc_compress cfg) s1 of
                 (s2, Inl e) \<Rightarrow> (s2, if is_exception e then Inr () else Inl e)
               | (s2, Inr _) \<Rightarrow> (s2, Inr ()))"

section \<open>Concurrency\<close>

text \<open>
  The pipelines: \<open>asyncio.Semaphore\<close> lets tasks in in the order in which they ask, and a task asks in
  the order of its creation.  \<open>q_accepted\<close> and \<open>q_started\<close> record the arguments of the envelopes
  accepted and of the pipelines that got past the semaphore.
\<close>

record pipelines =
  q_free :: int
  q_waiting :: "pydict list"
  q_running :: "pydict list"
  q_accepted :: "pydict list"
  q_started :: "pydict list"

definition new_pipelines :: "handler_config \<Rightarrow> pipelines" where
  "new_pipelines cfg =
     \<lparr>q_free = hc_max_inflight cfg, q_waiting = [], q_running = [], q_accepted = [], q_started = []\<rparr>"

inductive pipeline_step :: "pylib \<Rightarrow> pipelines \<Rightarrow> pipelines \<Rightarrow> bool" for L where
  accept: "receive_envelope L ev = (r, Some args) \<Longrightarrow>
    pipeline_step L q (q\<lparr>q_waiting := q_waiting q @ [args], q_accepted := q_accepted q @ [args]\<rparr>)"
| refuse: "receive_envelope L ev = (r, None) \<Longrightarrow> pipeline_step L q q"
| acquire: "q_waiting q = args # rest \<Longrightarrow> 0 < q_free q \<Longrightarrow>
    pipeline_step L q (q\<lparr>q_free := q_free q - 1, q_waiting := rest, q_running := args # q_running q,
      q_started := q_started q @ [args]\<rparr>)"
| release: "args \<in> set (q_running q) \<Longrightarrow>
    pipeline_step L q (q\<lparr>q_free := q_free q + 1, q_running := remove1 args (q_running q)\<rparr>)"

inductive_cases pipeline_stepE: "pipeline_step L q q'"

section \<open>Lemmas\<close>

lemma arguments_to_receive_kwargs_eq: "arguments_to_receive_kwargs L args = envelope_of L args"
  by (cases "get args ''body''")
    (auto simp: arguments_to_receive_kwargs_def envelope_of_def dict_body_def extra_arguments_def Let_def)

lemma map_of_rev_distinct:
  assumes "wf_dict d"
  shows "map_of (rev d) = map_of d"
proof -
  have "distinct (map fst (rev d))" using assms by (simp add: wf_dict_def rev_map [symmetric])
  then have "map_of (rev d) k = Some v \<longleftrightarrow> map_of d k = Some v" for k v
    using assms by (simp add: wf_dict_def)
  then show ?thesis by (metis option.exhaust ext)
qed

lemma pipeline_arguments_lookup:
  assumes "wf_dict (ev_extra ev)" "fst ` set (ev_extra ev) \<inter> set RECEIVE_ENVELOPE_KEYS = {}"
  shows "map_of (pipeline_arguments ev) k =
    (if k = lit ''message_type'' then Some (PStr (ev_message_type ev))
     else if k = lit ''kind'' then Some (PStr (ev_kind ev))
     else if k = lit ''client_id'' then Some (PStr (ev_client_id ev))
     else if k = lit ''sender'' then Some (PStr (ev_sender ev))
     else if k = lit ''receiver'' then Some (PStr (ev_receiver ev))
     else if k = lit ''request_id'' then Some (PStr (ev_request_id ev))
     else if k = lit ''body'' then Some (PDict (case ev_body ev of Some b \<Rightarrow> b | None \<Rightarrow> []))
     else map_of (ev_extra ev) k)"
proof -
  have rev: "map_of (rev (ev_extra ev)) = map_of (ev_extra ev)"
    by (rule map_of_rev_distinct [OF assms(1)])
  show ?thesis
  proof (cases "map_of (ev_extra ev) k")
    case None
    then show ?thesis unfolding pipeline_arguments_def map_of_dict_update rev by simp
  next
    case (Some v)
    then have "k \<notin> set RECEIVE_ENVELOPE_KEYS" using assms(2) map_of_key [OF Some] by blast
    then have "k \<noteq> lit ''message_type'' \<and> k \<noteq> lit ''kind'' \<and> k \<noteq> lit ''client_id'' \<and> k \<noteq> lit ''sender'' \<and>
      k \<noteq> lit ''receiver'' \<and> k \<noteq> lit ''request_id'' \<and> k \<noteq> lit ''body''"
      by (simp add: RECEIVE_ENVELOPE_KEYS_def)
    with Some show ?thesis unfolding pipeline_arguments_def map_of_dict_update rev by simp
  qed
qed

text \<open>The arguments a pipeline runs on have their declared type.\<close>

lemma pipeline_arguments_typed:
  assumes "wf_dict (ev_extra ev)" "fst ` set (ev_extra ev) \<inter> set RECEIVE_ENVELOPE_KEYS = {}"
  shows "envelope_arguments (pipeline_arguments ev)"
  by (simp add: envelope_arguments_def dict_get_def pipeline_arguments_lookup [OF assms])

lemma dict_update_disjoint:
  assumes "wf_dict e" "fst ` set d \<inter> fst ` set e = {}"
  shows "dict_update d e = d @ e"
  using assms
proof (induction e arbitrary: d)
  case (Cons p e)
  obtain k v where p: "p = (k, v)" by fastforce
  have "dict_set k v d = d @ [(k, v)]" using Cons.prems(2) by (intro dict_set_absent) (auto simp: p)
  then have "dict_update d (p # e) = dict_update (d @ [(k, v)]) e" by (simp add: dict_update_def p)
  also have "\<dots> = (d @ [(k, v)]) @ e"
    using Cons.prems by (intro Cons.IH) (auto simp: p wf_dict_def)
  finally show ?case by (simp add: p)
qed (simp add: dict_update_def)

lemma extra_pipeline_arguments:
  assumes "wf_dict (ev_extra ev)" "fst ` set (ev_extra ev) \<inter> set RECEIVE_ENVELOPE_KEYS = {}"
  shows "extra_arguments (pipeline_arguments ev) = ev_extra ev"
proof -
  have keep: "filter (\<lambda>(k, v). k \<notin> set RECEIVE_ENVELOPE_KEYS) (ev_extra ev) = ev_extra ev"
    using assms(2) by (auto simp: filter_id_conv)
  have "pipeline_arguments ev =
     [(lit ''message_type'', PStr (ev_message_type ev)), (lit ''kind'', PStr (ev_kind ev)),
        (lit ''client_id'', PStr (ev_client_id ev)), (lit ''sender'', PStr (ev_sender ev)),
        (lit ''receiver'', PStr (ev_receiver ev)), (lit ''request_id'', PStr (ev_request_id ev)),
        (lit ''body'', PDict (case ev_body ev of Some b \<Rightarrow> b | None \<Rightarrow> []))] @ ev_extra ev"
    unfolding pipeline_arguments_def using assms
    by (intro dict_update_disjoint) (auto simp: RECEIVE_ENVELOPE_KEYS_def)
  then show ?thesis
    using keep by (simp add: extra_arguments_def) (simp add: RECEIVE_ENVELOPE_KEYS_def)
qed

text \<open>The invariant of the pipelines.\<close>

definition pipelines_ok :: "handler_config \<Rightarrow> pipelines \<Rightarrow> bool" where
  "pipelines_ok cfg q \<longleftrightarrow>
     0 \<le> q_free q \<and> q_free q + int (length (q_running q)) = hc_max_inflight cfg \<and>
     q_accepted q = q_started q @ q_waiting q"

lemma pipeline_step_ok: "pipeline_step L q q' \<Longrightarrow> pipelines_ok cfg q \<Longrightarrow> pipelines_ok cfg q'"
  by (erule pipeline_stepE) (auto simp: pipelines_ok_def length_remove1 Suc_leI dest: length_pos_if_in_set)

end
