(* ===== verification/DemoLoop.thy ===== *)
theory DemoLoop
  imports HandlerClient
begin

text \<open>
  \<open>src/rpcproxy/demo_loop.py\<close>: the demo client, whose handler sends the body of an envelope back
  to its sender with \<open>is_echo\<close> set, and which announces a token when it has connected.
\<close>

text \<open>The log line is built with \<open>json.dumps\<close>, so what that raises is raised here.\<close>

definition echo_payload :: "envelope \<Rightarrow> pydict" where
  "echo_payload ev =
     [(lit ''message_type'', PStr (ev_message_type ev)), (lit ''kind'', PStr (ev_kind ev)),
      (lit ''client_id'', PStr (ev_client_id ev)), (lit ''sender'', PStr (ev_sender ev)),
      (lit ''receiver'', PStr (ev_receiver ev)),
      (lit ''body'', case ev_body ev of None \<Rightarrow> PNone | Some b \<Rightarrow> PDict b),
      (lit ''request_id'', PStr (ev_request_id ev))] @
     (if ev_extra ev = [] then [] else [(lit ''extra'', PDict (ev_extra ev))])"

definition demo_echo_envelope_handler :: "pylib \<Rightarrow> 's handler" where
  "demo_echo_envelope_handler L ev args s =
     (s, rbind (lib_dumps L False False (PDict (echo_payload ev))) (\<lambda>_.
       let out_body = dict_set (lit ''is_echo'') (PBool True) (case ev_body ev of None \<Rightarrow> [] | Some b \<Rightarrow> b)
       in Inr \<lparr>hr_body = PDict out_body, hr_request_id = [], hr_skip_post = False\<rparr>))"

text \<open>\<open>DemoRpcProxyClient.__init__\<close>: calls wait without a limit, all other arguments as for the base.\<close>

definition new_demo_client :: "pystr \<Rightarrow> int \<Rightarrow> int \<Rightarrow> handler_config \<Rightarrow> py_exn + client \<times> handler_config" where
  "new_demo_client channel_id stash_max chunk_max cfg =
     new_handler_client (new_client channel_id None stash_max chunk_max) cfg"

text \<open>\<open>on_unmatched_message\<close>: whether a warning is logged for the message.\<close>

definition warns_unmatched :: "pydict \<Rightarrow> bool" where
  "warns_unmatched msg \<longleftrightarrow> get msg ''kind'' \<noteq> PStr (lit ''assigned_id'')"

definition push_demo_token :: "pylib \<Rightarrow> 's remote_call \<Rightarrow> pystr \<Rightarrow> 's \<Rightarrow> 's \<times> (py_exn + unit)" where
  "push_demo_token L call token s =
     (let (s1, r) = set_state call (lit ''token'') (PStr token) s
      in (s1, rbind r (\<lambda>_. rbind (lib_dumps L False False (PDict
           [(lit ''demo'', PStr (lit ''set_state'')), (lit ''key'', PStr (lit ''token'')), (lit ''token'', PStr token)]))
           (\<lambda>_. Inr ()))))"

text \<open>
  \<open>run_demo\<close>, and the two other loops: connect, do \<open>start\<close> (nothing in those), wait for the end of
  the connection, and close in any case; an exception of \<open>close\<close> replaces the one in flight.
\<close>

definition run_loop ::
    "('s \<Rightarrow> 's \<times> (py_exn + unit)) \<Rightarrow> ('s \<Rightarrow> 's \<times> (py_exn + unit)) \<Rightarrow> ('s \<Rightarrow> 's \<times> (py_exn + unit)) \<Rightarrow>
     ('s \<Rightarrow> 's \<times> (py_exn + unit)) \<Rightarrow> 's \<Rightarrow> 's \<times> (py_exn + unit)" where
  "run_loop conn start wait shut s =
     (let (s1, r1) = conn s;
          (s2, r2) = (case r1 of Inl e \<Rightarrow> (s1, Inl e) | Inr _ \<Rightarrow> start s1);
          (s3, r3) = (case r2 of Inl e \<Rightarrow> (s2, Inl e) | Inr _ \<Rightarrow> wait s2);
          (s4, r4) = shut s3
      in (s4, case r4 of Inl e \<Rightarrow> Inl e | Inr _ \<Rightarrow> r3))"

definition run_demo ::
    "pylib \<Rightarrow> 's remote_call \<Rightarrow> pystr \<Rightarrow> ('s \<Rightarrow> 's \<times> (py_exn + unit)) \<Rightarrow>
     ('s \<Rightarrow> 's \<times> (py_exn + unit)) \<Rightarrow> ('s \<Rightarrow> 's \<times> (py_exn + unit)) \<Rightarrow> 's \<Rightarrow> 's \<times> (py_exn + unit)" where
  "run_demo L call token conn wait shut = run_loop conn (push_demo_token L call token) wait shut"

definition run_adb ::
    "('s \<Rightarrow> 's \<times> (py_exn + unit)) \<Rightarrow> ('s \<Rightarrow> 's \<times> (py_exn + unit)) \<Rightarrow> ('s \<Rightarrow> 's \<times> (py_exn + unit)) \<Rightarrow>
     's \<Rightarrow> 's \<times> (py_exn + unit)" where
  "run_adb conn wait shut = run_loop conn (\<lambda>s. (s, Inr ())) wait shut"

definition run_playwright ::
    "('s \<Rightarrow> 's \<times> (py_exn + unit)) \<Rightarrow> ('s \<Rightarrow> 's \<times> (py_exn + unit)) \<Rightarrow> ('s \<Rightarrow> 's \<times> (py_exn + unit)) \<Rightarrow>
     's \<Rightarrow> 's \<times> (py_exn + unit)" where
  "run_playwright conn wait shut = run_loop conn (\<lambda>s. (s, Inr ())) wait shut"

end
