(* ===== verification/HandlerProps.thy ===== *)
theory HandlerProps
  imports DemoLoop Samples
begin

text \<open>The properties of the handler client (\<open>client/handler_client.py\<close>, \<open>demo_loop.py\<close>).\<close>

text \<open>
  C20: no more than \<open>max_inflight\<close> pipelines run at a time; every accepted envelope is started exactly
  once, in the order of acceptance, or still waits; and one that waits can start whenever none runs.
\<close>

theorem pipelines_bounded:
  assumes "check_handler_config cfg = Inr cfg" "rtranclp (pipeline_step L) (new_pipelines cfg) q"
  shows "int (length (q_running q)) \<le> hc_max_inflight cfg \<and>
    q_accepted q = q_started q @ q_waiting q \<and>
    (q_waiting q \<noteq> [] \<and> q_running q = [] \<longrightarrow> (\<exists>q'. pipeline_step L q q' \<and> q_running q' = [hd (q_waiting q)]))"
proof -
  have max: "1 \<le> hc_max_inflight cfg" using assms(1) by (auto simp: check_handler_config_def split: if_splits)
  from assms(2) have ok: "pipelines_ok cfg q"
  proof induction
    case base
    then show ?case using max by (simp add: pipelines_ok_def new_pipelines_def)
  qed (rule pipeline_step_ok)
  have "\<exists>q'. pipeline_step L q q' \<and> q_running q' = [hd (q_waiting q)]"
    if w: "q_waiting q \<noteq> []" "q_running q = []"
  proof -
    obtain a rest where "q_waiting q = a # rest" using w(1) by (cases "q_waiting q") auto
    moreover have "0 < q_free q" using ok max w(2) by (simp add: pipelines_ok_def)
    ultimately show ?thesis using pipeline_step.acquire [of q a rest L] w(2) by auto
  qed
  with ok show ?thesis by (auto simp: pipelines_ok_def)
qed

definition sample_config :: handler_config where
  "sample_config = \<lparr>hc_max_inflight = 1, hc_threshold = 10, hc_chunk_size = 4, hc_compress = False\<rparr>"

definition sample_envelope :: envelope where
  "sample_envelope = \<lparr>ev_message_type = [], ev_kind = [], ev_client_id = [], ev_sender = lit ''bob'',
     ev_receiver = [], ev_body = None, ev_request_id = lit ''r'', ev_extra = []\<rparr>"

lemma sample_strip: "py_strip (lit ''r'') = lit ''r''"
  by (simp add: py_strip_def py_lstrip_def py_rstrip_def py_space_def lit_Cons)

lemma sample_receive:
  "receive_envelope L sample_envelope = (ok_result True, Some (pipeline_arguments sample_envelope))"
  by (simp add: receive_envelope_def pipeline_arguments_def sample_envelope_def arg_str_def dict_update_def
      dict_get_def sample_strip Let_def)

lemma sample_accepted:
  "receive_envelope L (envelope_of L [(lit ''request_id'', PStr (lit ''r''))]) =
     (ok_result True, Some (pipeline_arguments (envelope_of L [(lit ''request_id'', PStr (lit ''r''))])))"
  by (simp add: receive_envelope_def pipeline_arguments_def envelope_of_def arg_str_def dict_update_def
      extra_arguments_def RECEIVE_ENVELOPE_KEYS_def dict_get_def sample_strip Let_def)

theorem pipelines_bounded_witness:
  "\<exists>q. rtranclp (pipeline_step sample_lib) (new_pipelines sample_config) q \<and> q_waiting q \<noteq> [] \<and>
     int (length (q_running q)) \<le> 1"
proof -
  have cfg: "check_handler_config sample_config = Inr sample_config"
    by (simp add: check_handler_config_def sample_config_def)
  let ?q = "(new_pipelines sample_config)\<lparr>q_waiting := [pipeline_arguments sample_envelope],
    q_accepted := [pipeline_arguments sample_envelope]\<rparr>"
  have "rtranclp (pipeline_step sample_lib) (new_pipelines sample_config) ?q"
    using pipeline_step.accept [OF sample_receive, of sample_lib "new_pipelines sample_config"]
    by (auto simp: new_pipelines_def)
  with pipelines_bounded [OF cfg this] show ?thesis
    by (intro exI [of _ ?q]) (simp add: sample_config_def)
qed

text \<open>
  The handler sees the envelope that arrived: an envelope is acknowledged, and then a pipeline
  started, exactly if its request id is not blank; and the keyword arguments of the handler are the
  fields and the extra arguments of the envelope, with an empty body for a missing one.
\<close>

theorem handler_sees_envelope:
  assumes "wf_dict a" "ev = envelope_of L a"
  shows "case receive_envelope L ev of
      (r, None) \<Rightarrow> r = ok_result False \<and> py_strip (ev_request_id ev) = []
    | (r, Some args) \<Rightarrow> r = ok_result True \<and> py_strip (ev_request_id ev) \<noteq> [] \<and>
        arguments_to_receive_kwargs L args =
          ev\<lparr>ev_body := Some (case ev_body ev of None \<Rightarrow> [] | Some b \<Rightarrow> b)\<rparr>"
proof -
  have extra: "ev_extra ev = filter (\<lambda>(k, v). k \<notin> set RECEIVE_ENVELOPE_KEYS) a"
    by (simp add: assms(2) envelope_of_def extra_arguments_def)
  then have wf: "wf_dict (ev_extra ev)" "fst ` set (ev_extra ev) \<inter> set RECEIVE_ENVELOPE_KEYS = {}"
    using assms(1) by (auto simp: wf_dict_def distinct_map_filter)
  note look = pipeline_arguments_lookup [OF wf]
  have rid: "arg_str L (pipeline_arguments ev) ''request_id'' = ev_request_id ev"
    by (simp add: arg_str_def dict_get_def look)
  have "envelope_of L (pipeline_arguments ev) = ev\<lparr>ev_body := Some (case ev_body ev of None \<Rightarrow> [] | Some b \<Rightarrow> b)\<rparr>"
    using extra_pipeline_arguments [OF wf]
    by (intro envelope.equality)
      (simp_all add: envelope_of_def arg_str_def dict_get_def look dict_body_def split: option.split)
  with rid show ?thesis
    by (simp add: receive_envelope_def Let_def arguments_to_receive_kwargs_eq)
qed

theorem handler_sees_envelope_witness:
  "fst (receive_envelope sample_lib (envelope_of sample_lib [(lit ''request_id'', PStr (lit ''r''))])) = ok_result True"
proof -
  let ?a = "[(lit ''request_id'', PStr (lit ''r''))]"
  have "wf_dict ?a" by (simp add: wf_dict_def)
  from handler_sees_envelope [OF this refl, of sample_lib]
  show ?thesis
    by (auto simp: envelope_of_def arg_str_def dict_get_def sample_strip split: prod.splits option.splits)
qed

text \<open>\<open>beside_log handler\<close> runs a handler beside the log of calls.\<close>

definition beside_log :: "'s handler \<Rightarrow> ('s \<times> call_log) handler" where
  "beside_log handler ev args st = (let (s1, r) = handler ev args (fst st) in ((s1, snd st), r))"

text \<open>
  C21: a pipeline posts only to the sender of its envelope, and only if its handler returned a result
  that does not ask to skip it; an exception of the handler or of the post is not passed on.
\<close>

theorem pipeline_posts_to_sender:
  assumes "run_handler_pipeline_unlocked L cfg (beside_log handler) (logged call) fresh args (s, []) = ((s', log), out)"
  shows "(\<forall>x \<in> set log. posts_to (arg_str L args ''sender'') x) \<and>
    (log \<noteq> [] \<longrightarrow> (\<exists>s1 result. handler (arguments_to_receive_kwargs L args) args s = (s1, Inr result) \<and>
                      \<not> hr_skip_post result)) \<and>
    (case out of Inl e \<Rightarrow> \<not> is_exception e | Inr _ \<Rightarrow> True)"
proof -
  obtain st1 r1 where h: "run_handler L (beside_log handler) args (s, []) = (st1, r1)" by fastforce
  have st1: "snd st1 = []" using h by (auto simp: run_handler_def beside_log_def Let_def split: if_splits prod.splits)
  show ?thesis
  proof (cases "\<exists>result. r1 = Inr result \<and> \<not> hr_skip_post result")
    case False
    then have "log = []" "case out of Inl e \<Rightarrow> \<not> is_exception e | Inr _ \<Rightarrow> True"
      using assms h st1 by (auto simp: run_handler_pipeline_unlocked_def split: sum.splits if_splits)
    then show ?thesis by simp
  next
    case True
    then obtain result where r1: "r1 = Inr result" "\<not> hr_skip_post result" by blast
    then have hd: "\<exists>s1. handler (arguments_to_receive_kwargs L args) args s = (s1, Inr result)"
      using h by (auto simp: run_handler_def beside_log_def Let_def raise_def split: if_splits prod.splits)
    obtain s1 where s1: "st1 = (s1, [])" using st1 by (cases st1) auto
    obtain r2 where p: "post_message_auto L (logged call) fresh (post_message_receiver L args) (hr_body result)
          (resolve_post_request_id L result args) (hc_threshold cfg) (hc_chunk_size cfg) (hc_compress cfg) (s1, [])
        = ((s', log), r2)" and out: "case out of Inl e \<Rightarrow> \<not> is_exception e | Inr _ \<Rightarrow> True"
      using assms h s1 r1 by (auto simp: run_handler_pipeline_unlocked_def split: prod.splits sum.splits if_splits)
    from post_message_auto_receiver [OF p] have "\<forall>x \<in> set log. posts_to (arg_str L args ''sender'') x"
      by (auto simp: post_message_receiver_def)
    with hd r1 out show ?thesis by blast
  qed
qed

definition sample_remote :: "nat remote_call" where
  "sample_remote m args s = (Suc s, Inr (PInt (int s)))"

definition answering :: "nat handler" where
  "answering ev args s = (s, Inr \<lparr>hr_body = PNone, hr_request_id = [], hr_skip_post = False\<rparr>)"

lemma sample_estimate_none: "estimate_body_wire_bytes sample_lib PNone = Inr 2"
proof -
  have "utf8_encode (lit ''{}'') = Inr (map of_nat (lit ''{}''))"
    by (rule utf8_encode_ascii) (simp add: lit_Cons)
  then show ?thesis
    by (simp add: estimate_body_wire_bytes_def body_payload_def json_body_bytes_def sample_dumps_def lit_Cons)
qed

theorem pipeline_posts_to_sender_witness:
  "\<exists>x. posts_to (lit ''bob'') x \<and>
     run_handler_pipeline_unlocked sample_lib sample_config (beside_log answering) (logged sample_remote)
       (lit ''t'') [(lit ''sender'', PStr (lit ''bob''))] (0, []) = ((1, [x]), Inr ())"
proof -
  let ?args = "[(lit ''sender'', PStr (lit ''bob''))]"
  let ?x = "(lit ''post_message'', post_message_arguments (lit ''bob'') PNone [], Inr (PInt 0))"
  have run: "run_handler_pipeline_unlocked sample_lib sample_config (beside_log answering) (logged sample_remote)
       (lit ''t'') ?args (0, []) = ((1, [?x]), Inr ())"
    by (simp add: run_handler_pipeline_unlocked_def run_handler_def beside_log_def answering_def
        arguments_to_receive_kwargs_def RECEIVE_ENVELOPE_KEYS_def post_message_auto_def sample_config_def
        sample_estimate_none post_message_def logged_pair sample_remote_def post_message_receiver_def
        resolve_post_request_id_def arg_str_def dict_get_def Let_def)
  from pipeline_posts_to_sender [OF run] have "posts_to (arg_str sample_lib ?args ''sender'') ?x" by simp
  with run show ?thesis by (intro exI [of _ ?x]) (simp add: arg_str_def dict_get_def)
qed

end
