(* ===== verification/Delivery.thy ===== *)
theory Delivery
  imports ClientFacts ChunkRoundtrip
begin

text \<open>
  Chunked messages at the receiving client: \<open>_invoke_receive_envelope\<close> (\<open>client/base.py\<close>) over the
  reassembler (\<open>client/chunking.py\<close>).
\<close>

fun invoke_all ::
    "pylib \<Rightarrow> pydict list \<Rightarrow> 'a client_scheme \<Rightarrow> 'a client_scheme \<times> (py_exn + invocation) list" where
  "invoke_all L [] c = (c, [])"
| "invoke_all L (args # rest) c =
     (let (c1, r) = invoke_receive_envelope L args c; (c2, rs) = invoke_all L rest c1 in (c2, r # rs))"

text \<open>The arguments of an envelope whose body is \<open>body\<close>.\<close>

definition with_body :: "pydict \<Rightarrow> pydict \<Rightarrow> pydict" where
  "with_body args body = dict_set (lit ''body'') (PDict body) args"

lemma get_with_body [simp]: "get (with_body args body) ''body'' = PDict body"
  by (simp add: with_body_def dict_get_def)

lemma chunks_idem [simp]: "c\<lparr>c_chunks := c_chunks c\<rparr> = c"
  by simp

text \<open>While no envelope completes a transfer, the client just acknowledges.\<close>

lemma invoke_collecting:
  assumes "\<forall>b \<in> set bs. is_chunk_envelope b = Inr True"
    and "\<forall>r \<in> set (snd (push_all L bs (c_chunks c))). r = Inr None"
  shows "invoke_all L (map (with_body args) bs) c =
    (c\<lparr>c_chunks := fst (push_all L bs (c_chunks c))\<rparr>, map (\<lambda>_. Inr (Answer (ok_result True))) bs)"
  using assms
proof (induction bs arbitrary: c)
  case (Cons b bs)
  obtain R1 r where p: "push L b (c_chunks c) = (R1, r)" by fastforce
  obtain R2 rs where q: "push_all L bs R1 = (R2, rs)" by fastforce
  from p q Cons.prems(2) have r: "r = Inr None" "\<forall>r \<in> set rs. r = Inr None" by auto
  have "invoke_receive_envelope L (with_body args b) c = (c\<lparr>c_chunks := R1\<rparr>, Inr (Answer (ok_result True)))"
    using Cons.prems(1) p r(1) by (simp add: invoke_receive_envelope_def)
  with Cons.IH [of "c\<lparr>c_chunks := R1\<rparr>"] Cons.prems(1) q r(2) p show ?case by simp
qed simp

lemma invoke_completing:
  assumes "is_chunk_envelope b = Inr True" "push L b (c_chunks c) = (R, Inr (Some m))"
  shows "invoke_receive_envelope L (with_body args b) c =
    deliver_envelope L (assembled_arguments m (with_body args b)) (c\<lparr>c_chunks := R\<rparr>)"
  using assms by (simp add: invoke_receive_envelope_def)

lemma assembled_lookup:
  "map_of (assembled_arguments m args) k =
     (if k = lit ''chunk_content_encoding'' then Some (PStr (dcm_content_encoding m))
      else if k = lit ''chunk_sha256'' then Some (PStr (dcm_sha256 m))
      else if k = lit ''chunk_total_bytes'' then Some (PInt (dcm_total_bytes m))
      else if k = lit ''chunk_count'' then Some (PInt (dcm_chunk_count m))
      else if k = lit ''chunk_transfer_id'' then Some (PStr (dcm_transfer_id m))
      else if k = lit ''request_id'' \<and> py_strip (dcm_request_id m) \<noteq> [] then Some (PStr (dcm_request_id m))
      else if k = lit ''body'' then Some (PDict (dcm_body m))
      else map_of args k)"
  by (simp add: assembled_arguments_def Let_def)

lemma map_of_filter_key: "map_of (filter (\<lambda>(k, v). P k) d) k = (if P k then map_of d k else None)"
  by (induction d) auto

lemma extra_lookup:
  "map_of (extra_arguments args) k = (if k \<in> set RECEIVE_ENVELOPE_KEYS then None else map_of args k)"
  by (simp add: extra_arguments_def map_of_filter_key)

text \<open>The call of the hook for a reassembled message.\<close>

lemma deliver_assembled:
  assumes "map_of args (lit ''self'') = None"
  shows "snd (deliver_envelope L (assembled_arguments m (with_body args b)) c) =
    Inr (CallHook (envelope_of L (assembled_arguments m (with_body args b))))"
  using assms
  by (simp add: deliver_envelope_def extra_lookup assembled_lookup with_body_def RECEIVE_ENVELOPE_KEYS_def)

lemma envelope_assembled:
  "ev_body (envelope_of L (assembled_arguments m args)) = Some (dcm_body m)"
  "py_strip (dcm_request_id m) \<noteq> [] \<Longrightarrow>
     ev_request_id (envelope_of L (assembled_arguments m args)) = dcm_request_id m"
  "map_of args (lit ''sender'') = Some (PStr s) \<Longrightarrow>
     ev_sender (envelope_of L (assembled_arguments m args)) = s"
  by (simp_all add: envelope_of_def dict_get_def arg_str_def assembled_lookup dict_body_def)

end
