(* ===== verification/CommandSession.thy ===== *)
theory CommandSession
  imports PyText
begin

text \<open>
  What the ADB and the Playwright handler have in common: coroutines over the state of a session, the
  error answers of a command, the handler built on a session, and the interface \<open>command_session\<close> that
  the handler relies on.
\<close>

section \<open>Coroutines\<close>

text \<open>
  A coroutine returns, raises, or still waits for the outside; it passes the state of its session on.
\<close>

datatype 'a outcome = Returns 'a | Raises py_exn | Waits

type_synonym ('s, 'a) co = "'s \<Rightarrow> 's \<times> 'a outcome"

definition abind :: "('s, 'a) co \<Rightarrow> ('a \<Rightarrow> ('s, 'b) co) \<Rightarrow> ('s, 'b) co" where
  "abind m f s =
     (case m s of
        (s', Returns x) \<Rightarrow> f x s'
      | (s', Raises e) \<Rightarrow> (s', Raises e)
      | (s', Waits) \<Rightarrow> (s', Waits))"

definition areturn :: "'a \<Rightarrow> ('s, 'a) co" where
  "areturn x s = (s, Returns x)"

definition araise :: "exn_class \<Rightarrow> pystr \<Rightarrow> ('s, 'a) co" where
  "araise c msg s = (s, Raises (Exn c msg))"

definition alift :: "py_exn + 'a \<Rightarrow> ('s, 'a) co" where
  "alift r s = (s, case r of Inl e \<Rightarrow> Raises e | Inr x \<Rightarrow> Returns x)"

lemma areturn_apply [simp]: "areturn x s = (s, Returns x)"
  by (simp add: areturn_def)

lemma araise_apply [simp]: "araise c m s = (s, Raises (Exn c m))"
  by (simp add: araise_def)

lemma alift_simps [simp]: "alift (Inr x) s = (s, Returns x)" "alift (Inl e) s = (s, Raises e)"
  by (simp_all add: alift_def)

lemma abind_Returns: "m s = (s', Returns x) \<Longrightarrow> abind m f s = f x s'"
  by (simp add: abind_def)

lemma abind_areturn [simp]: "abind (areturn x) f = f x"
  by (rule ext) (simp add: abind_def)

lemma abind_alift_Inr [simp]: "abind (alift (Inr x)) f = f x"
  by (rule ext) (simp add: abind_def)

lemma abind_split:
  obtains (ret) s' x where "m s = (s', Returns x)" "abind m f s = f x s'"
  | (exc) s' e where "m s = (s', Raises e)" "abind m f s = (s', Raises e)"
  | (wait) s' where "m s = (s', Waits)" "abind m f s = (s', Waits)"
proof (cases "m s")
  case (Pair s' r)
  with ret exc wait show thesis by (cases r) (auto simp: abind_def)
qed

fun outcome_value :: "'a outcome \<Rightarrow> 'a option" where
  "outcome_value (Returns x) = Some x"
| "outcome_value _ = None"

fun outcome_exn :: "'a outcome \<Rightarrow> py_exn option" where
  "outcome_exn (Raises e) = Some e"
| "outcome_exn _ = None"

text \<open>\<open>yields P m\<close>: what \<open>m\<close> returns has \<open>P\<close>.\<close>

definition yields :: "('a \<Rightarrow> bool) \<Rightarrow> ('s, 'a) co \<Rightarrow> bool" where
  "yields P m \<longleftrightarrow> (\<forall>s s' x. m s = (s', Returns x) \<longrightarrow> P x)"

named_theorems yields_rules "what a coroutine returns"

lemma yields_areturn [yields_rules]: "P x \<Longrightarrow> yields P (areturn x)"
  by (simp add: yields_def)

lemma yields_araise [yields_rules]: "yields P (araise c m)"
  by (simp add: yields_def)

lemma yields_abind [yields_rules]: "(\<And>x. yields P (f x)) \<Longrightarrow> yields P (abind m f)"
  unfolding yields_def by (auto simp: abind_def split: prod.splits outcome.splits)

lemma yields_state: "(\<And>s. yields P (g s)) \<Longrightarrow> yields P (\<lambda>s. g s s)"
  unfolding yields_def by blast

section \<open>Answers to commands\<close>

text \<open>\<open>type(e).__name__\<close>\<close>

fun exn_name :: "exn_class \<Rightarrow> pystr" where
  "exn_name ValueError = lit ''ValueError''"
| "exn_name TypeError = lit ''TypeError''"
| "exn_name RuntimeError = lit ''RuntimeError''"
| "exn_name TimeoutError = lit ''TimeoutError''"
| "exn_name CancelledError = lit ''CancelledError''"
| "exn_name UnicodeEncodeError = lit ''UnicodeEncodeError''"
| "exn_name UnicodeDecodeError = lit ''UnicodeDecodeError''"
| "exn_name JSONDecodeError = lit ''JSONDecodeError''"
| "exn_name ConnectionClosed = lit ''ConnectionClosed''"
| "exn_name AssertionError = lit ''AssertionError''"
| "exn_name OSError = lit ''OSError''"
| "exn_name InvalidApiKeyError = lit ''InvalidApiKeyError''"
| "exn_name LoginSessionError = lit ''LoginSessionError''"
| "exn_name LocalAuthorizationError = lit ''LocalAuthorizationError''"
| "exn_name LocalAuthorizationServerError = lit ''LocalAuthorizationServerError''"
| "exn_name BadParameter = lit ''BadParameter''"
| "exn_name (OtherException n) = n"

definition dict_setdefault :: "pystr \<Rightarrow> pyval \<Rightarrow> pydict \<Rightarrow> pydict" where
  "dict_setdefault k v d = (case map_of d k of None \<Rightarrow> dict_set k v d | Some _ \<Rightarrow> d)"

definition error_result :: "string \<Rightarrow> string \<Rightarrow> pydict" where
  "error_result msg cmd =
     [(lit ''ok'', PBool False), (lit ''error'', PStr (lit msg)), (lit ''command'', PStr (lit cmd))]"

text \<open>
  The handler that a client with a session runs on each envelope; the Playwright handler is the same over
  its own session.
\<close>

definition missing_body :: pydict where
  "missing_body = [(lit ''ok'', PBool False), (lit ''error'', PStr (lit ''missing body'')), (lit ''command'', PNone)]"

definition session_handler ::
    "(pydict \<Rightarrow> pystr \<Rightarrow> 's \<Rightarrow> 's \<times> 'r) \<Rightarrow> (pydict \<Rightarrow> 'r) \<Rightarrow> pydict option \<Rightarrow> pystr \<Rightarrow> 's \<Rightarrow> 's \<times> 'r" where
  "session_handler command answer body request_id s =
     (case body of
        None \<Rightarrow> (s, answer missing_body)
      | Some b \<Rightarrow> if b = [] then (s, answer missing_body) else command b request_id s)"

definition answers :: "pystr \<Rightarrow> pydict \<Rightarrow> bool" where
  "answers cmd d \<longleftrightarrow>
     (get d ''ok'' = PBool True \<or> get d ''ok'' = PBool False \<and> (\<exists>m. get d ''error'' = PStr m)) \<and>
     map_of d (lit ''command'') \<in> {None, Some (PStr cmd)}"

lemma answers_error [simp]: "answers (lit c) (error_result m c)"
  by (simp add: answers_def error_result_def)

lemma setdefault_answers:
  "answers cmd d \<Longrightarrow> get (dict_setdefault (lit ''command'') (PStr cmd) d) ''command'' = PStr cmd"
  "get (dict_setdefault (lit ''command'') v d) ''ok'' = get d ''ok''"
  "get (dict_setdefault (lit ''command'') v d) ''error'' = get d ''error''"
  by (auto simp: answers_def dict_setdefault_def dict_get_def split: option.splits)

section \<open>The interface of a command session\<close>

text \<open>
  What the handler of a client relies on: a command is answered with a body that says whether it went well and
  repeats the command, and raises nothing an \<open>except Exception\<close> would have to catch.
\<close>

locale command_session =
  fixes command :: "pydict \<Rightarrow> pystr \<Rightarrow> 's \<Rightarrow> 's \<times> 'r" and answer :: "pydict \<Rightarrow> 'r"
    and returned :: "'r \<Rightarrow> pydict option" and raised :: "'r \<Rightarrow> py_exn option"
  assumes answer: "returned (answer d) = Some d" "raised (answer d) = None"
    and answer_ok: "returned (snd (command body rid s)) = Some d \<Longrightarrow>
      get d ''ok'' = PBool True \<or> get d ''ok'' = PBool False \<and> (\<exists>m. get d ''error'' = PStr m)"
    and answer_command: "returned (snd (command body rid s)) = Some d \<Longrightarrow>
      get d ''command'' = (case get body ''command'' of
        PStr c \<Rightarrow> PStr (if py_strip c = [] then c else py_strip c) | _ \<Rightarrow> PNone)"
    and no_exception: "raised (snd (command body rid s)) = Some e \<Longrightarrow> \<not> is_exception e"
begin

lemma handler_answers:
  "(\<forall>d. returned (snd (session_handler command answer body rid s)) = Some d \<longrightarrow>
      (get d ''ok'' = PBool True \<or> get d ''ok'' = PBool False \<and> (\<exists>m. get d ''error'' = PStr m)) \<and>
      get d ''command'' = (case get (case body of None \<Rightarrow> [] | Some b \<Rightarrow> b) ''command'' of
        PStr c \<Rightarrow> PStr (if py_strip c = [] then c else py_strip c) | _ \<Rightarrow> PNone)) \<and>
   (\<forall>e. raised (snd (session_handler command answer body rid s)) = Some e \<longrightarrow> \<not> is_exception e)"
proof (cases "body = None \<or> body = Some []")
  case True
  then have "session_handler command answer body rid s = (s, answer missing_body)"
    by (auto simp: session_handler_def)
  with True show ?thesis by (auto simp: answer missing_body_def)
next
  case False
  then obtain b where "body = Some b" "b \<noteq> []" by (cases body) auto
  then have "body = Some b" "session_handler command answer body rid s = command b rid s"
    by (simp_all add: session_handler_def)
  then show ?thesis using answer_ok answer_command no_exception by simp
qed

end

end
