(* ===== verification/SessionClient.thy ===== *)
theory SessionClient
  imports HandlerProps CommandSession
begin

text \<open>
  The clients built on a command session, \<open>AdbRpcProxyClient\<close> (\<open>handlers/adb_handler.py\<close>) and
  \<open>PlaywrightRpcProxyClient\<close> (\<open>handlers/playwright_handler.py\<close>): their construction, the pipeline that runs
  the handler of the session on an accepted envelope, and their \<open>close\<close>.
\<close>

section \<open>Definitions\<close>

definition new_session_client ::
    "'s \<Rightarrow> py_exn + client \<Rightarrow> handler_config \<Rightarrow> py_exn + (client \<times> handler_config) \<times> 's" where
  "new_session_client session base cfg = rbind (new_handler_client base cfg) (\<lambda>c. Inr (c, session))"

text \<open>
  The pipeline of one envelope: \<open>hnd\<close> is the session's handler, \<open>returned\<close> and \<open>raised\<close> read its outcome. While
  the handler waits there is no result (\<open>None\<close>). An argument called \<open>arguments\<close> is the \<open>TypeError\<close> of
  \<open>run_handler\<close>, which the pipeline only logs.
\<close>

definition session_pipeline ::
    "('r \<Rightarrow> pydict option) \<Rightarrow> ('r \<Rightarrow> py_exn option) \<Rightarrow> (pydict option \<Rightarrow> pystr \<Rightarrow> 's \<Rightarrow> 's \<times> 'r) \<Rightarrow>
     pylib \<Rightarrow> handler_config \<Rightarrow> 't remote_call \<Rightarrow> pystr \<Rightarrow> pydict \<Rightarrow> 's \<Rightarrow> 't \<Rightarrow>
     's \<times> 't \<times> (py_exn + unit) option" where
  "session_pipeline returned raised hnd L cfg call fresh_id args s t =
     (let kw = arguments_to_receive_kwargs L args
      in if map_of (ev_extra kw) (lit ''arguments'') \<noteq> None then (s, t, Some (Inr ()))
         else let (s1, r) = hnd (ev_body kw) (ev_request_id kw) s;
                  out = (case returned r of
                           Some d \<Rightarrow> Some (Inr \<lparr>hr_body = PDict d, hr_request_id = [], hr_skip_post = False\<rparr>)
                         | None \<Rightarrow> map_option Inl (raised r))
              in case out of
                   None \<Rightarrow> (s1, t, None)
                 | Some res \<Rightarrow>
                     (let (t1, e) = run_handler_pipeline_unlocked L cfg (\<lambda>_ _ t. (t, res)) call fresh_id args t
                      in (s1, t1, Some e)))"

text \<open>\<open>close\<close>: first that of the client, then that of the session, unless the first raises.\<close>

definition session_client_close ::
    "py_exn + unit \<Rightarrow> ('s, unit) co \<Rightarrow> client \<times> 's \<Rightarrow> (client \<times> 's) \<times> unit outcome" where
  "session_client_close out shut st =
     (case ClientBase.close out (fst st) of
        (c1, Inl e) \<Rightarrow> ((c1, snd st), Raises e)
      | (c1, Inr _) \<Rightarrow> (case shut (snd st) of (s1, r) \<Rightarrow> ((c1, s1), r)))"

section \<open>What a sender gets\<close>

text \<open>\<open>reply_to ev d log\<close>: \<open>d\<close> is posted to the sender of \<open>ev\<close> and nobody else, in one message if it is short.\<close>

definition reply_to :: "pylib \<Rightarrow> handler_config \<Rightarrow> envelope \<Rightarrow> pydict \<Rightarrow> call_log \<Rightarrow> bool" where
  "reply_to L cfg ev d log \<longleftrightarrow>
     (\<forall>x \<in> set log. posts_to (ev_sender ev) x) \<and>
     (\<forall>n. estimate_body_wire_bytes L (PDict d) = Inr n \<and> n < hc_threshold cfg \<and> 1 \<le> hc_threshold cfg \<longrightarrow>
        (\<exists>res. log = [(lit ''post_message'', post_message_arguments (ev_sender ev) (PDict d) (ev_request_id ev), res)]))"

lemma pipeline_replies:
  assumes "run_handler_pipeline_unlocked L cfg (\<lambda>_ _ t. (t, Inr \<lparr>hr_body = PDict d, hr_request_id = [], hr_skip_post = False\<rparr>))
      (logged call) fresh args (t, []) = ((t', log), out)"
    and "arguments_to_receive_kwargs L args = ev" "map_of (ev_extra ev) (lit ''arguments'') = None"
  shows "reply_to L cfg ev d log"
proof -
  let ?res = "\<lparr>hr_body = PDict d, hr_request_id = [], hr_skip_post = False\<rparr>"
  have sender: "post_message_receiver L args = ev_sender ev" and rid: "resolve_post_request_id L ?res args = ev_request_id ev"
    using assms(2) by (auto simp: post_message_receiver_def resolve_post_request_id_def arguments_to_receive_kwargs_def Let_def)
  obtain r2 where p: "post_message_auto L (logged call) fresh (ev_sender ev) (PDict d) (ev_request_id ev)
      (hc_threshold cfg) (hc_chunk_size cfg) (hc_compress cfg) (t, []) = ((t', log), r2)"
    using assms sender rid
    by (auto simp: run_handler_pipeline_unlocked_def run_handler_def split: sum.splits prod.splits)
  have "\<forall>x \<in> set log. posts_to (ev_sender ev) x" using post_message_auto_receiver [OF p] by simp
  moreover have "\<exists>res. log = [(lit ''post_message'', post_message_arguments (ev_sender ev) (PDict d) (ev_request_id ev), res)]"
    if "estimate_body_wire_bytes L (PDict d) = Inr n" "n < hc_threshold cfg" "1 \<le> hc_threshold cfg" for n
    using p that by (auto simp: post_message_auto_def post_message_def logged_pair Let_def split: prod.splits)
  ultimately show ?thesis unfolding reply_to_def by blast
qed

context command_session
begin

text \<open>
  Every accepted envelope is answered: unless the handler is cancelled, the sender gets the answer of the
  session, with its own request id, and nobody else gets anything.
\<close>

lemma pipeline_answers:
  assumes "wf_dict a" "ev = envelope_of L a" "receive_envelope L ev = (r, Some args)"
    and "map_of (ev_extra ev) (lit ''arguments'') = None"
    and "session_pipeline returned raised (session_handler command answer) L cfg (logged call) fresh args s (t, []) =
      (s', (t', log), Some out)"
  shows "(\<exists>e. out = Inl e \<and> \<not> is_exception e \<and> log = []) \<or>
    (\<exists>d. (get d ''ok'' = PBool True \<or> get d ''ok'' = PBool False \<and> (\<exists>m. get d ''error'' = PStr m)) \<and>
       get d ''command'' = (case get (case ev_body ev of None \<Rightarrow> [] | Some b \<Rightarrow> b) ''command'' of
         PStr c \<Rightarrow> PStr (if py_strip c = [] then c else py_strip c) | _ \<Rightarrow> PNone) \<and>
       reply_to L cfg ev d log)"
proof -
  let ?b = "case ev_body ev of None \<Rightarrow> [] | Some b \<Rightarrow> b"
  let ?kw = "arguments_to_receive_kwargs L args"
  have kw: "?kw = ev\<lparr>ev_body := Some ?b\<rparr>"
    using handler_sees_envelope [OF assms(1,2)] assms(3) by simp
  obtain s1 q where h: "session_handler command answer (Some ?b) (ev_request_id ev) s = (s1, q)" by fastforce
  note ans = handler_answers [of "Some ?b" "ev_request_id ev" s, unfolded h snd_conv]
  have no_clash: "map_of (ev_extra ?kw) (lit ''arguments'') = None" using assms(4) by (simp add: kw)
  note p = assms(5) [unfolded session_pipeline_def Let_def kw]
  show ?thesis
  proof (cases "returned q")
    case None
    then obtain e where e: "raised q = Some e" using p h assms(4) by (cases "raised q") simp_all
    then have "\<not> is_exception e" using ans by blast
    moreover have "run_handler_pipeline_unlocked L cfg (\<lambda>_ _ t. (t, Inl e)) (logged call) fresh args (t, []) = ((t, []), Inl e)"
      using no_clash \<open>\<not> is_exception e\<close> by (simp add: run_handler_pipeline_unlocked_def run_handler_def Let_def)
    ultimately show ?thesis using p h assms(4) None e by auto
  next
    case (Some d)
    then have run: "run_handler_pipeline_unlocked L cfg
        (\<lambda>_ _ t. (t, Inr \<lparr>hr_body = PDict d, hr_request_id = [], hr_skip_post = False\<rparr>)) (logged call) fresh args (t, []) =
        ((t', log), out)"
      using p h assms(4) by (simp split: prod.splits)
    have "reply_to L cfg (ev\<lparr>ev_body := Some ?b\<rparr>) d log"
      using pipeline_replies [OF run kw] assms(4) by simp
    then have "reply_to L cfg ev d log" by (simp add: reply_to_def)
    with ans Some show ?thesis by auto
  qed
qed

end

section \<open>Closing\<close>

lemma session_client_close_failed:
  "c_reader c = Failed e \<Longrightarrow> session_client_close out shut (c, s) = ((c, s), Raises e)"
  by (simp add: session_client_close_def close_def close_begin_def close_middle_def)

lemma session_client_close_shuts:
  assumes "\<forall>e. c_reader c \<noteq> Failed e" "\<forall>e. out = Inl e \<longrightarrow> is_exception e"
  shows "\<exists>c'. ClientBase.close out c = (c', Inr ()) \<and> session_client_close out shut (c, s) =
    (case shut s of (s1, r) \<Rightarrow> ((c', s1), r))"
proof -
  have "\<forall>e. c_reader (close_begin c) \<noteq> Failed e"
    using assms(1) by (simp add: close_begin_def reader_stop_def split: reader.splits)
  then have "close_middle (close_begin c) = (close_cleanup ((close_begin c)\<lparr>c_reader := NoTask\<rparr>), Inr ())"
    by (simp add: close_middle_def split: reader.splits)
  then have "snd (ClientBase.close out c) = Inr ()"
    using assms(2) by (cases out) (auto simp: close_def close_end_def)
  then obtain c' where "ClientBase.close out c = (c', Inr ())" by (metis prod.collapse)
  then show ?thesis by (simp add: session_client_close_def)
qed

end
