(* ===== verification/DemoProps.thy ===== *)
theory DemoProps
  imports SessionClient ClientProps
begin

text \<open>The demo client from the frame on the wire to the echo (\<open>demo_loop.py\<close>).\<close>

lemma json_value_filter: "json_value (PDict d) \<Longrightarrow> json_value (PDict (filter P d))"
  by (auto simp: wf_dict_def distinct_map_filter)

lemma json_value_lookup: "json_value (PDict d) \<Longrightarrow> map_of d k = Some v \<Longrightarrow> json_value v"
  by (auto dest!: map_of_SomeD)

lemma json_value_get: "json_value (PDict d) \<Longrightarrow> json_value (get d k)"
  by (cases "map_of d (lit k)") (auto simp: dict_get_def simp del: json_value.simps(3) intro: json_value_lookup)

lemma json_value_request:
  assumes "json_value (PDict msg)" "extract_request L msg = Some req" "rq_arguments req = Some a"
  shows "json_value (PDict a)"
proof -
  obtain q where "get msg ''request'' = PDict q" "get q ''arguments'' = PDict a"
    using assms(2,3) by (auto elim!: extract_request_SomeD split: pyval.splits)
  with assms(1) json_value_get show ?thesis by metis
qed

text \<open>What is logged about an envelope that came from the wire can be written as JSON.\<close>

lemma json_value_echo_payload:
  assumes "json_value (PDict a)"
  shows "json_value (PDict (echo_payload ((envelope_of L a)\<lparr>ev_body := Some (case ev_body (envelope_of L a) of None \<Rightarrow> [] | Some b \<Rightarrow> b)\<rparr>)))"
proof -
  have "json_value (PDict (case ev_body (envelope_of L a) of None \<Rightarrow> [] | Some b \<Rightarrow> b))"
    using json_value_get [OF assms, of "''body''"]
    by (auto simp: envelope_of_def dict_body_def split: pyval.splits simp del: json_value.simps(3)) simp_all
  moreover have "json_value (PDict (ev_extra (envelope_of L a)))"
    using json_value_filter [OF assms] by (simp add: envelope_of_def extra_arguments_def)
  ultimately show ?thesis by (auto simp: echo_payload_def wf_dict_def)
qed

text \<open>The echo of an envelope whose arguments are JSON.\<close>

lemma echo_reply:
  assumes "L = std_lib FT rp gz gunz" "json_value (PDict a)" "ev = envelope_of L a"
    and "receive_envelope L ev = (r, Some args)" "map_of (ev_extra ev) (lit ''arguments'') = None"
    and "run_handler_pipeline_unlocked L cfg (demo_echo_envelope_handler L) (logged call) fresh args (t, []) = ((t', log), out)"
  shows "reply_to L cfg ev
    (dict_set (lit ''is_echo'') (PBool True) (case ev_body ev of None \<Rightarrow> [] | Some b \<Rightarrow> b)) log"
proof -
  let ?b = "case ev_body ev of None \<Rightarrow> [] | Some b \<Rightarrow> b"
  let ?kw = "ev\<lparr>ev_body := Some ?b\<rparr>" and ?out = "dict_set (lit ''is_echo'') (PBool True) ?b"
  have "wf_dict a" using assms(2) by simp
  from handler_sees_envelope [OF this assms(3)] assms(4)
  have kw: "arguments_to_receive_kwargs L args = ?kw" by simp
  have "json_value (PDict (echo_payload ?kw))" using json_value_echo_payload [OF assms(2)] unfolding assms(3) .
  then obtain x where x: "lib_dumps L False False (PDict (echo_payload ?kw)) = Inr x"
    using dump_value_total(1) unfolding assms(1) std_lib_simps json_dumps_def by metis
  have "demo_echo_envelope_handler L ?kw args (t, [] :: call_log) =
      ((t, []), Inr \<lparr>hr_body = PDict ?out, hr_request_id = [], hr_skip_post = False\<rparr>)"
    by (simp add: demo_echo_envelope_handler_def x Let_def)
  then have "run_handler_pipeline_unlocked L cfg (\<lambda>_ _ t. (t, Inr \<lparr>hr_body = PDict ?out, hr_request_id = [], hr_skip_post = False\<rparr>))
      (logged call) fresh args (t, []) = ((t', log), out)"
    using assms(5,6) by (simp add: run_handler_pipeline_unlocked_def run_handler_def kw Let_def)
  from pipeline_replies [OF this kw] assms(5) have "reply_to L cfg ?kw ?out log" by simp
  then show ?thesis by (simp add: reply_to_def)
qed


definition demo_call :: pydict where
  "demo_call = call_request_message (lit ''receive_envelope'')
     [(lit ''sender'', PStr (lit ''bob'')), (lit ''request_id'', PStr (lit ''r''))] (lit ''c1'')"

lemma demo_call_text: "\<exists>s. loads_message std_sample s = Inr (PDict demo_call)"
proof -
  have "json_ok sample_floats False (PDict demo_call)"
    unfolding demo_call_def by (rule json_ok_call_request) (simp add: wf_dict_def char_ok_def list_all_iff)
  moreover obtain s where "dumps_message std_sample demo_call False = Inr s"
    by (simp add: dumps_message_def std_sample_def json_dumps_def demo_call_def call_request_message_def)
  ultimately show ?thesis using std_loads_dumps unfolding std_sample_def by blast
qed


end
