(* ===== verification/ChunkedEcho.thy ===== *)
theory ChunkedEcho
  imports ChunkProps Delivery DemoProps
begin

text \<open>
  A chunked message from the encoder of one client (\<open>client/chunking.py\<close>) to the hook of another
  (\<open>client/base.py\<close>), and what the demo client makes of it (\<open>demo_loop.py\<close>).
\<close>

section \<open>What the last envelope brings\<close>

text \<open>A delivered message carries the length and the count of the envelope that completed it.\<close>

lemma push_metadata:
  assumes "push L b R = (R', Inr (Some m))"
  obtains c where "read_chunk L b = Inr c" "dcm_total_bytes m = cf_total_bytes c" "dcm_chunk_count m = cf_count c"
proof -
  obtain c st st' payload where c: "read_chunk L b = Inr c" "snd (enter_transfer c R) = Inr st"
    "add_chunk c st = Inr st'" "finish_transfer L st' payload = Inr m"
    by (rule push_delivered [OF assms])
  have "same_metadata st c"
    using c(2) by (auto simp: enter_transfer_def split: option.splits if_splits)
  then have "same_metadata st' c"
    using c(3) by (auto simp: add_chunk_def same_metadata_def split: option.splits if_splits)
  moreover have "dcm_total_bytes m = pt_total_bytes st'" "dcm_chunk_count m = pt_chunk_count st'"
    by (rule finish_transfer_InrD [OF c(4)], simp)+
  ultimately show thesis using that [OF c(1)] by (simp add: same_metadata_def)
qed

lemma json_value_set: "json_value (PDict d) \<Longrightarrow> json_value v \<Longrightarrow> json_value (PDict (dict_set k v d))"
  unfolding json_value.simps by (intro conjI wf_dict_set wf_dict_set_values) simp_all

section \<open>The call of the hook\<close>

lemma chunked_hook_call:
  fixes idx :: "int list"
  assumes "L = std_lib FT rp gz gunz" "\<forall>x. gunz (gz x) = Inr x" "json_ok FT False (PDict d)"
    and "client_ok c" "encode_chunked_bodies L fresh (PDict d) rid n compress tid = Inr batch"
    and "ecb_transfer_id batch \<notin> fst ` set (transfers (c_chunks c))"
    and "0 \<le> k" "k < ecb_chunk_count batch" "set idx = {0..<ecb_chunk_count batch} - {k}"
  defines "own \<equiv> \<lambda>i. ecb_bodies batch ! nat i"
  obtains c1 R m where
    "invoke_all L (map (\<lambda>i. with_body args (own i)) idx) c = (c1, map (\<lambda>_. Inr (Answer (ok_result True))) idx)"
    "is_chunk_envelope (own k) = Inr True" "push L (own k) (c_chunks c1) = (R, Inr (Some m))"
    "dcm_body m = d" "dcm_request_id m = rid" "json_value (PDict d)"
    "json_value (PDict (own k)) \<longrightarrow> short_int (dcm_total_bytes m) \<and> short_int (dcm_chunk_count m)"
proof -
  let ?ops = "map Inl idx :: (int + pydict) list"
  note R = client_ok_tables(6) [OF assms(4)]
  have faith: "json_faithful L d" using std_lib_encoded_faithful assms(1,3,5) by blast
  then obtain t where "json_loads FT t = Inr (PDict d)"
    using assms(1) by (auto simp: json_faithful_def split: sum.splits)
  then have json: "json_value (PDict d)" by (rule json_loads_value)
  have gunzip: "lib_gunzip L (lib_gzip L x) = Inr x" for x using assms(1,2) by simp
  have no_other: "{b. Inr b \<in> set ?ops} = {}" by auto
  have room: "card (transfer_key L ` {b. Inr b \<in> set ?ops}) < nat (max_pending (c_chunks c))"
    using R unfolding no_other by (simp add: wf_reassembler_def)
  have bodies: "map (op_body own) ?ops = map own idx" by (simp add: op_body_def)
  have own_ops: "{i. Inl i \<in> set ?ops} = {0..<ecb_chunk_count batch} - {k}" using assms(9) by auto
  have others: "transfer_key L b \<noteq> ecb_transfer_id batch" if "Inr b \<in> set ?ops" for b using that by auto
  note re = reassemble_batch [OF R assms(5) faith gunzip assms(6-8) own_ops others room, folded own_def, unfolded bodies]
  have all: "\<forall>r \<in> set (snd (push_all L (map own idx) (c_chunks c))). r = Inr None"
    using re(1) by (simp add: all_set_conv_all_nth length_push_all)
  obtain enc ce where n: "1 \<le> n" and b: "batch = make_batch L (pick_transfer_id fresh tid) rid n enc ce"
    using encode_chunked_bodiesD [OF assms(5)] by blast
  have env: "is_chunk_envelope (own i) = Inr True" if "0 \<le> i" "i < ecb_chunk_count batch" for i
    using envelope_of_batch [OF n, of "nat i" enc] that by (simp add: own_def b make_batch_simps nat_less_iff)
  let ?c1 = "c\<lparr>c_chunks := fst (push_all L (map own idx) (c_chunks c))\<rparr>"
  obtain m where m: "snd (push L (own k) (c_chunks ?c1)) = Inr (Some m)" "batch_message batch d m"
    using re(2) unfolding own_def by auto
  have "invoke_all L (map (with_body args) (map own idx)) c = (?c1, map (\<lambda>_. Inr (Answer (ok_result True))) (map own idx))"
    using env assms(9) all by (intro invoke_collecting) auto
  then have inv: "invoke_all L (map (\<lambda>i. with_body args (own i)) idx) c = (?c1, map (\<lambda>_. Inr (Answer (ok_result True))) idx)"
    by (simp add: comp_def)
  have "dcm_body m = d" "dcm_request_id m = rid"
    using m(2) by (simp_all add: batch_message_def b make_batch_simps)
  moreover obtain R1 where push: "push L (own k) (c_chunks ?c1) = (R1, Inr (Some m))" using m(1) by (metis prod.collapse)
  moreover have "short_int (dcm_total_bytes m) \<and> short_int (dcm_chunk_count m)" if "json_value (PDict (own k))"
  proof -
    have k: "nat k < length (split_payload n enc)" using assms(7,8) by (simp add: b make_batch_simps nat_less_iff)
    obtain f where "read_chunk L (own k) = Inr f" "dcm_total_bytes m = cf_total_bytes f" "dcm_chunk_count m = cf_count f"
      using push_metadata [OF push] by blast
    moreover from that have "short_int (int (length enc)) \<and> short_int (int (length (split_payload n enc)))"
      by (simp add: own_def b make_batch_nth [OF k] chunk_body_def chunk_metadata_def)
    moreover obtain f' where "read_chunk L (own k) = Inr f'" "cf_total_bytes f' = int (length enc)"
        "cf_count f' = int (length (split_payload n enc))"
      using envelope_of_batch [OF n k, of L "pick_transfer_id fresh tid" rid ce] by (auto simp: own_def b)
    ultimately show ?thesis by simp
  qed
  ultimately show thesis using that [OF inv env [OF assms(7,8)]] json by blast
qed

section \<open>The arguments of the hook\<close>

lemma assembled_json:
  assumes "json_value (PDict args)" "json_value (PDict (dcm_body m))"
    and "short_int (dcm_total_bytes m)" "short_int (dcm_chunk_count m)"
  shows "json_value (PDict (assembled_arguments m args))"
  unfolding assembled_arguments_def Let_def
  by (intro json_value_set) (use assms in \<open>simp_all add: json_value_set del: json_value.simps(3)\<close>)

text \<open>An envelope whose arguments are JSON and whose request id is not blank is accepted.\<close>

lemma envelope_accepted:
  assumes "json_value (PDict a)" "py_strip (ev_request_id (envelope_of L a)) \<noteq> []"
  obtains pargs where "receive_envelope L (envelope_of L a) = (ok_result True, Some pargs)"
proof -
  have "wf_dict a" using assms(1) by simp
  from handler_sees_envelope [OF this refl, of L] assms(2) that show thesis
    by (auto split: prod.splits option.splits)
qed

end
