(* ===== verification/ApiKey.thy ===== *)
theory ApiKey
  imports PyText
begin

text \<open>
  \<open>src/rpcproxy/auth/api_key.py\<close>: keys of the form \<open>rpcp_ck_<callee>_<key id>_<secret>\<close>, their
  stores, the issuer and the verifier.  The two stores are written as protocols in the source; what
  the issuer and the verifier rely on is the locale \<open>record_store\<close>, and the in-memory store
  (\<open>ApiKeyFacts\<close>) is an instance of it.
\<close>

section \<open>Segments\<close>

definition API_KEY_PREFIX :: pystr where
  "API_KEY_PREFIX = lit ''rpcp''"

definition API_KEY_KIND :: pystr where
  "API_KEY_KIND = lit ''ck''"

text \<open>\<open>[A-Za-z0-9.-]\<close>\<close>

definition segment_char :: "nat \<Rightarrow> bool" where
  "segment_char c \<longleftrightarrow>
     (65 \<le> c \<and> c \<le> 90) \<or> (97 \<le> c \<and> c \<le> 122) \<or> (48 \<le> c \<and> c \<le> 57) \<or> c = 46 \<or> c = 45"

definition validate_segment :: "string \<Rightarrow> pystr \<Rightarrow> py_exn + unit" where
  "validate_segment name value =
     (if value = [] then raise InvalidApiKeyError (name @ '' must not be empty'')
      else if \<not> (\<forall>c \<in> set value. segment_char c)
      then raise InvalidApiKeyError (name @ '' may contain only letters, digits, dot, or dash'')
      else Inr ())"

text \<open>\<open>s.split(sep, n)\<close> for a separator of one character\<close>

fun split_max :: "nat \<Rightarrow> nat \<Rightarrow> pystr \<Rightarrow> pystr list" where
  "split_max sep 0 s = [s]"
| "split_max sep (Suc n) s =
     (if sep \<in> set s
      then takeWhile (\<lambda>c. c \<noteq> sep) s # split_max sep n (tl (dropWhile (\<lambda>c. c \<noteq> sep) s))
      else [s])"

section \<open>Keys\<close>

record api_key_parts =
  kp_callee_id :: pystr
  kp_key_id :: pystr
  kp_secret :: pystr

record api_key_record =
  kr_callee_id :: pystr
  kr_key_id :: pystr
  kr_secret_hash :: pystr
  kr_created_at :: pyfloat
  kr_revoked :: bool

record api_key_issue =
  ki_api_key :: pystr
  ki_record :: api_key_record

definition hash_api_key_secret :: "pylib \<Rightarrow> pystr \<Rightarrow> py_exn + pystr" where
  "hash_api_key_secret L secret = rbind (utf8_encode secret) (\<lambda>bs. Inr (lib_sha256 L bs))"

definition join_key :: "pystr \<Rightarrow> pystr \<Rightarrow> pystr \<Rightarrow> pystr" where
  "join_key callee_id key_id secret =
     API_KEY_PREFIX @ lit ''_'' @ API_KEY_KIND @ lit ''_'' @ callee_id @ lit ''_'' @ key_id @ lit ''_'' @ secret"

text \<open>
  \<open>fresh_key\<close> and \<open>fresh_secret\<close> are the results of \<open>secrets.token_hex\<close>; an empty argument counts as
  none.
\<close>

definition generate_api_key ::
    "pystr \<Rightarrow> pystr \<Rightarrow> pystr \<Rightarrow> pystr option \<Rightarrow> pystr option \<Rightarrow> py_exn + pystr" where
  "generate_api_key fresh_key fresh_secret callee_id key_id secret =
     rbind (validate_segment ''callee_id'' callee_id) (\<lambda>_.
     let key_id = (case key_id of None \<Rightarrow> fresh_key | Some k \<Rightarrow> if k = [] then fresh_key else k);
         secret = (case secret of None \<Rightarrow> fresh_secret | Some s \<Rightarrow> if s = [] then fresh_secret else s)
     in rbind (validate_segment ''key_id'' key_id) (\<lambda>_.
        rbind (validate_segment ''secret'' secret) (\<lambda>_.
        Inr (join_key callee_id key_id secret))))"

definition parse_api_key :: "pystr \<Rightarrow> py_exn + api_key_parts" where
  "parse_api_key api_key =
     (case split_max 95 4 api_key of
        [prefix, kind, callee_id, key_id, secret] \<Rightarrow>
          if prefix \<noteq> API_KEY_PREFIX \<or> kind \<noteq> API_KEY_KIND
          then raise InvalidApiKeyError ''API key has invalid prefix''
          else rbind (validate_segment ''callee_id'' callee_id) (\<lambda>_.
               rbind (validate_segment ''key_id'' key_id) (\<lambda>_.
               rbind (validate_segment ''secret'' secret) (\<lambda>_.
               Inr \<lparr>kp_callee_id = callee_id, kp_key_id = key_id, kp_secret = secret\<rparr>)))
      | _ \<Rightarrow> raise InvalidApiKeyError ''API key has invalid format'')"

definition mask_api_key :: "pystr \<Rightarrow> py_exn + pystr" where
  "mask_api_key api_key =
     (case parse_api_key api_key of
        Inl e \<Rightarrow> if exn_class e = InvalidApiKeyError then Inr (lit ''<invalid-api-key>'') else Inl e
      | Inr parts \<Rightarrow>
          Inr (API_KEY_PREFIX @ lit ''_'' @ API_KEY_KIND @ lit ''_'' @ kp_callee_id parts @ lit ''_'' @
               kp_key_id parts @ lit ''_...''))"

section \<open>Stores\<close>

type_synonym record_store_state = "((pystr \<times> pystr) \<times> api_key_record) list"

definition save_record :: "api_key_record \<Rightarrow> record_store_state \<Rightarrow> record_store_state" where
  "save_record r st = dict_set (kr_callee_id r, kr_key_id r) r st"

definition get_record :: "record_store_state \<Rightarrow> pystr \<Rightarrow> pystr \<Rightarrow> api_key_record option" where
  "get_record st callee_id key_id = map_of st (callee_id, key_id)"

definition revoke_record :: "pystr \<Rightarrow> pystr \<Rightarrow> record_store_state \<Rightarrow> record_store_state" where
  "revoke_record callee_id key_id st =
     (case map_of st (callee_id, key_id) of
        None \<Rightarrow> st
      | Some r \<Rightarrow> dict_set (callee_id, key_id)
          \<lparr>kr_callee_id = kr_callee_id r, kr_key_id = kr_key_id r, kr_secret_hash = kr_secret_hash r,
           kr_created_at = kr_created_at r, kr_revoked = True\<rparr> st)"

type_synonym key_store_state = "(pystr \<times> pystr) list"

definition save_api_key :: "pystr \<Rightarrow> pystr \<Rightarrow> key_store_state \<Rightarrow> key_store_state \<times> (py_exn + unit)" where
  "save_api_key expected_callee_id api_key st =
     (case parse_api_key api_key of
        Inl e \<Rightarrow> (st, Inl e)
      | Inr parsed \<Rightarrow>
          if kp_callee_id parsed \<noteq> expected_callee_id
          then (st, raise InvalidApiKeyError ''API key callee_id does not match target callee'')
          else (dict_set expected_callee_id api_key st, Inr ()))"

definition get_api_key :: "key_store_state \<Rightarrow> pystr \<Rightarrow> pystr option" where
  "get_api_key st callee_id = map_of st callee_id"

definition remove_api_key :: "pystr \<Rightarrow> key_store_state \<Rightarrow> key_store_state" where
  "remove_api_key callee_id st = dict_pop callee_id st"

section \<open>Issuer and verifier\<close>

text \<open>\<open>ApiKeyIssuer.__init__\<close> and \<open>ApiKeyVerifier.__init__\<close> take a callee id or raise.\<close>

definition check_callee :: "pystr \<Rightarrow> py_exn + pystr" where
  "check_callee callee_id = rbind (validate_segment ''callee_id'' callee_id) (\<lambda>_. Inr callee_id)"

definition new_verifier :: "pystr \<Rightarrow> py_exn + pystr" where
  "new_verifier callee_id = rbind (validate_segment ''callee_id'' callee_id) (\<lambda>_. Inr callee_id)"

text \<open>\<open>now\<close> is what the clock says, \<open>save\<close> and \<open>fetch\<close> are the operations of the record store.\<close>

definition issue_api_key ::
    "pylib \<Rightarrow> (api_key_record \<Rightarrow> 's \<Rightarrow> 's) \<Rightarrow> pystr \<Rightarrow> pystr \<Rightarrow> pystr \<Rightarrow> pyfloat \<Rightarrow> 's \<Rightarrow>
     's \<times> (py_exn + api_key_issue)" where
  "issue_api_key L save callee_id fresh_key fresh_secret now st =
     (case rbind (generate_api_key fresh_key fresh_secret callee_id None None) (\<lambda>api_key.
           rbind (parse_api_key api_key) (\<lambda>parsed.
           rbind (hash_api_key_secret L (kp_secret parsed)) (\<lambda>secret_hash.
           Inr (api_key,
                \<lparr>kr_callee_id = kp_callee_id parsed, kr_key_id = kp_key_id parsed,
                 kr_secret_hash = secret_hash, kr_created_at = now, kr_revoked = False\<rparr>)))) of
        Inl e \<Rightarrow> (st, Inl e)
      | Inr (api_key, record) \<Rightarrow>
          (save record st, Inr \<lparr>ki_api_key = api_key, ki_record = record\<rparr>))"

text \<open>\<open>hmac.compare_digest\<close> of two strings: only ASCII is allowed.\<close>

definition compare_digest :: "pystr \<Rightarrow> pystr \<Rightarrow> py_exn + bool" where
  "compare_digest a b =
     (if \<forall>c \<in> set a \<union> set b. c < 128 then Inr (a = b)
      else raise TypeError ''comparing strings with non-ASCII characters is not supported'')"

definition verify_api_key ::
    "pylib \<Rightarrow> ('s \<Rightarrow> pystr \<Rightarrow> pystr \<Rightarrow> api_key_record option) \<Rightarrow> pystr \<Rightarrow> pystr \<Rightarrow> 's \<Rightarrow> py_exn + bool" where
  "verify_api_key L fetch callee_id api_key st =
     (case parse_api_key api_key of
        Inl e \<Rightarrow> if exn_class e = InvalidApiKeyError then Inr False else Inl e
      | Inr parsed \<Rightarrow>
          if kp_callee_id parsed \<noteq> callee_id then Inr False
          else case fetch st (kp_callee_id parsed) (kp_key_id parsed) of
            None \<Rightarrow> Inr False
          | Some r \<Rightarrow>
              if kr_revoked r then Inr False
              else rbind (hash_api_key_secret L (kp_secret parsed)) (compare_digest (kr_secret_hash r)))"

end
