(* ===== verification/ApiKeyFacts.thy ===== *)
theory ApiKeyFacts
  imports ApiKey
begin

text \<open>
  Lemmas on API keys, the interface \<open>record_store\<close> between the issuer, the verifier and their
  store, and its instance, the in-memory record store.
\<close>

section \<open>Segments and splitting\<close>

definition segment :: "pystr \<Rightarrow> bool" where
  "segment s \<longleftrightarrow> s \<noteq> [] \<and> (\<forall>c \<in> set s. segment_char c)"

lemma validate_segment_iff [simp]: "validate_segment n s = Inr () \<longleftrightarrow> segment s"
  by (auto simp: validate_segment_def segment_def)

lemma rbind_validate [simp]:
  "rbind (validate_segment n s) f = Inr x \<longleftrightarrow> segment s \<and> f () = Inr x"
  by (simp add: rbind_eq_Inr)

lemma validate_segment_Inl: "validate_segment n s = Inl e \<Longrightarrow> exn_class e = InvalidApiKeyError"
  by (auto simp: validate_segment_def raise_def split: if_splits)

lemma segment_no_sep: "segment s \<Longrightarrow> 95 \<notin> set s"
  by (auto simp: segment_def segment_char_def)

lemma segment_ascii: "segment s \<Longrightarrow> c \<in> set s \<Longrightarrow> c < 128"
  by (auto simp: segment_def segment_char_def)

lemma split_max_sep:
  assumes "sep \<notin> set a"
  shows "split_max sep (Suc n) (a @ sep # b) = a # split_max sep n b"
proof -
  have "takeWhile (\<lambda>c. c \<noteq> sep) (a @ sep # b) = a \<and> dropWhile (\<lambda>c. c \<noteq> sep) (a @ sep # b) = sep # b"
    using assms by (induction a) auto
  then show ?thesis by simp
qed

declare split_max.simps(2) [simp del]

lemma split_max_last: "sep \<notin> set s \<Longrightarrow> split_max sep n s = [s]"
  by (cases n) (auto simp: split_max.simps(2))

fun join :: "nat \<Rightarrow> pystr list \<Rightarrow> pystr" where
  "join sep [] = []"
| "join sep [s] = s"
| "join sep (s # ss) = s @ sep # join sep ss"

lemma split_max_not_Nil [simp]: "split_max sep n s \<noteq> []"
  by (cases n) (auto simp: split_max.simps(2))

lemma join_split_max: "join sep (split_max sep n s) = s"
proof (induction n arbitrary: s)
  case (Suc n)
  show ?case
  proof (cases "sep \<in> set s")
    case True
    then have "dropWhile (\<lambda>c. c \<noteq> sep) s \<noteq> []" "hd (dropWhile (\<lambda>c. c \<noteq> sep) s) = sep"
      using hd_dropWhile [of "\<lambda>c. c \<noteq> sep" s] by auto
    then have "s = takeWhile (\<lambda>c. c \<noteq> sep) s @ sep # tl (dropWhile (\<lambda>c. c \<noteq> sep) s)"
      by (metis list.collapse takeWhile_dropWhile_id)
    moreover have "join sep (split_max sep (Suc n) s) =
        takeWhile (\<lambda>c. c \<noteq> sep) s @ sep # tl (dropWhile (\<lambda>c. c \<noteq> sep) s)"
      using True Suc.IH [of "tl (dropWhile (\<lambda>c. c \<noteq> sep) s)"]
      by (cases "split_max sep n (tl (dropWhile (\<lambda>c. c \<noteq> sep) s))") (auto simp: split_max.simps(2))
    ultimately show ?thesis by simp
  qed (simp add: split_max.simps(2))
qed simp

lemma prefix_no_sep: "95 \<notin> set API_KEY_PREFIX" "95 \<notin> set API_KEY_KIND"
  by (simp_all add: API_KEY_PREFIX_def API_KEY_KIND_def lit_def)

lemma lit_sep: "lit ''_'' = [95]"
  by (simp add: lit_def)

lemma parse_join:
  assumes "segment c" "segment k" "segment s"
  shows "parse_api_key (join_key c k s) = Inr \<lparr>kp_callee_id = c, kp_key_id = k, kp_secret = s\<rparr>"
proof -
  have four: "(4::nat) = Suc (Suc (Suc (Suc 0)))" by simp
  have "split_max 95 4 (join_key c k s) = [API_KEY_PREFIX, API_KEY_KIND, c, k, s]"
    using assms prefix_no_sep unfolding four
    by (simp add: join_key_def lit_sep split_max_sep segment_no_sep)
  with assms show ?thesis by (simp add: parse_api_key_def validate_segment_def segment_def)
qed

lemma parse_InrD:
  assumes "parse_api_key a = Inr p"
  shows "a = join_key (kp_callee_id p) (kp_key_id p) (kp_secret p) \<and>
    segment (kp_callee_id p) \<and> segment (kp_key_id p) \<and> segment (kp_secret p)"
proof -
  obtain c k s where sp: "split_max 95 4 a = [API_KEY_PREFIX, API_KEY_KIND, c, k, s]"
    and p: "p = \<lparr>kp_callee_id = c, kp_key_id = k, kp_secret = s\<rparr>" "segment c" "segment k" "segment s"
    using assms by (auto simp: parse_api_key_def split: list.splits if_splits)
  have "a = join 95 (split_max 95 4 a)" by (simp add: join_split_max)
  with sp p show ?thesis by (simp add: join_key_def lit_sep)
qed

lemma parse_api_key_iff:
  "parse_api_key a = Inr p \<longleftrightarrow>
     a = join_key (kp_callee_id p) (kp_key_id p) (kp_secret p) \<and>
     segment (kp_callee_id p) \<and> segment (kp_key_id p) \<and> segment (kp_secret p)"
  using parse_InrD parse_join by (metis api_key_parts.surjective old.unit.exhaust)

lemma parse_Inl: "parse_api_key a = Inl e \<Longrightarrow> exn_class e = InvalidApiKeyError"
  by (auto simp: parse_api_key_def raise_def rbind_eq_Inl dest: validate_segment_Inl
      split: list.splits if_splits)

lemma generate_InrD:
  assumes "generate_api_key fk fs callee key secret = Inr a"
  obtains k s where "a = join_key callee k s" "segment callee" "segment k" "segment s"
    "k = (case key of None \<Rightarrow> fk | Some k \<Rightarrow> if k = [] then fk else k)"
    "s = (case secret of None \<Rightarrow> fs | Some s \<Rightarrow> if s = [] then fs else s)"
  using assms by (auto simp: generate_api_key_def Let_def)

lemma hash_segment: "segment s \<Longrightarrow> \<exists>h. hash_api_key_secret L s = Inr h"
proof -
  have "(\<forall>c \<in> set s. c < 128) \<Longrightarrow> \<exists>bs. utf8_encode s = Inr bs" for s
    by (induction s) (auto simp: utf8_char_def)
  then show "segment s \<Longrightarrow> \<exists>h. hash_api_key_secret L s = Inr h"
    using segment_ascii [of s] by (fastforce simp: hash_api_key_secret_def)
qed

section \<open>The interface of the record store\<close>

text \<open>\<open>hexdigest()\<close> is a string of hexadecimal digits.\<close>

definition hex_digests :: "pylib \<Rightarrow> bool" where
  "hex_digests L \<longleftrightarrow> (\<forall>bs. \<forall>c \<in> set (lib_sha256 L bs). c < 128)"

lemma compare_hashes:
  assumes "hex_digests L" "hash_api_key_secret L s = Inr h" "hash_api_key_secret L s' = Inr h'"
  shows "compare_digest h h' = Inr (h = h')"
  using assms by (auto simp: compare_digest_def hash_api_key_secret_def rbind_eq_Inr hex_digests_def)

text \<open>A run of the issuer and of revocations for one callee.\<close>

datatype key_op = Issue pystr pystr pyfloat | Revoke pystr

fun key_step ::
    "pylib \<Rightarrow> (api_key_record \<Rightarrow> 's \<Rightarrow> 's) \<Rightarrow> (pystr \<Rightarrow> pystr \<Rightarrow> 's \<Rightarrow> 's) \<Rightarrow> pystr \<Rightarrow> key_op \<Rightarrow> 's \<Rightarrow> 's" where
  "key_step L save revoke callee (Issue fk fs now) s = fst (issue_api_key L save callee fk fs now s)"
| "key_step L save revoke callee (Revoke k) s = revoke callee k s"

definition issued_record :: "pystr \<Rightarrow> pystr \<Rightarrow> pystr \<Rightarrow> pyfloat \<Rightarrow> api_key_record" where
  "issued_record callee_id key_id h now =
     \<lparr>kr_callee_id = callee_id, kr_key_id = key_id, kr_secret_hash = h, kr_created_at = now, kr_revoked = False\<rparr>"

lemma issue_api_key_InrD:
  assumes "issue_api_key L save callee fk fs now st = (st', Inr i)"
  obtains h where "hash_api_key_secret L fs = Inr h" "ki_api_key i = join_key callee fk fs"
    "segment callee" "segment fk" "segment fs" "ki_record i = issued_record callee fk h now"
    "st' = save (issued_record callee fk h now) st"
proof -
  from assms obtain a r where g: "generate_api_key fk fs callee None None = Inr a"
    and h: "rbind (parse_api_key a) (\<lambda>parsed. rbind (hash_api_key_secret L (kp_secret parsed)) (\<lambda>secret_hash.
           Inr (a, \<lparr>kr_callee_id = kp_callee_id parsed, kr_key_id = kp_key_id parsed,
                 kr_secret_hash = secret_hash, kr_created_at = now, kr_revoked = False\<rparr>))) = Inr (a, r)"
    and i: "i = \<lparr>ki_api_key = a, ki_record = r\<rparr>" "st' = save r st"
    by (auto simp: issue_api_key_def rbind_eq_Inr split: sum.splits)
  from g have a: "a = join_key callee fk fs" "segment callee" "segment fk" "segment fs"
    by (auto elim: generate_InrD)
  with h i that show thesis
    by (auto simp: parse_join rbind_eq_Inr issued_record_def)
qed

lemma issue_api_key_Inl:
  assumes "issue_api_key L save callee fk fs now st = (st', Inl e)"
  shows "st' = st"
  using assms by (auto simp: issue_api_key_def split: sum.splits)

lemma issue_api_key_valid:
  assumes "segment callee" "segment fk" "segment fs"
  shows "\<exists>h. hash_api_key_secret L fs = Inr h \<and>
    issue_api_key L save callee fk fs now st =
      (save (issued_record callee fk h now) st,
       Inr \<lparr>ki_api_key = join_key callee fk fs, ki_record = issued_record callee fk h now\<rparr>)"
proof -
  obtain h where h: "hash_api_key_secret L fs = Inr h" using hash_segment [OF assms(3)] by blast
  have "generate_api_key fk fs callee None None = Inr (join_key callee fk fs)"
    using assms by (simp add: generate_api_key_def)
  with h show ?thesis
    by (simp add: issue_api_key_def parse_join [OF assms] issued_record_def)
qed

locale record_store =
  fixes empty :: "'s" and save :: "api_key_record \<Rightarrow> 's \<Rightarrow> 's"
    and fetch :: "'s \<Rightarrow> pystr \<Rightarrow> pystr \<Rightarrow> api_key_record option"
    and revoke :: "pystr \<Rightarrow> pystr \<Rightarrow> 's \<Rightarrow> 's"
  assumes fetch_empty: "fetch empty c k = None"
    and fetch_save: "fetch (save r s) c k =
      (if c = kr_callee_id r \<and> k = kr_key_id r then Some r else fetch s c k)"
    and fetch_revoke: "fetch (revoke c k s) c' k' =
      (if c' = c \<and> k' = k then map_option (\<lambda>r. r\<lparr>kr_revoked := True\<rparr>) (fetch s c' k') else fetch s c' k')"
begin

lemma verify_iff:
  assumes "hex_digests L"
    and "\<And>k r. fetch s callee k = Some r \<Longrightarrow> \<exists>x. hash_api_key_secret L x = Inr (kr_secret_hash r)"
  shows "verify_api_key L fetch callee a s = Inr True \<longleftrightarrow>
    (\<exists>p r. parse_api_key a = Inr p \<and> kp_callee_id p = callee \<and> fetch s callee (kp_key_id p) = Some r \<and>
       \<not> kr_revoked r \<and> hash_api_key_secret L (kp_secret p) = Inr (kr_secret_hash r))"
proof (cases "parse_api_key a")
  case (Inr p)
  obtain h where h: "hash_api_key_secret L (kp_secret p) = Inr h"
    using hash_segment parse_InrD [OF Inr] by blast
  have "compare_digest (kr_secret_hash r) h = Inr (kr_secret_hash r = h)"
    if "fetch s callee (kp_key_id p) = Some r" for r
    using assms(2) [OF that] compare_hashes [OF assms(1) _ h] by blast
  with Inr h show ?thesis
    by (cases "fetch s callee (kp_key_id p)") (auto simp: verify_api_key_def)
qed (simp add: verify_api_key_def)

lemma fetch_issue:
  "fetch (key_step L save revoke callee (Issue fk fs now) s) c k =
     (if segment callee \<and> segment fk \<and> segment fs \<and> c = callee \<and> k = fk
      then map_option (\<lambda>h. issued_record callee fk h now)
        (case hash_api_key_secret L fs of Inr h \<Rightarrow> Some h | Inl _ \<Rightarrow> None)
      else fetch s c k)"
proof (cases "segment callee \<and> segment fk \<and> segment fs")
  case True
  then show ?thesis
    using issue_api_key_valid [of callee fk fs L save now s]
    by (auto simp: fetch_save issued_record_def)
next
  case False
  obtain s' r where i: "issue_api_key L save callee fk fs now s = (s', r)" by fastforce
  with False obtain e where "r = Inl e" by (cases r) (auto elim: issue_api_key_InrD)
  with i False show ?thesis by (auto dest: issue_api_key_Inl)
qed

text \<open>
  After any run of issues and revocations a record that is not revoked comes from an issue that no
  revocation of its key id follows.
\<close>

lemma record_from_issue:
  assumes "fetch (fold (key_step L save revoke callee) ops empty) callee k = Some r"
  shows "\<exists>pre fs now post. ops = pre @ Issue k fs now # post \<and>
    hash_api_key_secret L fs = Inr (kr_secret_hash r) \<and> (\<not> kr_revoked r \<longrightarrow> Revoke k \<notin> set post)"
  using assms
proof (induction ops arbitrary: r rule: rev_induct)
  case (snoc op ops)
  let ?s = "fold (key_step L save revoke callee) ops empty"
  have later: "\<exists>pre fs now post. ops @ [op] = pre @ Issue k fs now # post \<and>
      hash_api_key_secret L fs = Inr (kr_secret_hash r0) \<and> (\<not> kr_revoked r0 \<longrightarrow> Revoke k \<notin> set post)"
    if "fetch ?s callee k = Some r0" "op \<noteq> Revoke k \<or> kr_revoked r0" for r0
  proof -
    from snoc.IH [OF that(1)] obtain pre fs now post where
      "ops = pre @ Issue k fs now # post" "hash_api_key_secret L fs = Inr (kr_secret_hash r0)"
      "\<not> kr_revoked r0 \<longrightarrow> Revoke k \<notin> set post" by blast
    with that(2) show ?thesis
      by (intro exI [of _ pre] exI [of _ fs] exI [of _ now] exI [of _ "post @ [op]"]) auto
  qed
  show ?case
  proof (cases op)
    case (Issue fk fs now)
    show ?thesis
    proof (cases "segment callee \<and> segment fk \<and> segment fs \<and> k = fk")
      case True
      then obtain h where "hash_api_key_secret L fs = Inr h" using hash_segment by blast
      with True snoc.prems Issue have "op = Issue k fs now" "kr_secret_hash r = h"
        by (auto simp: fetch_issue issued_record_def simp del: key_step.simps)
      with \<open>hash_api_key_secret L fs = Inr h\<close> show ?thesis
        by (intro exI [of _ ops] exI [of _ fs] exI [of _ now] exI [of _ "[]"]) simp
    next
      case False
      then have "fetch ?s callee k = Some r"
        using snoc.prems Issue by (auto simp: fetch_issue simp del: key_step.simps)
      then show ?thesis using later Issue by blast
    qed
  next
    case (Revoke k')
    show ?thesis
    proof (cases "k' = k")
      case True
      with snoc.prems Revoke obtain r0 where r0: "fetch ?s callee k = Some r0" "r = r0\<lparr>kr_revoked := True\<rparr>"
        by (auto simp: fetch_revoke)
      from snoc.IH [OF r0(1)] obtain pre fs now post where
        "ops = pre @ Issue k fs now # post" "hash_api_key_secret L fs = Inr (kr_secret_hash r0)" by blast
      with r0(2) show ?thesis
        by (intro exI [of _ pre] exI [of _ fs] exI [of _ now] exI [of _ "post @ [op]"]) simp
    next
      case False
      with snoc.prems Revoke have "fetch ?s callee k = Some r" by (simp add: fetch_revoke)
      with later Revoke False show ?thesis by blast
    qed
  qed
qed (simp add: fetch_empty)

lemma verified_key:
  assumes "hex_digests L"
  shows "verify_api_key L fetch callee a (fold (key_step L save revoke callee) ops empty) = Inr True \<longleftrightarrow>
    (\<exists>p r. parse_api_key a = Inr p \<and> kp_callee_id p = callee \<and>
       fetch (fold (key_step L save revoke callee) ops empty) callee (kp_key_id p) = Some r \<and>
       \<not> kr_revoked r \<and> hash_api_key_secret L (kp_secret p) = Inr (kr_secret_hash r))"
  by (rule verify_iff [OF assms]) (blast dest: record_from_issue)

lemma verify_only_issued:
  assumes "hex_digests L" "verify_api_key L fetch callee a (fold (key_step L save revoke callee) ops empty) = Inr True"
  shows "\<exists>p pre fs now post. parse_api_key a = Inr p \<and> kp_callee_id p = callee \<and>
    ops = pre @ Issue (kp_key_id p) fs now # post \<and> Revoke (kp_key_id p) \<notin> set post \<and>
    hash_api_key_secret L (kp_secret p) = hash_api_key_secret L fs"
proof -
  from assms(2) [unfolded verified_key [OF assms(1)]] obtain p r where
    p: "parse_api_key a = Inr p" "kp_callee_id p = callee"
    and r: "fetch (fold (key_step L save revoke callee) ops empty) callee (kp_key_id p) = Some r" "\<not> kr_revoked r"
    and h: "hash_api_key_secret L (kp_secret p) = Inr (kr_secret_hash r)" by blast
  from record_from_issue [OF r(1)] r(2) p h show ?thesis by fastforce
qed

text \<open>A key that was just issued verifies; and still does after other issues and revocations.\<close>

lemma issued_verifies:
  assumes "hex_digests L" "segment callee" "segment fk" "segment fs"
    and "\<forall>op \<in> set post. op \<noteq> Revoke fk \<and> (\<forall>fs' now'. op \<noteq> Issue fk fs' now')"
  shows "verify_api_key L fetch callee (join_key callee fk fs)
    (fold (key_step L save revoke callee) (pre @ Issue fk fs now # post) empty) = Inr True"
proof -
  obtain h where h: "hash_api_key_secret L fs = Inr h" using hash_segment [OF assms(4)] by blast
  have "fetch (fold (key_step L save revoke callee) post s) callee fk = fetch s callee fk" for s
    using assms(5)
  proof (induction post arbitrary: s)
    case (Cons op post)
    have "fetch (key_step L save revoke callee op s) callee fk = fetch s callee fk"
      using Cons.prems by (cases op) (auto simp: fetch_issue fetch_revoke simp del: key_step.simps(1))
    with Cons show ?case by simp
  qed simp
  then have "fetch (fold (key_step L save revoke callee) (pre @ Issue fk fs now # post) empty) callee fk =
      Some (issued_record callee fk h now)"
    using assms(2-4) h by (simp add: fetch_issue del: key_step.simps)
  with assms(2-4) h show ?thesis
    unfolding verified_key [OF assms(1)]
    by (intro exI [of _ "\<lparr>kp_callee_id = callee, kp_key_id = fk, kp_secret = fs\<rparr>"] exI [of _ "issued_record callee fk h now"])
      (simp add: parse_join issued_record_def)
qed

text \<open>Right after it was issued a key verifies, whatever else the store holds.\<close>

lemma issue_verifies:
  assumes "hex_digests L" "issue_api_key L save callee fk fs now s = (s', Inr i)"
  shows "verify_api_key L fetch callee (ki_api_key i) s' = Inr True"
proof -
  obtain h where h: "hash_api_key_secret L fs = Inr h" "ki_api_key i = join_key callee fk fs"
    "segment callee" "segment fk" "segment fs" "s' = save (issued_record callee fk h now) s"
    using assms(2) by (rule issue_api_key_InrD)
  then show ?thesis
    using compare_hashes [OF assms(1) h(1) h(1)]
    by (simp add: verify_api_key_def parse_join fetch_save issued_record_def)
qed

end

interpretation memory: record_store "[]" save_record get_record revoke_record
proof
  fix r :: api_key_record and s c k c' k'
  show "get_record [] c k = None" by (simp add: get_record_def)
  show "get_record (save_record r s) c k =
      (if c = kr_callee_id r \<and> k = kr_key_id r then Some r else get_record s c k)"
    by (auto simp: get_record_def save_record_def)
  show "get_record (revoke_record c k s) c' k' =
      (if c' = c \<and> k' = k then map_option (\<lambda>r. r\<lparr>kr_revoked := True\<rparr>) (get_record s c' k') else get_record s c' k')"
    by (auto simp: get_record_def revoke_record_def split: option.split)
qed

end
