(* ===== verification/ApiKeyProps.thy ===== *)
theory ApiKeyProps
  imports ApiKeyFacts StdLib Samples
begin

text \<open>The properties of API keys (\<open>auth/api_key.py\<close>).\<close>

text \<open>
  C26: what a key is: \<open>parse_api_key\<close> accepts exactly the texts \<open>rpcp_ck_<callee>_<key id>_<secret>\<close> of
  three non-empty segments of letters, digits, dots and dashes, and gives these; anything else is an
  \<open>InvalidApiKeyError\<close>.
\<close>

theorem parse_api_key_grammar:
  "(parse_api_key a = Inr p \<longleftrightarrow>
      a = join_key (kp_callee_id p) (kp_key_id p) (kp_secret p) \<and>
      segment (kp_callee_id p) \<and> segment (kp_key_id p) \<and> segment (kp_secret p)) \<and>
   ((\<exists>q. parse_api_key a = Inr q) \<or> (\<exists>e. parse_api_key a = Inl e \<and> exn_class e = InvalidApiKeyError))"
  using parse_api_key_iff parse_Inl by (cases "parse_api_key a") blast+

text \<open>
  \<open>parse_api_key\<close> undoes \<open>generate_api_key\<close>: the callee id is the given one, key id and secret are
  the given ones, or the random ones where none (or an empty one) is given.
\<close>

theorem generate_parse_roundtrip:
  assumes "generate_api_key fresh_key fresh_secret callee key_id secret = Inr a"
  shows "\<exists>p. parse_api_key a = Inr p \<and> kp_callee_id p = callee \<and>
    kp_key_id p = (case key_id of None \<Rightarrow> fresh_key | Some k \<Rightarrow> if k = [] then fresh_key else k) \<and>
    kp_secret p = (case secret of None \<Rightarrow> fresh_secret | Some s \<Rightarrow> if s = [] then fresh_secret else s)"
  using generate_InrD [OF assms] parse_join by fastforce

lemma sample_segments: "segment (lit ''bob'')" "segment (lit ''k1'')" "segment (lit ''s3'')"
  by (auto simp: segment_def segment_char_def lit_Cons)

theorem generate_parse_roundtrip_witness:
  "\<exists>p. parse_api_key (join_key (lit ''bob'') (lit ''k1'') (lit ''s3'')) = Inr p \<and> kp_secret p = lit ''s3''"
proof -
  have "generate_api_key (lit ''k1'') [] (lit ''bob'') None (Some (lit ''s3'')) =
      Inr (join_key (lit ''bob'') (lit ''k1'') (lit ''s3''))"
    using sample_segments by (simp add: generate_api_key_def Let_def)
  from generate_parse_roundtrip [OF this] show ?thesis by auto
qed

text \<open>
  The mask never raises and gives nothing of the secret away: two keys that differ only in their
  secrets have the same mask.
\<close>

theorem mask_hides_secret:
  "(\<exists>m. mask_api_key a = Inr m) \<and>
   (parse_api_key a = Inr p \<and> parse_api_key b = Inr (p\<lparr>kp_secret := s\<rparr>) \<longrightarrow> mask_api_key b = mask_api_key a)"
  by (auto simp: mask_api_key_def dest: parse_Inl split: sum.split)

theorem mask_hides_secret_witness:
  "mask_api_key (join_key (lit ''bob'') (lit ''k1'') (lit ''s3'')) =
   mask_api_key (join_key (lit ''bob'') (lit ''k1'') (lit ''bob''))"
proof -
  let ?p = "\<lparr>kp_callee_id = lit ''bob'', kp_key_id = lit ''k1'', kp_secret = lit ''s3''\<rparr>"
  have "parse_api_key (join_key (lit ''bob'') (lit ''k1'') (lit ''s3'')) = Inr ?p"
    "parse_api_key (join_key (lit ''bob'') (lit ''k1'') (lit ''bob'')) = Inr (?p\<lparr>kp_secret := lit ''bob''\<rparr>)"
    using sample_segments by (simp_all add: parse_join)
  then show ?thesis using mask_hides_secret by metis
qed

lemma std_hex_digests: "L = std_lib FT rp gz gunz \<Longrightarrow> hex_digests L"
  by (simp add: hex_digests_def sha256_hex_shape)

text \<open>
  C24: only issued keys verify: whatever was issued and revoked before, a key that verifies names the
  verifier's callee and a key id that was issued and not revoked since, and its secret has the SHA-256
  digest of the secret issued with it.
\<close>

theorem only_issued_keys_verify:
  assumes "L = std_lib FT rp gz gunz"
    and "verify_api_key L get_record callee a (fold (key_step L save_record revoke_record callee) ops []) = Inr True"
  shows "\<exists>p pre fs now post. parse_api_key a = Inr p \<and> kp_callee_id p = callee \<and>
    ops = pre @ Issue (kp_key_id p) fs now # post \<and> Revoke (kp_key_id p) \<notin> set post \<and>
    hash_api_key_secret L (kp_secret p) = hash_api_key_secret L fs"
  using std_hex_digests [OF assms(1)] assms(2) by (rule memory.verify_only_issued)

text \<open>
  C25: an issued key verifies from then on, until its key id is revoked or issued anew.
\<close>

theorem issued_key_verifies:
  assumes "L = std_lib FT rp gz gunz" "segment callee" "segment fk" "segment fs"
    and "\<forall>op \<in> set post. op \<noteq> Revoke fk \<and> (\<forall>fs' now'. op \<noteq> Issue fk fs' now')"
  shows "\<exists>i. snd (issue_api_key L save_record callee fk fs now
        (fold (key_step L save_record revoke_record callee) pre [])) = Inr i \<and>
    verify_api_key L get_record callee (ki_api_key i)
      (fold (key_step L save_record revoke_record callee) (pre @ Issue fk fs now # post) []) = Inr True"
proof -
  from issue_api_key_valid [OF assms(2-4), of L save_record now
      "fold (key_step L save_record revoke_record callee) pre []"]
  obtain i where "snd (issue_api_key L save_record callee fk fs now
      (fold (key_step L save_record revoke_record callee) pre [])) = Inr i"
    "ki_api_key i = join_key callee fk fs"
    by auto
  moreover have "verify_api_key L get_record callee (join_key callee fk fs)
      (fold (key_step L save_record revoke_record callee) (pre @ Issue fk fs now # post) []) = Inr True"
    by (rule memory.issued_verifies [OF std_hex_digests [OF assms(1)] assms(2-)])
  ultimately show ?thesis by metis
qed

theorem issued_key_verifies_witness:
  "verify_api_key std_sample get_record (lit ''bob'') (join_key (lit ''bob'') (lit ''k1'') (lit ''s3''))
     (fold (key_step std_sample save_record revoke_record (lit ''bob''))
       [Issue (lit ''k1'') (lit ''s3'') FNan, Revoke (lit ''k2'')] []) = Inr True"
proof -
  have post: "\<forall>op \<in> set [Revoke (lit ''k2'')]. op \<noteq> Revoke (lit ''k1'') \<and> (\<forall>fs' now'. op \<noteq> Issue (lit ''k1'') fs' now')"
    by simp
  from issued_key_verifies [OF std_sample_def sample_segments post, of FNan "[]"]
    issue_api_key_valid [OF sample_segments, of std_sample save_record FNan "[]"]
  show ?thesis by auto
qed

theorem only_issued_keys_verify_witness:
  "Revoke (lit ''k1'') \<notin> set [Revoke (lit ''k2'')] \<and>
   (\<exists>p. parse_api_key (join_key (lit ''bob'') (lit ''k1'') (lit ''s3'')) = Inr p \<and> kp_callee_id p = lit ''bob'')"
proof -
  have "verify_api_key std_sample get_record (lit ''bob'') (join_key (lit ''bob'') (lit ''k1'') (lit ''s3''))
     (fold (key_step std_sample save_record revoke_record (lit ''bob''))
       ([] @ Issue (lit ''k1'') (lit ''s3'') FNan # [Revoke (lit ''k2'')]) []) = Inr True"
    by (rule memory.issued_verifies [OF std_hex_digests [OF std_sample_def] sample_segments]) simp
  from only_issued_keys_verify [OF std_sample_def this] show ?thesis by auto
qed

section \<open>The caller's store\<close>

datatype store_op = SaveKey pystr pystr | RemoveKey pystr

fun store_step :: "store_op \<Rightarrow> key_store_state \<Rightarrow> key_store_state" where
  "store_step (SaveKey expected a) st = fst (save_api_key expected a st)"
| "store_step (RemoveKey c) st = remove_api_key c st"

text \<open>
  The caller's store never mixes callees up: whatever was saved (or refused) and removed, a key
  found under a callee id is a well-formed key of that callee, and the last one saved for it.
\<close>

theorem key_store_by_callee:
  assumes "get_api_key (fold store_step ops []) callee = Some a"
  shows "\<exists>p pre post. parse_api_key a = Inr p \<and> kp_callee_id p = callee \<and>
    ops = pre @ SaveKey callee a # post \<and> RemoveKey callee \<notin> set post \<and>
    (\<forall>b. SaveKey callee b \<in> set post \<longrightarrow> snd (save_api_key callee b []) \<noteq> Inr ())"
  using assms
proof (induction ops arbitrary: a rule: rev_induct)
  case (snoc op ops)
  let ?st = "fold store_step ops []"
  have keep: ?case
    if "get_api_key ?st callee = Some a" "op \<noteq> RemoveKey callee"
      "\<And>b. op = SaveKey callee b \<Longrightarrow> snd (save_api_key callee b []) \<noteq> Inr ()"
  proof -
    from snoc.IH [OF that(1)] obtain p pre post where "parse_api_key a = Inr p" "kp_callee_id p = callee"
      "ops = pre @ SaveKey callee a # post" "RemoveKey callee \<notin> set post"
      "\<forall>b. SaveKey callee b \<in> set post \<longrightarrow> snd (save_api_key callee b []) \<noteq> Inr ()" by blast
    with that(2,3) show ?thesis
      by (intro exI [of _ p] exI [of _ pre] exI [of _ "post @ [op]"]) auto
  qed
  show ?case
  proof (cases op)
    case (SaveKey c b)
    show ?thesis
    proof (cases "\<exists>p. parse_api_key b = Inr p \<and> kp_callee_id p = c")
      case True
      then obtain p where p: "parse_api_key b = Inr p" "kp_callee_id p = c" by blast
      then have st: "store_step op ?st = dict_set c b ?st" by (simp add: SaveKey save_api_key_def)
      show ?thesis
      proof (cases "c = callee")
        case True
        with snoc.prems st have "b = a" by (simp add: get_api_key_def)
        with True p SaveKey show ?thesis
          by (intro exI [of _ p] exI [of _ ops] exI [of _ "[]"]) simp
      next
        case False
        with snoc.prems st SaveKey show ?thesis by (intro keep) (auto simp: get_api_key_def)
      qed
    next
      case False
      then have "store_step op ?st = ?st" "snd (save_api_key c b []) \<noteq> Inr ()"
        by (auto simp: SaveKey save_api_key_def raise_def split: sum.split)
      with snoc.prems SaveKey show ?thesis by (intro keep) auto
    qed
  next
    case (RemoveKey c)
    with snoc.prems show ?thesis
      by (intro keep) (auto simp: get_api_key_def remove_api_key_def split: if_splits)
  qed
qed (simp add: get_api_key_def)

theorem key_store_by_callee_witness:
  "\<exists>p. parse_api_key (join_key (lit ''bob'') (lit ''k1'') (lit ''s3'')) = Inr p \<and> kp_callee_id p = lit ''bob''"
proof -
  have "get_api_key (fold store_step [SaveKey (lit ''bob'') (join_key (lit ''bob'') (lit ''k1'') (lit ''s3''))] [])
      (lit ''bob'') = Some (join_key (lit ''bob'') (lit ''k1'') (lit ''s3''))"
    using sample_segments by (simp add: save_api_key_def parse_join get_api_key_def)
  from key_store_by_callee [OF this] show ?thesis by blast
qed

end
