(* ===== verification/Sessions.thy ===== *)
theory Sessions
  imports PyText
begin

text \<open>
  \<open>src/rpcproxy/auth/sessions.py\<close>: the temporary login sessions of callers, each pending until it
  expires or is completed, in a dictionary from caller ids.  Floats are doubles: \<open>FFin m e\<close> is
  \<open>m * 2 ^ e\<close>, sums are rounded to 53 bits, ties to even, and a NaN compares with nothing.
\<close>

section \<open>Comparison and addition of floats\<close>

fun float_le :: "pyfloat \<Rightarrow> pyfloat \<Rightarrow> bool" where
  "float_le FNan y = False"
| "float_le x FNan = False"
| "float_le (FInf False) y = True"
| "float_le x (FInf True) = True"
| "float_le (FInf True) y = False"
| "float_le x (FInf False) = False"
| "float_le (FFin m e) (FFin n f) = (m * 2 ^ nat (e - min e f) \<le> n * 2 ^ nat (f - min e f))"

fun bit_count :: "nat \<Rightarrow> nat" where
  "bit_count n = (if n = 0 then 0 else Suc (bit_count (n div 2)))"

declare bit_count.simps [simp del]

definition round_double :: "int \<Rightarrow> int \<Rightarrow> pyfloat" where
  "round_double m e =
     (let b = int (bit_count (nat \<bar>m\<bar>));
          k = max 0 (max (b - 53) (- 1074 - e));
          q = m div 2 ^ nat k;
          r = m mod 2 ^ nat k;
          q' = (if 2 * r > 2 ^ nat k \<or> 2 * r = 2 ^ nat k \<and> odd q then q + 1 else q)
      in if int (bit_count (nat \<bar>q'\<bar>)) + e + k > 1024 then FInf (0 < m) else FFin q' (e + k))"

text \<open>\<open>FInf True\<close> is positive infinity.\<close>

fun float_add :: "pyfloat \<Rightarrow> pyfloat \<Rightarrow> pyfloat" where
  "float_add FNan y = FNan"
| "float_add x FNan = FNan"
| "float_add (FInf a) (FInf b) = (if a = b then FInf a else FNan)"
| "float_add (FInf a) y = FInf a"
| "float_add x (FInf b) = FInf b"
| "float_add (FFin m e) (FFin n f) =
     round_double (m * 2 ^ nat (e - min e f) + n * 2 ^ nat (f - min e f)) (min e f)"

section \<open>Sessions and their store\<close>

datatype login_session_status = PENDING | COMPLETED | EXPIRED

record login_session =
  ls_caller_id :: pystr
  ls_expires_at :: pyfloat
  ls_status :: login_session_status
  ls_push_channel_id :: "pystr option"

text \<open>\<open>clock\<close> is what \<open>time.time()\<close> says.\<close>

definition is_expired :: "pyfloat \<Rightarrow> login_session \<Rightarrow> pyfloat option \<Rightarrow> bool" where
  "is_expired clock s now =
     (let current = (case now of None \<Rightarrow> clock | Some t \<Rightarrow> t) in float_le (ls_expires_at s) current)"

type_synonym session_store = "(pystr \<times> login_session) list"

text \<open>The operations of the store; \<open>now\<close> is the reading of its clock.\<close>

definition create_session ::
    "pyfloat \<Rightarrow> pystr \<Rightarrow> pyfloat \<Rightarrow> pystr option \<Rightarrow> session_store \<Rightarrow>
     session_store \<times> (py_exn + login_session)" where
  "create_session now caller_id ttl_seconds push_channel_id st =
     (if caller_id = [] then (st, raise LoginSessionError ''caller_id must not be empty'')
      else if float_le ttl_seconds (FFin 0 0) then (st, raise LoginSessionError ''ttl_seconds must be positive'')
      else let session = \<lparr>ls_caller_id = caller_id, ls_expires_at = float_add now ttl_seconds,
                          ls_status = PENDING, ls_push_channel_id = push_channel_id\<rparr>
           in (dict_set caller_id session st, Inr session))"

definition get_pending_session ::
    "pyfloat \<Rightarrow> pystr \<Rightarrow> session_store \<Rightarrow> session_store \<times> login_session option" where
  "get_pending_session now caller_id st =
     (case map_of st caller_id of
        None \<Rightarrow> (st, None)
      | Some session \<Rightarrow>
          if ls_status session \<noteq> PENDING then (st, None)
          else if is_expired now session (Some now)
          then (dict_set caller_id
                  \<lparr>ls_caller_id = ls_caller_id session, ls_expires_at = ls_expires_at session,
                   ls_status = EXPIRED, ls_push_channel_id = ls_push_channel_id session\<rparr> st, None)
          else (st, Some session))"

definition completed :: "login_session \<Rightarrow> login_session" where
  "completed session =
     \<lparr>ls_caller_id = ls_caller_id session, ls_expires_at = ls_expires_at session,
      ls_status = COMPLETED, ls_push_channel_id = ls_push_channel_id session\<rparr>"

definition complete_session ::
    "pyfloat \<Rightarrow> pystr \<Rightarrow> session_store \<Rightarrow> session_store \<times> (py_exn + login_session)" where
  "complete_session now caller_id st =
     (case get_pending_session now caller_id st of
        (st', None) \<Rightarrow> (st', raise LoginSessionError ''login session is not pending'')
      | (st', Some session) \<Rightarrow>
          (dict_set caller_id (completed session) st', Inr (completed session)))"

definition remove_session :: "pystr \<Rightarrow> session_store \<Rightarrow> session_store" where
  "remove_session caller_id st = dict_pop caller_id st"

section \<open>The life of a session\<close>

datatype session_op =
    Create pyfloat pystr pyfloat "pystr option"
  | Lookup pyfloat pystr
  | Complete pyfloat pystr
  | Remove pystr

fun session_step :: "session_op \<Rightarrow> session_store \<Rightarrow> session_store" where
  "session_step (Create now c ttl ch) st = fst (create_session now c ttl ch st)"
| "session_step (Lookup now c) st = fst (get_pending_session now c st)"
| "session_step (Complete now c) st = fst (complete_session now c st)"
| "session_step (Remove c) st = remove_session c st"

text \<open>What each operation shows its caller of a session; a removal and a failed creation show nothing.\<close>

fun session_result :: "session_op \<Rightarrow> session_store \<Rightarrow> login_session option" where
  "session_result (Create now c ttl ch) st = (case snd (create_session now c ttl ch st) of Inr s \<Rightarrow> Some s | Inl _ \<Rightarrow> None)"
| "session_result (Lookup now c) st = snd (get_pending_session now c st)"
| "session_result (Complete now c) st = (case snd (complete_session now c st) of Inr s \<Rightarrow> Some s | Inl _ \<Rightarrow> None)"
| "session_result (Remove c) st = None"

text \<open>
  The specification: a table of the live sessions only, each with its end and its push channel.
  A lookup or completion after the end makes the session vanish, a completion takes it away.
\<close>

type_synonym live = "pystr \<Rightarrow> (pyfloat \<times> pystr option) option"

definition live_now :: "pyfloat \<Rightarrow> pystr \<Rightarrow> live \<Rightarrow> (pyfloat \<times> pystr option) option" where
  "live_now now c l = (case l c of Some (e, ch) \<Rightarrow> if float_le e now then None else Some (e, ch) | None \<Rightarrow> None)"

fun live_step :: "session_op \<Rightarrow> live \<Rightarrow> live" where
  "live_step (Create now c ttl ch) l =
     (if c = [] \<or> float_le ttl (FFin 0 0) then l else l(c \<mapsto> (float_add now ttl, ch)))"
| "live_step (Lookup now c) l = l(c := live_now now c l)"
| "live_step (Complete now c) l = l(c := None)"
| "live_step (Remove c) l = l(c := None)"

fun live_result :: "session_op \<Rightarrow> live \<Rightarrow> (pyfloat \<times> pystr option) option" where
  "live_result (Create now c ttl ch) l =
     (if c = [] \<or> float_le ttl (FFin 0 0) then None else Some (float_add now ttl, ch))"
| "live_result (Lookup now c) l = live_now now c l"
| "live_result (Complete now c) l = live_now now c l"
| "live_result (Remove c) l = None"

definition live_of :: "session_store \<Rightarrow> live" where
  "live_of st c = (case map_of st c of
     Some s \<Rightarrow> if ls_status s = PENDING then Some (ls_expires_at s, ls_push_channel_id s) else None
   | None \<Rightarrow> None)"

lemma live_of_set:
  "live_of (dict_set c s st) =
     (live_of st)(c := if ls_status s = PENDING then Some (ls_expires_at s, ls_push_channel_id s) else None)"
  by (rule ext) (simp add: live_of_def)

lemma live_of_pop: "live_of (dict_pop c st) = (live_of st)(c := None)"
  by (rule ext) (simp add: live_of_def)

lemma get_pending_refines:
  "live_of (fst (get_pending_session now c st)) = (live_of st)(c := live_now now c (live_of st)) \<and>
   map_option (\<lambda>s. (ls_expires_at s, ls_push_channel_id s)) (snd (get_pending_session now c st)) =
     live_now now c (live_of st)"
proof (cases "map_of st c")
  case None
  then have "live_of st c = None" by (simp add: live_of_def)
  with None show ?thesis by (simp add: get_pending_session_def live_now_def fun_upd_idem)
next
  case (Some s)
  show ?thesis
  proof (cases "ls_status s = PENDING")
    case True
    with Some have l: "live_of st c = Some (ls_expires_at s, ls_push_channel_id s)" by (simp add: live_of_def)
    with True Some show ?thesis
      by (auto simp: get_pending_session_def live_now_def is_expired_def live_of_set fun_upd_idem)
  next
    case False
    with Some have "live_of st c = None" by (simp add: live_of_def)
    with False Some show ?thesis by (simp add: get_pending_session_def live_now_def fun_upd_idem)
  qed
qed

lemma complete_refines:
  "live_of (fst (complete_session now c st)) = (live_of st)(c := None) \<and>
   (case snd (complete_session now c st) of
      Inr s \<Rightarrow> live_now now c (live_of st) = Some (ls_expires_at s, ls_push_channel_id s)
    | Inl _ \<Rightarrow> live_now now c (live_of st) = None)"
proof (cases "get_pending_session now c st")
  case (Pair st' r)
  with get_pending_refines [of now c st]
  show ?thesis by (cases r) (auto simp: complete_session_def live_of_set completed_def raise_def)
qed

lemma session_refines:
  "live_of (session_step op st) = live_step op (live_of st) \<and>
   map_option (\<lambda>s. (ls_expires_at s, ls_push_channel_id s)) (session_result op st) = live_result op (live_of st)"
proof (cases op)
  case (Create now c ttl ch)
  then show ?thesis by (auto simp: create_session_def raise_def live_of_set Let_def)
next
  case (Lookup now c)
  then show ?thesis using get_pending_refines [of now c st] by simp
next
  case (Complete now c)
  then show ?thesis using complete_refines [of now c st] by (auto split: sum.splits)
qed (simp add: remove_session_def live_of_pop)

lemma live_of_fold: "live_of (fold session_step ops st) = fold live_step ops (live_of st)"
  by (induction ops arbitrary: st) (simp_all add: session_refines)

lemma live_of_Nil [simp]: "live_of [] = (\<lambda>_. None)"
  by (rule ext) (simp add: live_of_def)

text \<open>Only a creation brings a session of \<open>c\<close> to life.\<close>

definition creates :: "pystr \<Rightarrow> session_op \<Rightarrow> bool" where
  "creates c op \<longleftrightarrow> (\<exists>now ttl ch. op = Create now c ttl ch)"

lemma dead_step: "l c = None \<Longrightarrow> \<not> creates c op \<Longrightarrow> live_step op l c = None"
  by (cases op) (auto simp: creates_def live_now_def)

lemma dead_fold: "l c = None \<Longrightarrow> \<forall>op \<in> set ops. \<not> creates c op \<Longrightarrow> fold live_step ops l c = None"
  by (induction ops arbitrary: l) (simp_all add: dead_step)

text \<open>Every stored session is stored under its own caller id.\<close>

definition wf_sessions :: "session_store \<Rightarrow> bool" where
  "wf_sessions st \<longleftrightarrow> wf_dict st \<and> (\<forall>c s. map_of st c = Some s \<longrightarrow> ls_caller_id s = c \<and> c \<noteq> [])"

lemma wf_sessions_Nil [simp]: "wf_sessions []"
  by (simp add: wf_sessions_def)

lemma wf_sessions_set [simp]:
  "wf_sessions st \<Longrightarrow> ls_caller_id s = c \<Longrightarrow> c \<noteq> [] \<Longrightarrow> wf_sessions (dict_set c s st)"
  by (auto simp: wf_sessions_def)

lemma wf_get_pending:
  assumes "wf_sessions st"
  shows "wf_sessions (fst (get_pending_session now c st))"
    and "snd (get_pending_session now c st) = Some s \<Longrightarrow>
      ls_caller_id s = c \<and> ls_status s = PENDING \<and> \<not> float_le (ls_expires_at s) now"
    and "snd (get_pending_session now c st) = Some s \<Longrightarrow> c \<noteq> [] \<and> fst (get_pending_session now c st) = st"
  using assms
  by (auto simp: get_pending_session_def is_expired_def wf_sessions_def split: option.splits if_splits)

lemma wf_complete:
  assumes "wf_sessions st"
  shows "wf_sessions (fst (complete_session now c st))"
proof (cases "get_pending_session now c st")
  case (Pair st' r)
  with wf_get_pending [OF assms, of now c]
  show ?thesis by (cases r) (auto simp: complete_session_def completed_def)
qed

lemma wf_session_step: "wf_sessions st \<Longrightarrow> wf_sessions (session_step op st)"
proof (cases op)
  case (Remove c)
  moreover assume "wf_sessions st"
  ultimately show ?thesis by (auto simp: wf_sessions_def remove_session_def)
qed (auto simp: create_session_def Let_def wf_get_pending wf_complete)

end
