(* ===== verification/SessionProps.thy ===== *)
theory SessionProps
  imports Sessions
begin

text \<open>The properties of login sessions (\<open>auth/sessions.py\<close>).\<close>

fun results :: "('o \<Rightarrow> 's \<Rightarrow> 's) \<Rightarrow> ('o \<Rightarrow> 's \<Rightarrow> 'r) \<Rightarrow> 'o list \<Rightarrow> 's \<Rightarrow> 'r list" where
  "results step result [] s = []"
| "results step result (op # ops) s = result op s # results step result ops (step op s)"

text \<open>
  C27: the session store is a table of live sessions: whatever the operations and the readings of the
  clock, each lookup, completion and creation shows the end and the push channel that the table of the
  sessions neither completed, removed nor seen expired since their creation shows, and fails when it does.
\<close>

theorem sessions_refine_live_table:
  "map (map_option (\<lambda>s. (ls_expires_at s, ls_push_channel_id s))) (results session_step session_result ops []) =
   results live_step live_result ops (\<lambda>_. None)"
proof -
  have "map (map_option (\<lambda>s. (ls_expires_at s, ls_push_channel_id s))) (results session_step session_result ops st) =
      results live_step live_result ops (live_of st)" for st
    by (induction ops arbitrary: st) (simp_all add: session_refines)
  from this [of "[]"] show ?thesis by simp
qed

text \<open>
  A session is used once: after a completion of \<open>c\<close>, or a lookup that found nothing pending, no
  operation but a creation makes a session of \<open>c\<close> pending again, not even with a clock that runs backwards;
  lookups give nothing and completions raise.
\<close>

theorem session_used_once:
  assumes "complete_session now c st = (st', r) \<or> get_pending_session now c st = (st', None)"
    and "\<forall>op \<in> set ops. \<not> creates c op"
  shows "snd (get_pending_session later c (fold session_step ops st')) = None \<and>
    snd (complete_session later c (fold session_step ops st')) =
      raise LoginSessionError ''login session is not pending''"
proof -
  let ?st = "fold session_step ops st'"
  have "live_of st' c = None"
    using assms(1) complete_refines [of now c st] get_pending_refines [of now c st] by auto
  then have "live_of ?st c = None" using assms(2) by (simp add: live_of_fold dead_fold)
  then have none: "snd (get_pending_session later c ?st) = None"
    using get_pending_refines [of later c ?st] by (simp add: live_now_def)
  then show ?thesis
    by (cases "get_pending_session later c ?st") (simp add: complete_session_def)
qed

theorem session_used_once_witness:
  "snd (get_pending_session (FFin 1 0) (lit ''u'')
     (fold session_step [Lookup (FFin 0 0) (lit ''u''), Remove (lit ''v'')]
       (fst (complete_session (FFin 2 0) (lit ''u'') (fst (create_session (FFin 0 0) (lit ''u'') (FFin 5 0) None [])))))) = None"
  using session_used_once [of "FFin 2 0" "lit ''u''" "fst (create_session (FFin 0 0) (lit ''u'') (FFin 5 0) None [])"
      _ _ "[Lookup (FFin 0 0) (lit ''u''), Remove (lit ''v'')]" "FFin 1 0"]
  by (metis creates_def empty_iff empty_set insert_iff list.simps(15) prod.collapse session_op.distinct(1,5))

end
