(* ===== verification/UrlText.thy ===== *)
theory UrlText
  imports PyText
begin

text \<open>
  The parts of \<open>urllib.parse\<close> and \<open>html\<close> the local authorization server computes with:
  \<open>quote_plus\<close>, \<open>unquote_plus\<close>, \<open>parse_qs\<close>, \<open>urlparse\<close> and \<open>escape\<close>, with the round trip of a
  query parameter.
\<close>

section \<open>UTF-8 with replacement\<close>

text \<open>How many bytes one replacement character stands for: the longest start of a valid sequence.\<close>

definition utf8_bad_length :: "nat list \<Rightarrow> nat" where
  "utf8_bad_length xs =
     (let b = hd xs;
          at = (\<lambda>i lo hi. i < length xs \<and> lo \<le> xs ! i \<and> xs ! i < hi)
      in if 224 \<le> b \<and> b < 240 \<and>
            at 1 (if b = 224 then 160 else 128) (if b = 237 then 160 else 192) then 2
         else if 240 \<le> b \<and> b < 245 \<and>
            at 1 (if b = 240 then 144 else 128) (if b = 244 then 144 else 192)
         then if at 2 128 192 then 3 else 2
         else 1)"

lemma utf8_bad_length_pos: "0 < utf8_bad_length xs"
  by (simp add: utf8_bad_length_def Let_def)

text \<open>\<open>bs.decode("utf-8", "replace")\<close>\<close>

function utf8_decode_replace :: "bytes \<Rightarrow> pystr" where
  "utf8_decode_replace bs =
     (if bs = [] then []
      else case utf8_next bs of
             None \<Rightarrow> 65533 # utf8_decode_replace (drop (utf8_bad_length (map unat (take 4 bs))) bs)
           | Some (c, n) \<Rightarrow> c # utf8_decode_replace (drop n bs))"
  by pat_completeness auto
termination
  by (relation "measure length") (auto dest: utf8_next_pos simp: utf8_bad_length_pos)

declare utf8_decode_replace.simps [simp del]

lemma decode_replace_valid: "utf8_decode bs = Inr s \<Longrightarrow> utf8_decode_replace bs = s"
proof (induction bs arbitrary: s rule: utf8_decode.induct)
  case (1 bs)
  show ?case
  proof (cases "bs = []")
    case True
    with 1 show ?thesis by (simp add: utf8_decode_replace.simps)
  next
    case False
    with "1.prems" obtain c n cs where "utf8_next bs = Some (c, n)" "utf8_decode (drop n bs) = Inr cs" "s = c # cs"
      by (subst (asm) utf8_decode.simps) (auto simp: rbind_eq_Inr split: option.splits)
    with 1(1) False show ?thesis by (subst utf8_decode_replace.simps) simp
  qed
qed

lemma decode_replace_encode: "utf8_encode s = Inr bs \<Longrightarrow> utf8_decode_replace bs = s"
  by (simp add: decode_replace_valid utf8.dec_enc)

section \<open>Percent encoding\<close>

definition url_safe :: "nat \<Rightarrow> bool" where
  "url_safe c \<longleftrightarrow> (65 \<le> c \<and> c \<le> 90) \<or> (97 \<le> c \<and> c \<le> 122) \<or> (48 \<le> c \<and> c \<le> 57) \<or> c \<in> {45, 46, 95, 126}"

definition hex_upper :: "nat \<Rightarrow> nat" where
  "hex_upper d = (if d < 10 then 48 + d else 55 + d)"

definition quote_byte :: "8 word \<Rightarrow> pystr" where
  "quote_byte b =
     (let c = unat b in if url_safe c then [c] else if c = 32 then [43]
      else [37, hex_upper (c div 16), hex_upper (c mod 16)])"

definition quote_plus :: "pystr \<Rightarrow> py_exn + pystr" where
  "quote_plus s = rbind (utf8_encode s) (\<lambda>bs. Inr (concat (map quote_byte bs)))"

definition hex_val :: "nat \<Rightarrow> nat option" where
  "hex_val c =
     (if 48 \<le> c \<and> c \<le> 57 then Some (c - 48) else if 65 \<le> c \<and> c \<le> 70 then Some (c - 55)
      else if 97 \<le> c \<and> c \<le> 102 then Some (c - 87) else None)"

text \<open>\<open>unquote_to_bytes\<close> of an ASCII text\<close>

fun unquote_to_bytes :: "pystr \<Rightarrow> bytes" where
  "unquote_to_bytes (c # a # b # cs) =
     (case (hex_val a, hex_val b) of
        (Some x, Some y) \<Rightarrow>
          if c = 37 then of_nat (16 * x + y) # unquote_to_bytes cs
          else of_nat c # unquote_to_bytes (a # b # cs)
      | _ \<Rightarrow> of_nat c # unquote_to_bytes (a # b # cs))"
| "unquote_to_bytes cs = map of_nat cs"

function unquote_runs :: "pystr \<Rightarrow> pystr" where
  "unquote_runs s =
     (if s = [] then []
      else if hd s < 128
      then utf8_decode_replace (unquote_to_bytes (takeWhile (\<lambda>c. c < 128) s)) @
           unquote_runs (dropWhile (\<lambda>c. c < 128) s)
      else hd s # unquote_runs (tl s))"
  by pat_completeness auto
termination
proof (relation "measure length")
  fix s :: pystr
  assume "s \<noteq> []" "hd s < 128"
  then have "dropWhile (\<lambda>c. c < 128) s = dropWhile (\<lambda>c. c < 128) (tl s)" by (cases s) auto
  moreover have "length (dropWhile (\<lambda>c. c < 128) (tl s)) \<le> length (tl s)" by (rule length_dropWhile_le)
  ultimately show "(dropWhile (\<lambda>c. c < 128) s, s) \<in> measure length"
    using \<open>s \<noteq> []\<close> by (cases s) auto
qed auto

declare unquote_runs.simps [simp del]

definition unquote :: "pystr \<Rightarrow> pystr" where
  "unquote s = (if 37 \<notin> set s then s else unquote_runs s)"

definition unquote_plus :: "pystr \<Rightarrow> pystr" where
  "unquote_plus s = unquote (map (\<lambda>c. if c = 43 then 32 else c) s)"

section \<open>Query strings\<close>

text \<open>\<open>s.split(sep)\<close> for a separator of one character\<close>

fun split_on :: "nat \<Rightarrow> pystr \<Rightarrow> pystr list" where
  "split_on sep [] = [[]]"
| "split_on sep (c # cs) =
     (if c = sep then [] # split_on sep cs
      else case split_on sep cs of [] \<Rightarrow> [[c]] | p # ps \<Rightarrow> (c # p) # ps)"

text \<open>\<open>s.partition(sep)\<close>, without the separator\<close>

definition partition_at :: "nat \<Rightarrow> pystr \<Rightarrow> pystr \<times> pystr" where
  "partition_at sep s =
     (takeWhile (\<lambda>c. c \<noteq> sep) s, tl (dropWhile (\<lambda>c. c \<noteq> sep) s))"

definition parse_qsl :: "pystr \<Rightarrow> (pystr \<times> pystr) list" where
  "parse_qsl qs =
     map (\<lambda>(n, v). (unquote_plus n, unquote_plus v))
       (filter (\<lambda>(n, v). v \<noteq> []) (map (partition_at 61) (filter (\<lambda>nv. nv \<noteq> []) (split_on 38 qs))))"

definition parse_qs :: "pystr \<Rightarrow> (pystr \<times> pystr list) list" where
  "parse_qs qs = foldl (\<lambda>d (n, v). dict_set n (dict_get d n [] @ [v]) d) [] (parse_qsl qs)"

text \<open>\<open>urlencode({key: value})\<close>\<close>

definition urlencode1 :: "pystr \<Rightarrow> pystr \<Rightarrow> py_exn + pystr" where
  "urlencode1 k v = rbind (quote_plus k) (\<lambda>k'. rbind (quote_plus v) (\<lambda>v'. Inr (k' @ 61 # v')))"

section \<open>URLs\<close>

definition scheme_char :: "nat \<Rightarrow> bool" where
  "scheme_char c \<longleftrightarrow> (65 \<le> c \<and> c \<le> 90) \<or> (97 \<le> c \<and> c \<le> 122) \<or> (48 \<le> c \<and> c \<le> 57) \<or> c \<in> {43, 45, 46}"

definition uses_params :: "pystr list" where
  "uses_params = map lit ['''', ''ftp'', ''hdl'', ''prospero'', ''http'', ''imap'', ''https'', ''shttp'',
     ''rtsp'', ''rtsps'', ''rtspu'', ''sip'', ''sips'', ''mms'', ''sftp'', ''tel'']"

definition split_scheme :: "pystr \<Rightarrow> pystr \<times> pystr" where
  "split_scheme url =
     (let s = takeWhile (\<lambda>c. c \<noteq> 58) url
      in if 58 \<in> set url \<and> s \<noteq> [] \<and> (65 \<le> hd s \<and> hd s \<le> 90 \<or> 97 \<le> hd s \<and> hd s \<le> 122) \<and> list_all scheme_char s
         then (map (\<lambda>c. if 65 \<le> c \<and> c \<le> 90 then c + 32 else c) s, drop (Suc (length s)) url)
         else ([], url))"

text \<open>The part before the first \<open>sep\<close>, and the part after it (none without a \<open>sep\<close>).\<close>

definition split_params :: "pystr \<Rightarrow> pystr" where
  "split_params url =
     (let last = rev (takeWhile (\<lambda>c. c \<noteq> 47) (rev url));
          front = take (length url - length last) url
      in front @ takeWhile (\<lambda>c. c \<noteq> 59) last)"

text \<open>
  \<open>urlparse(url)\<close>, its path and query.  \<open>check_netloc\<close> is the library's check of the host part
  (brackets, IP addresses, Unicode normalisation) of an absolute URL.
\<close>

definition urlparse :: "(pystr \<Rightarrow> py_exn + unit) \<Rightarrow> pystr \<Rightarrow> py_exn + (pystr \<times> pystr)" where
  "urlparse check_netloc url =
     (let url = filter (\<lambda>c. c \<notin> {9, 10, 13}) (dropWhile (\<lambda>c. c \<le> 32) url);
          (scheme, url) = split_scheme url;
          (netloc, url) = (if take 2 url = [47, 47]
                           then (takeWhile (\<lambda>c. c \<notin> {47, 63, 35}) (drop 2 url),
                                 dropWhile (\<lambda>c. c \<notin> {47, 63, 35}) (drop 2 url))
                           else ([], url));
          url = fst (partition_at 35 url);
          (path, query) = partition_at 63 url
      in rbind (if netloc = [] then Inr () else check_netloc netloc) (\<lambda>_.
         Inr (if scheme \<in> set uses_params then split_params path else path, query)))"

section \<open>HTML\<close>

definition escape_char :: "nat \<Rightarrow> pystr" where
  "escape_char c =
     (if c = 38 then lit ''&amp;'' else if c = 60 then lit ''&lt;'' else if c = 62 then lit ''&gt;''
      else if c = 34 then lit ''&quot;'' else if c = 39 then lit ''&#x27;'' else [c])"

text \<open>\<open>html.escape(s)\<close>: the ampersands are replaced first, so no replacement meets another.\<close>

definition html_escape :: "pystr \<Rightarrow> pystr" where
  "html_escape s = concat (map escape_char s)"

section \<open>Round trip of a query parameter\<close>

lemma unquote_plain [simp]: "c \<noteq> 37 \<Longrightarrow> unquote_to_bytes (c # cs) = of_nat c # unquote_to_bytes cs"
proof (cases cs)
  case (Cons a ds)
  assume "c \<noteq> 37"
  with Cons show ?thesis by (cases ds) (simp_all split: option.split)
qed simp

lemma hex_val_upper [simp]: "d < 16 \<Longrightarrow> hex_val (hex_upper d) = Some d"
  by (simp add: hex_val_def hex_upper_def)

lemma hex_upper_range: "d < 16 \<Longrightarrow> hex_upper d \<in> {48..57} \<union> {65..70}"
  by (simp add: hex_upper_def)

abbreviation spaces :: "pystr \<Rightarrow> pystr" where
  "spaces s \<equiv> map (\<lambda>c. if c = 43 then 32 else c) s"

lemma unquote_quote_byte: "unquote_to_bytes (spaces (quote_byte b) @ s) = b # unquote_to_bytes s"
proof -
  have u: "unat b < 256" by simp
  then have parts: "unat b div 16 < 16" "unat b mod 16 < 16" by (simp_all add: less_mult_imp_div_less)
  consider "url_safe (unat b)" | "unat b = 32" "\<not> url_safe (unat b)" | "\<not> url_safe (unat b)" "unat b \<noteq> 32" by blast
  then show ?thesis
  proof cases
    case 1
    then have "unat b \<noteq> 37" "unat b \<noteq> 43" by (auto simp: url_safe_def)
    with 1 show ?thesis by (simp add: quote_byte_def Let_def)
  next
    case 2
    then have "b = 32" by (simp add: word_unat_eq_iff)
    with 2 show ?thesis by (simp add: quote_byte_def Let_def)
  next
    case 3
    have "hex_upper (unat b div 16) \<noteq> 43" "hex_upper (unat b mod 16) \<noteq> 43"
      using parts [THEN hex_upper_range] by auto
    moreover have "of_nat (16 * (unat b div 16) + unat b mod 16) = b" by (simp only: mult_div_mod_eq) simp
    ultimately show ?thesis using 3 parts by (simp add: quote_byte_def Let_def)
  qed
qed

lemma unquote_quoted: "unquote_to_bytes (spaces (concat (map quote_byte bs))) = bs"
  by (induction bs) (simp_all add: unquote_quote_byte)

lemma quote_byte_chars:
  assumes "c \<in> set (quote_byte b)"
  shows "c < 128 \<and> c \<noteq> 38 \<and> c \<noteq> 61 \<and> c \<noteq> 63 \<and> c \<noteq> 35 \<and> 32 < c \<and> c \<noteq> 58 \<and> c \<noteq> 47"
proof -
  have u: "unat b < 256" by simp
  then have "unat b div 16 < 16" "unat b mod 16 < 16" by (simp_all add: less_mult_imp_div_less)
  note hex = this [THEN hex_upper_range]
  from assms consider "c = unat b" "url_safe c" | "c = 43" | "c = 37"
    | "c = hex_upper (unat b div 16)" | "c = hex_upper (unat b mod 16)"
    by (auto simp: quote_byte_def Let_def split: if_splits)
  then show ?thesis
  proof cases
    case 1
    then show ?thesis by (auto simp: url_safe_def)
  next
    case 4
    with hex(1) show ?thesis by auto
  next
    case 5
    with hex(2) show ?thesis by auto
  qed simp_all
qed

lemma quote_plus_chars:
  assumes "quote_plus s = Inr q" "c \<in> set q"
  shows "c < 128 \<and> c \<noteq> 38 \<and> c \<noteq> 61 \<and> c \<noteq> 63 \<and> c \<noteq> 35 \<and> 32 < c \<and> c \<noteq> 58 \<and> c \<noteq> 47"
  using assms quote_byte_chars by (fastforce simp: quote_plus_def rbind_eq_Inr)

lemma unquote_runs_ascii:
  assumes "\<forall>c \<in> set s. c < 128" "s \<noteq> []"
  shows "unquote_runs s = utf8_decode_replace (unquote_to_bytes s)"
proof -
  have t: "takeWhile (\<lambda>c. c < 128) s = s" using assms(1) by (simp add: takeWhile_eq_all_conv)
  have d: "dropWhile (\<lambda>c. c < 128) s = []" "hd s < 128" using assms by simp_all
  show ?thesis
    using assms(2) by (simp add: unquote_runs.simps [of s] t d unquote_runs.simps [of "[]"])
qed

lemma unquote_ascii:
  assumes "\<forall>c \<in> set s. c < 128"
  shows "unquote s = utf8_decode_replace (unquote_to_bytes s)"
proof (cases "37 \<in> set s")
  case True
  then have "s \<noteq> []" by auto
  with True show ?thesis by (simp add: unquote_def unquote_runs_ascii [OF assms])
next
  case False
  then have "unquote_to_bytes s = map of_nat s" by (induction s) auto
  with False assms show ?thesis by (simp add: unquote_def decode_replace_encode [OF utf8_encode_ascii])
qed

lemma unquote_quote_plus:
  assumes "quote_plus s = Inr q"
  shows "unquote_plus q = s"
proof -
  from assms obtain bs where bs: "utf8_encode s = Inr bs" "q = concat (map quote_byte bs)"
    by (auto simp: quote_plus_def rbind_eq_Inr)
  have "\<forall>c \<in> set (spaces q). c < 128" using quote_plus_chars [OF assms] by auto
  from unquote_ascii [OF this] bs show ?thesis
    by (simp add: unquote_plus_def unquote_quoted decode_replace_encode)
qed

lemma quote_plus_Nil_iff: "quote_plus s = Inr q \<Longrightarrow> q = [] \<longleftrightarrow> s = []"
proof
  assume "quote_plus s = Inr q" "q = []"
  with unquote_quote_plus [of s q] show "s = []" by (simp add: unquote_plus_def unquote_def)
qed (simp add: quote_plus_def)

interpretation query_text: codec quote_plus "\<lambda>q. Inr (unquote_plus q)"
  by unfold_locales (simp add: unquote_quote_plus)

lemma split_on_absent: "sep \<notin> set s \<Longrightarrow> split_on sep s = [s]"
  by (induction s) auto

lemma partition_at_sep: "sep \<notin> set a \<Longrightarrow> partition_at sep (a @ sep # b) = (a, b)"
  by (induction a) (auto simp: partition_at_def)

lemma partition_at_absent: "sep \<notin> set a \<Longrightarrow> partition_at sep a = (a, [])"
proof -
  assume "sep \<notin> set a"
  then have "\<forall>c \<in> set a. c \<noteq> sep" by blast
  then have "takeWhile (\<lambda>c. c \<noteq> sep) a = a" "dropWhile (\<lambda>c. c \<noteq> sep) a = []"
    by (simp_all only: takeWhile_eq_all_conv dropWhile_eq_Nil_conv)
  then show ?thesis by (simp only: partition_at_def list.sel)
qed

lemma urlencode1_InrD:
  assumes "urlencode1 k v = Inr q"
  obtains k' v' where "quote_plus k = Inr k'" "quote_plus v = Inr v'" "q = k' @ 61 # v'"
  using assms by (auto simp: urlencode1_def rbind_eq_Inr)

lemma parse_urlencode1:
  assumes "urlencode1 k v = Inr q" "v \<noteq> []"
  shows "parse_qs q = [(k, [v])]"
proof -
  obtain k' v' where q: "quote_plus k = Inr k'" "quote_plus v = Inr v'" "q = k' @ 61 # v'"
    using assms(1) by (rule urlencode1_InrD)
  have "38 \<notin> set q" "61 \<notin> set k'"
    using quote_plus_chars [OF q(1)] quote_plus_chars [OF q(2)] q(3) by auto
  then have "parse_qsl q = [(unquote_plus k', unquote_plus v')]"
    using q(3) assms(2) quote_plus_Nil_iff [OF q(2)]
    by (simp add: parse_qsl_def split_on_absent partition_at_sep)
  then show ?thesis
    by (simp add: parse_qs_def unquote_quote_plus [OF q(1)] unquote_quote_plus [OF q(2)] dict_set_def)
qed

section \<open>Escaped text carries no markup\<close>

definition markup :: "nat \<Rightarrow> bool" where
  "markup c \<longleftrightarrow> c \<in> {60, 62, 34, 39}"

lemma escape_char_markup: "\<forall>c \<in> set (escape_char x). \<not> markup c"
  by (simp add: escape_char_def markup_def lit_Cons)

lemma html_escape_markup: "filter markup (html_escape s) = []"
  using escape_char_markup by (auto simp: html_escape_def filter_empty_conv)

end
