(* ===== verification/LocalAuth.thy ===== *)
theory LocalAuth
  imports ApiKey Sessions UrlText
begin

text \<open>
  \<open>src/rpcproxy/auth/local_authorization.py\<close>: the HTTP server on the callee's machine through which
  its user confirms that a caller gets an API key.  Listening, threads and the sockets are the
  library's; what \<open>start\<close> and \<open>stop\<close> do to the server object and what a request makes of the state and
  answers is modelled.
\<close>

section \<open>Configuration and URLs\<close>

record local_authorization_server_config =
  lc_host :: pystr
  lc_port :: int
  lc_authorize_path :: pystr
  lc_confirm_path :: pystr
  lc_health_path :: pystr

definition default_config :: local_authorization_server_config where
  "default_config =
     \<lparr>lc_host = lit ''127.0.0.1'', lc_port = 17653, lc_authorize_path = lit ''/authorize'',
      lc_confirm_path = lit ''/authorize/confirm'', lc_health_path = lit ''/healthz''\<rparr>"

definition build_authorization_url :: "pystr \<Rightarrow> pystr \<Rightarrow> py_exn + pystr" where
  "build_authorization_url base_url caller_id =
     (let separator = (if 63 \<in> set base_url then lit ''&'' else lit ''?'')
      in rbind (urlencode1 (lit ''state'') caller_id) (\<lambda>q. Inr (base_url @ separator @ q)))"

text \<open>The server object: its configuration, the address it listens on, whether it has a thread.\<close>

record local_server =
  sv_config :: local_authorization_server_config
  sv_httpd :: "(pystr \<times> int) option"
  sv_thread :: bool

definition new_local_server :: "local_authorization_server_config option \<Rightarrow> local_server" where
  "new_local_server config =
     \<lparr>sv_config = (case config of None \<Rightarrow> default_config | Some c \<Rightarrow> c), sv_httpd = None, sv_thread = False\<rparr>"

definition server_url :: "local_server \<Rightarrow> pystr" where
  "server_url sv =
     (case sv_httpd sv of
        Some (host, port) \<Rightarrow> lit ''http://'' @ host @ lit '':'' @ show_int port
      | None \<Rightarrow> lit ''http://'' @ lc_host (sv_config sv) @ lit '':'' @ show_int (lc_port (sv_config sv)))"

definition authorization_url :: "local_server \<Rightarrow> pystr \<Rightarrow> py_exn + pystr" where
  "authorization_url sv caller_id =
     build_authorization_url (server_url sv @ lc_authorize_path (sv_config sv)) caller_id"

text \<open>\<open>bound\<close> is what \<open>ThreadingHTTPServer(address, Handler)\<close> does: it raises or listens on an address.\<close>

definition start :: "py_exn + (pystr \<times> int) \<Rightarrow> local_server \<Rightarrow> local_server \<times> (py_exn + unit)" where
  "start bound sv =
     (if sv_httpd sv \<noteq> None
      then (sv, raise LocalAuthorizationServerError ''local authorization server is running'')
      else case bound of
        Inl e \<Rightarrow>
          (sv, if exn_class e = OSError
               then Inl (Exn LocalAuthorizationServerError
                      (lit ''failed to bind local authorization server: '' @ exn_msg e))
               else Inl e)
      | Inr address \<Rightarrow> (sv\<lparr>sv_httpd := Some address, sv_thread := True\<rparr>, Inr ()))"

datatype server_call = Shutdown | ServerClose | JoinThread

definition stop :: "local_server \<Rightarrow> local_server \<times> server_call list" where
  "stop sv =
     (sv\<lparr>sv_httpd := None, sv_thread := False\<rparr>,
      (if sv_httpd sv \<noteq> None then [Shutdown, ServerClose] else []) @
      (if sv_thread sv then [JoinThread] else []))"

section \<open>Confirmation\<close>

text \<open>
  The state a confirmation works on: the login sessions, the issuer's record store, and the calls of
  the push callback so far, with the caller id, the API key and the session they were given.
\<close>

record 's auth_state =
  au_sessions :: session_store
  au_records :: 's
  au_pushed :: "(pystr \<times> pystr \<times> login_session) list"

text \<open>What the server is built with: the issuer's callee id and record store, the push callback.\<close>

record 's auth_env =
  ae_lib :: pylib
  ae_callee :: pystr
  ae_save :: "api_key_record \<Rightarrow> 's \<Rightarrow> 's"
  ae_push :: "pystr \<Rightarrow> pystr \<Rightarrow> login_session \<Rightarrow> py_exn + unit"

text \<open>What the outside says during one confirmation: the clocks and the random tokens.\<close>

record confirm_inputs =
  in_resolve_time :: pyfloat
  in_issue_time :: pyfloat
  in_complete_time :: pyfloat
  in_key :: pystr
  in_secret :: pystr

definition resolve_pending_session ::
    "pyfloat \<Rightarrow> pystr \<Rightarrow> session_store \<Rightarrow> session_store \<times> (py_exn + login_session)" where
  "resolve_pending_session now caller_id ss =
     (case get_pending_session now caller_id ss of
        (ss', None) \<Rightarrow> (ss', raise LocalAuthorizationError ''login session is missing or expired'')
      | (ss', Some session) \<Rightarrow> (ss', Inr session))"

definition confirm_authorization ::
    "'s auth_env \<Rightarrow> confirm_inputs \<Rightarrow> pystr \<Rightarrow> 's auth_state \<Rightarrow> 's auth_state \<times> (py_exn + unit)" where
  "confirm_authorization E inp caller_id st =
     (case resolve_pending_session (in_resolve_time inp) caller_id (au_sessions st) of
        (ss, Inl e) \<Rightarrow> (st\<lparr>au_sessions := ss\<rparr>, Inl e)
      | (ss, Inr session) \<Rightarrow>
          let st = st\<lparr>au_sessions := ss\<rparr>
          in (case issue_api_key (ae_lib E) (ae_save E) (ae_callee E) (in_key inp) (in_secret inp)
                     (in_issue_time inp) (au_records st) of
                (recs, Inl e) \<Rightarrow> (st\<lparr>au_records := recs\<rparr>, Inl e)
              | (recs, Inr issue) \<Rightarrow>
                  let st = st\<lparr>au_records := recs, au_pushed := au_pushed st @ [(caller_id, ki_api_key issue, session)]\<rparr>
                  in (case ae_push E caller_id (ki_api_key issue) session of
                        Inl e \<Rightarrow> (st, Inl e)
                      | Inr _ \<Rightarrow>
                          (case complete_session (in_complete_time inp) caller_id (au_sessions st) of
                             (ss, Inl e) \<Rightarrow>
                               (st\<lparr>au_sessions := ss\<rparr>,
                                if exn_class e = LoginSessionError
                                then raise LocalAuthorizationError ''login session could not be completed''
                                else Inl e)
                           | (ss, Inr _) \<Rightarrow> (st\<lparr>au_sessions := ss\<rparr>, Inr ())))))"

section \<open>Pages\<close>

definition authorization_page :: "login_session \<Rightarrow> local_authorization_server_config \<Rightarrow> pystr" where
  "authorization_page session config =
     (let state = html_escape (ls_caller_id session);
          action = html_escape (lc_confirm_path config);
          channel = html_escape (case ls_push_channel_id session of None \<Rightarrow> lit ''anonymous''
                                 | Some ch \<Rightarrow> if ch = [] then lit ''anonymous'' else ch)
      in
     lit ''<!doctype html>'' @ [10] @ lit ''<html lang=\"zh-CN\">'' @ [10] @ lit ''<head>'' @
     [10] @ lit ''  <meta charset=\"utf-8\">'' @ [10] @
     lit ''  <title>rpcproxy authorization</title>'' @ [10] @ lit ''</head>'' @ [10] @
     lit ''<body>'' @ [10] @ lit ''  <h1>'' @ [25480, 26435] @ lit '' rpcproxy Caller</h1>'' @
     [10] @ lit ''  <p>'' @ [30331, 24405, 20250, 35805] @ lit '': <code>'' @ state @
     lit ''</code></p>'' @ [10] @ lit ''  <p>'' @ [25512, 36865, 36890, 36947] @
     lit '': <code>'' @ channel @ lit ''</code></p>'' @ [10] @
     lit ''  <form method=\"post\" action=\"'' @ action @ lit ''\">'' @ [10] @
     lit ''    <input type=\"hidden\" name=\"state\" value=\"'' @ state @ lit ''\">'' @ [10] @
     lit ''    <button type=\"submit\">'' @ [30830, 35748, 25480, 26435] @ lit ''</button>'' @
     [10] @ lit ''  </form>'' @ [10] @ lit ''</body>'' @ [10] @ lit ''</html>'' @ [10])"

definition success_page :: pystr where
  "success_page =
     lit ''<!doctype html>'' @ [10] @ lit ''<html lang=\"zh-CN\">'' @ [10] @
     lit ''<head><meta charset=\"utf-8\"><title>rpcproxy authorized</title></head>'' @ [10] @
     lit ''<body><h1>'' @ [25480, 26435, 23436, 25104] @ lit ''</h1><p>API Key '' @
     [24050, 21457, 36865, 32473] @ lit '' Caller'' @ [12290] @ lit ''</p></body>'' @ [10] @
     lit ''</html>'' @ [10]"

definition error_page :: "pystr \<Rightarrow> pystr" where
  "error_page message =
     (let safe = html_escape message in
     lit ''<!doctype html>'' @ [10] @ lit ''<html lang=\"zh-CN\">'' @ [10] @
     lit ''<head><meta charset=\"utf-8\"><title>rpcproxy authorization failed</title></head>'' @
     [10] @ lit ''<body><h1>'' @ [25480, 26435, 22833, 36133] @ lit ''</h1><p>'' @ safe @
     lit ''</p></body>'' @ [10] @ lit ''</html>'' @ [10])"

section \<open>Requests\<close>

text \<open>\<open>except LocalAuthorizationError\<close> also catches its subclass.\<close>

definition is_local_authorization_error :: "py_exn \<Rightarrow> bool" where
  "is_local_authorization_error e \<longleftrightarrow> exn_class e \<in> {LocalAuthorizationError, LocalAuthorizationServerError}"

text \<open>
  A request: its target, its \<open>Content-Length\<close> header, and the bytes the client sends after the headers
  before it closes its side.  A response: its status, its headers and its body.
\<close>

record http_request =
  hq_path :: pystr
  hq_content_length :: "pystr option"
  hq_input :: bytes

record http_response =
  hr_status :: nat
  hr_headers :: "(pystr \<times> pystr) list"
  hr_body :: bytes

definition send_bytes :: "nat \<Rightarrow> bytes \<Rightarrow> pystr \<Rightarrow> http_response" where
  "send_bytes status body content_type =
     \<lparr>hr_status = status,
      hr_headers = [(lit ''Content-Type'', content_type), (lit ''Content-Length'', show_nat (length body)),
                    (lit ''Cache-Control'', lit ''no-store'')],
      hr_body = body\<rparr>"

definition send_text :: "nat \<Rightarrow> pystr \<Rightarrow> py_exn + http_response" where
  "send_text status body =
     rbind (utf8_encode body) (\<lambda>bs. Inr (send_bytes status bs (lit ''text/plain; charset=utf-8'')))"

definition send_html :: "nat \<Rightarrow> pystr \<Rightarrow> py_exn + http_response" where
  "send_html status body =
     rbind (utf8_encode body) (\<lambda>bs. Inr (send_bytes status bs (lit ''text/html; charset=utf-8'')))"

definition first_value :: "(pystr \<times> pystr list) list \<Rightarrow> pystr \<Rightarrow> pystr" where
  "first_value values key = (case dict_get values key [] of [] \<Rightarrow> [] | v # _ \<Rightarrow> v)"

definition handle_authorize_get ::
    "local_authorization_server_config \<Rightarrow> pyfloat \<Rightarrow> pystr \<Rightarrow> 's auth_state \<Rightarrow>
     's auth_state \<times> (py_exn + http_response)" where
  "handle_authorize_get config now query st =
     (let state = first_value (parse_qs query) (lit ''state'')
      in if state = [] then (st, send_text 400 (lit ''missing state''))
         else case resolve_pending_session now state (au_sessions st) of
           (ss, Inl e) \<Rightarrow>
             (st\<lparr>au_sessions := ss\<rparr>,
              if is_local_authorization_error e then send_html 400 (error_page (exn_msg e)) else Inl e)
         | (ss, Inr session) \<Rightarrow> (st\<lparr>au_sessions := ss\<rparr>, send_html 200 (authorization_page session config)))"

text \<open>
  A handler that raises sends no response.  \<open>now\<close> is the reading of the session clock, \<open>check_netloc\<close>
  the parameter of \<open>urlparse\<close>.
\<close>

definition do_GET ::
    "(pystr \<Rightarrow> py_exn + unit) \<Rightarrow> local_authorization_server_config \<Rightarrow> pyfloat \<Rightarrow> http_request \<Rightarrow> 's auth_state \<Rightarrow>
     's auth_state \<times> (py_exn + http_response)" where
  "do_GET check_netloc config now req st =
     (case urlparse check_netloc (hq_path req) of
        Inl e \<Rightarrow> (st, Inl e)
      | Inr (path, query) \<Rightarrow>
          if path = lc_health_path config then (st, send_text 200 (lit ''ok''))
          else if path = lc_authorize_path config then handle_authorize_get config now query st
          else (st, send_text 404 (lit ''not found'')))"

text \<open>\<open>rfile.read(n)\<close>: a negative count reads up to the end.\<close>

definition read_input :: "int \<Rightarrow> bytes \<Rightarrow> bytes" where
  "read_input n input = (if n < 0 then input else take (nat n) input)"

definition read_body :: "http_request \<Rightarrow> py_exn + pystr" where
  "read_body req =
     rbind (py_int (case hq_content_length req of None \<Rightarrow> lit ''0'' | Some v \<Rightarrow> if v = [] then lit ''0'' else v))
       (\<lambda>n. utf8_decode (read_input n (hq_input req)))"

definition do_POST ::
    "(pystr \<Rightarrow> py_exn + unit) \<Rightarrow> local_authorization_server_config \<Rightarrow> 's auth_env \<Rightarrow> confirm_inputs \<Rightarrow> http_request \<Rightarrow>
     's auth_state \<Rightarrow> 's auth_state \<times> (py_exn + http_response)" where
  "do_POST check_netloc config E inp req st =
     (case urlparse check_netloc (hq_path req) of
        Inl e \<Rightarrow> (st, Inl e)
      | Inr (path, _) \<Rightarrow>
          if path \<noteq> lc_confirm_path config then (st, send_text 404 (lit ''not found''))
          else (case read_body req of
            Inl e \<Rightarrow> (st, Inl e)
          | Inr body \<Rightarrow>
              let state = first_value (parse_qs body) (lit ''state'')
              in if state = [] then (st, send_text 400 (lit ''missing state''))
                 else (case confirm_authorization E inp state st of
                   (st', Inl e) \<Rightarrow>
                     (st', if is_local_authorization_error e then send_html 400 (error_page (exn_msg e))
                           else if is_exception e then send_html 500 (error_page (lit ''failed to push api key''))
                           else Inl e)
                 | (st', Inr _) \<Rightarrow> (st', send_html 200 success_page))))"

end
