(* ===== verification/LocalAuthFacts.thy ===== *)
theory LocalAuthFacts
  imports LocalAuth ApiKeyFacts
begin

text \<open>
  Lemmas on the local authorization server: which requests reach the confirmation, what a
  confirmation does to the sessions and the pushed keys, the server as a sequence of operations, and a
  confirmation cut into the steps at which the threads of two requests can meet.
\<close>

section \<open>A confirmation\<close>

lemma resolve_cases:
  obtains (gone) ss where "resolve_pending_session now c sess = (ss, raise LocalAuthorizationError ''login session is missing or expired'')"
      "get_pending_session now c sess = (ss, None)"
  | (pending) s where "resolve_pending_session now c sess = (sess, Inr s)" "get_pending_session now c sess = (sess, Some s)"
proof (cases "get_pending_session now c sess")
  case (Pair ss r)
  show thesis
  proof (cases r)
    case None
    with Pair show thesis by (intro gone [of ss]) (simp_all add: resolve_pending_session_def)
  next
    case (Some s)
    with Pair have "ss = sess" by (auto simp: get_pending_session_def split: option.splits if_splits)
    with Pair Some show thesis by (intro pending [of s]) (simp_all add: resolve_pending_session_def)
  qed
qed

text \<open>Everything a confirmation can do, as seen from outside.\<close>

lemma confirm_cases:
  obtains (refused) ss where "confirm_authorization E inp c st =
        (st\<lparr>au_sessions := ss\<rparr>, raise LocalAuthorizationError ''login session is missing or expired'')"
      "get_pending_session (in_resolve_time inp) c (au_sessions st) = (ss, None)"
  | (unissued) s e where "confirm_authorization E inp c st = (st, Inl e)"
      "get_pending_session (in_resolve_time inp) c (au_sessions st) = (au_sessions st, Some s)"
  | (unsent) s recs i e where "confirm_authorization E inp c st =
        (st\<lparr>au_records := recs, au_pushed := au_pushed st @ [(c, ki_api_key i, s)]\<rparr>, Inl e)"
      "get_pending_session (in_resolve_time inp) c (au_sessions st) = (au_sessions st, Some s)"
      "issue_api_key (ae_lib E) (ae_save E) (ae_callee E) (in_key inp) (in_secret inp) (in_issue_time inp)
         (au_records st) = (recs, Inr i)"
      "ae_push E c (ki_api_key i) s = Inl e"
  | (sent) s recs i ss r where "confirm_authorization E inp c st =
        (st\<lparr>au_records := recs, au_pushed := au_pushed st @ [(c, ki_api_key i, s)], au_sessions := ss\<rparr>,
         case r of Inr _ \<Rightarrow> Inr () | Inl _ \<Rightarrow> raise LocalAuthorizationError ''login session could not be completed'')"
      "get_pending_session (in_resolve_time inp) c (au_sessions st) = (au_sessions st, Some s)"
      "issue_api_key (ae_lib E) (ae_save E) (ae_callee E) (in_key inp) (in_secret inp) (in_issue_time inp)
         (au_records st) = (recs, Inr i)"
      "ae_push E c (ki_api_key i) s = Inr ()"
      "complete_session (in_complete_time inp) c (au_sessions st) = (ss, r)"
proof (cases "in_resolve_time inp" c "au_sessions st" rule: resolve_cases)
  case (gone ss)
  then show thesis by (intro refused) (auto simp: confirm_authorization_def raise_def)
next
  case (pending s)
  obtain recs iss where issue: "issue_api_key (ae_lib E) (ae_save E) (ae_callee E) (in_key inp) (in_secret inp)
      (in_issue_time inp) (au_records st) = (recs, iss)" by fastforce
  show thesis
  proof (cases iss)
    case (Inl e)
    with issue have "recs = au_records st" by (auto dest: issue_api_key_Inl)
    with pending issue Inl show thesis by (intro unissued) (simp_all add: confirm_authorization_def)
  next
    case (Inr i)
    show thesis
    proof (cases "ae_push E c (ki_api_key i) s")
      case (Inl e)
      with pending issue Inr show thesis by (intro unsent) (simp_all add: confirm_authorization_def)
    next
      case push: (Inr u)
      obtain ss r where r: "complete_session (in_complete_time inp) c (au_sessions st) = (ss, r)" by fastforce
      then have "r = Inl e \<Longrightarrow> e = Exn LoginSessionError (lit ''login session is not pending'')" for e
        by (auto simp: complete_session_def raise_def split: prod.splits option.splits)
      with pending issue Inr push r show thesis
        by (intro sent) (auto simp: confirm_authorization_def split: sum.splits)
    qed
  qed
qed

section \<open>Requests\<close>

definition posted_state :: "http_request \<Rightarrow> pystr option" where
  "posted_state req =
     (case read_body req of
        Inl _ \<Rightarrow> None
      | Inr body \<Rightarrow> let c = first_value (parse_qs body) (lit ''state'') in if c = [] then None else Some c)"

lemma send_status:
  "send_text n b = Inr r \<Longrightarrow> hr_status r = n" "send_html n b = Inr r \<Longrightarrow> hr_status r = n"
  by (auto simp: send_text_def send_html_def send_bytes_def rbind_eq_Inr)

text \<open>A POST confirms, and answers 200 only for a confirmation that succeeded, or leaves the state alone.\<close>

lemma do_POST_cases:
  obtains (rejected) r where "do_POST cn config E inp req st = (st, r)" "\<forall>x. r = Inr x \<longrightarrow> hr_status x \<noteq> 200"
  | (confirmed) c st' r x where "do_POST cn config E inp req st = (st', x)" "posted_state req = Some c"
      "confirm_authorization E inp c st = (st', r)" "\<forall>y. x = Inr y \<longrightarrow> (hr_status y = 200 \<longleftrightarrow> r = Inr ())"
proof (cases "urlparse cn (hq_path req)")
  case (Inl e)
  then show thesis by (intro rejected) (auto simp: do_POST_def)
next
  case (Inr pq)
  obtain path q where pq: "pq = (path, q)" by fastforce
  show thesis
  proof (cases "path = lc_confirm_path config")
    case False
    with Inr pq show thesis by (intro rejected) (auto simp: do_POST_def dest: send_status)
  next
    case path: True
    show thesis
    proof (cases "read_body req")
      case read: (Inl e)
      with Inr pq path show thesis by (intro rejected) (auto simp: do_POST_def)
    next
      case read: (Inr body)
      let ?c = "first_value (parse_qs body) (lit ''state'')"
      show thesis
      proof (cases "?c = []")
        case True
        with Inr pq path read show thesis
          by (intro rejected) (auto simp: do_POST_def Let_def dest: send_status)
      next
        case False
        obtain st' r where conf: "confirm_authorization E inp ?c st = (st', r)" by fastforce
        have "fst (do_POST cn config E inp req st) = st'"
          using Inr pq path read False conf by (simp add: do_POST_def Let_def split: sum.split)
        moreover have "\<forall>y. snd (do_POST cn config E inp req st) = Inr y \<longrightarrow> (hr_status y = 200 \<longleftrightarrow> r = Inr ())"
          using Inr pq path read False conf
          by (cases r) (auto simp: do_POST_def Let_def dest: send_status)
        ultimately show thesis
          using read False conf
          by (intro confirmed [of st' "snd (do_POST cn config E inp req st)" ?c r])
            (auto simp: posted_state_def Let_def)
      qed
    qed
  qed
qed

lemma do_GET_keeps:
  "au_pushed (fst (do_GET cn config now req st)) = au_pushed st \<and>
   au_records (fst (do_GET cn config now req st)) = au_records st \<and>
   (\<exists>c. au_sessions (fst (do_GET cn config now req st)) \<in> {au_sessions st, fst (get_pending_session now c (au_sessions st))})"
proof -
  have "au_pushed (fst (handle_authorize_get config now q st)) = au_pushed st \<and>
      au_records (fst (handle_authorize_get config now q st)) = au_records st \<and>
      (\<exists>c. au_sessions (fst (handle_authorize_get config now q st)) \<in>
         {au_sessions st, fst (get_pending_session now c (au_sessions st))})" for q
  proof -
    let ?c = "first_value (parse_qs q) (lit ''state'')"
    have "au_pushed (fst (handle_authorize_get config now q st)) = au_pushed st \<and>
        au_records (fst (handle_authorize_get config now q st)) = au_records st \<and>
        au_sessions (fst (handle_authorize_get config now q st)) \<in>
          {au_sessions st, fst (get_pending_session now ?c (au_sessions st))}"
      by (cases now ?c "au_sessions st" rule: resolve_cases)
        (simp_all add: handle_authorize_get_def Let_def raise_def is_local_authorization_error_def)
    then show ?thesis by blast
  qed
  then show ?thesis by (auto simp: do_GET_def split: sum.split)
qed

section \<open>The server as a sequence of operations\<close>

text \<open>Requests one after another, with what the rest of the program does to the sessions between them.\<close>

datatype auth_op =
    OnSessions session_op
  | Get pyfloat http_request
  | Post confirm_inputs http_request

fun auth_step ::
    "(pystr \<Rightarrow> py_exn + unit) \<Rightarrow> local_authorization_server_config \<Rightarrow> 's auth_env \<Rightarrow> auth_op \<Rightarrow>
     's auth_state \<Rightarrow> 's auth_state" where
  "auth_step cn config E (OnSessions op) st = st\<lparr>au_sessions := session_step op (au_sessions st)\<rparr>"
| "auth_step cn config E (Get now req) st = fst (do_GET cn config now req st)"
| "auth_step cn config E (Post inp req) st = fst (do_POST cn config E inp req st)"

definition dead :: "pystr \<Rightarrow> 's auth_state \<Rightarrow> bool" where
  "dead c st \<longleftrightarrow> live_of (au_sessions st) c = None"

lemma dead_lookup: "live_of sess c = None \<Longrightarrow> live_of (fst (get_pending_session now c' sess)) c = None"
  using get_pending_refines [of now c' sess] by (auto simp: live_now_def)

lemma dead_complete: "live_of sess c = None \<Longrightarrow> live_of (fst (complete_session now c' sess)) c = None"
  using complete_refines [of now c' sess] by auto

lemma dead_not_pending: "live_of sess c = None \<Longrightarrow> get_pending_session now c sess \<noteq> (ss, Some s)"
  using get_pending_refines [of now c sess] by (auto simp: live_now_def)

abbreviation pushed_to :: "pystr \<Rightarrow> 's auth_state \<Rightarrow> (pystr \<times> pystr \<times> login_session) list" where
  "pushed_to c st \<equiv> filter (\<lambda>p. fst p = c) (au_pushed st)"

lemma dead_confirm:
  assumes "dead c st" "confirm_authorization E inp c' st = (st', r)"
  shows "dead c st' \<and> pushed_to c st' = pushed_to c st"
proof (cases E inp c' st rule: confirm_cases)
  case (refused ss)
  with assms dead_lookup [of "au_sessions st" c "in_resolve_time inp" c'] show ?thesis
    by (auto simp: dead_def)
next
  case (unissued s e)
  with assms show ?thesis by simp
next
  case (unsent s recs i e)
  with assms dead_not_pending have "c' \<noteq> c" by (metis dead_def)
  with assms unsent(1) show ?thesis by (auto simp: dead_def)
next
  case (sent s recs i ss r')
  with assms dead_not_pending have "c' \<noteq> c" by (metis dead_def)
  moreover have "live_of ss c = None"
    using sent(5) assms(1) dead_complete [of "au_sessions st" c "in_complete_time inp" c'] by (simp add: dead_def)
  ultimately show ?thesis using assms sent(1) by (auto simp: dead_def)
qed

lemma dead_auth_step:
  assumes "dead c st" "\<forall>op'. op = OnSessions op' \<longrightarrow> \<not> creates c op'"
  shows "dead c (auth_step cn config E op st) \<and> pushed_to c (auth_step cn config E op st) = pushed_to c st"
proof (cases op)
  case (OnSessions op')
  with assms show ?thesis by (auto simp: dead_def session_refines dead_step)
next
  case (Get now req)
  with do_GET_keeps [of cn config now req st] assms(1) dead_lookup show ?thesis by (auto simp: dead_def)
next
  case (Post inp req)
  show ?thesis
  proof (cases cn config E inp req st rule: do_POST_cases)
    case (rejected r)
    with Post assms(1) show ?thesis by simp
  next
    case (confirmed c' st' r x)
    with dead_confirm [OF assms(1) confirmed(3)] Post show ?thesis by simp
  qed
qed

lemma dead_auth_run:
  assumes "dead c st" "\<forall>op. OnSessions op \<in> set ops \<longrightarrow> \<not> creates c op"
  shows "dead c (fold (auth_step cn config E) ops st) \<and>
    pushed_to c (fold (auth_step cn config E) ops st) = pushed_to c st"
  using assms
proof (induction ops arbitrary: st)
  case (Cons op ops)
  have "dead c (auth_step cn config E op st) \<and> pushed_to c (auth_step cn config E op st) = pushed_to c st"
    by (rule dead_auth_step) (use Cons.prems in auto)
  with Cons show ?case by simp
qed simp

end
