(* ===== verification/LocalAuthProps.thy ===== *)
theory LocalAuthProps
  imports LocalAuthFacts ApiKeyProps
begin

text \<open>The properties of the local authorization server (\<open>auth/local_authorization.py\<close>).\<close>

section \<open>The authorization URL\<close>

text \<open>A path that \<open>urlparse\<close> leaves alone.\<close>

definition plain_path :: "pystr \<Rightarrow> bool" where
  "plain_path p \<longleftrightarrow> p \<noteq> [] \<and> hd p = 47 \<and> take 2 p \<noteq> [47, 47] \<and>
     (\<forall>c \<in> set p. c \<notin> {9, 10, 13, 35, 59, 63})"

lemma urlparse_plain:
  assumes "plain_path p" "\<forall>c \<in> set q. c \<notin> {9, 10, 13, 35}"
  shows "urlparse cn (p @ 63 # q) = Inr (p, q)"
proof -
  obtain p' where p: "p = 47 # p'" using assms(1) by (cases p) (auto simp: plain_path_def)
  let ?u = "p @ 63 # q"
  have "filter (\<lambda>c. c \<notin> {9, 10, 13}) ?u = ?u"
    using assms by (auto simp: plain_path_def filter_id_conv)
  moreover have "dropWhile (\<lambda>c. c \<le> 32) ?u = ?u" by (simp add: p)
  moreover have "split_scheme ?u = ([], ?u)" by (simp add: split_scheme_def Let_def p)
  moreover have "take 2 ?u \<noteq> [47, 47]"
    using assms(1) by (cases p') (auto simp: plain_path_def p)
  moreover have "partition_at 35 ?u = (?u, [])"
    using assms by (intro partition_at_absent) (auto simp: plain_path_def)
  moreover have "partition_at 63 ?u = (p, q)"
    using assms by (intro partition_at_sep) (auto simp: plain_path_def)
  moreover have "split_params p = p"
  proof -
    let ?last = "rev (takeWhile (\<lambda>c. c \<noteq> 47) (rev p))"
    have "rev p = takeWhile (\<lambda>c. c \<noteq> 47) (rev p) @ dropWhile (\<lambda>c. c \<noteq> 47) (rev p)" by simp
    then have split: "p = rev (dropWhile (\<lambda>c. c \<noteq> 47) (rev p)) @ ?last"
      by (metis rev_append rev_rev_ident)
    then have front: "take (length p - length ?last) p = rev (dropWhile (\<lambda>c. c \<noteq> 47) (rev p))"
      by (metis add_diff_cancel_right' append_eq_conv_conj length_append)
    have "set ?last \<subseteq> set p" by (metis set_rev set_takeWhileD subsetI)
    then have no_params: "takeWhile (\<lambda>c. c \<noteq> 59) ?last = ?last"
      using assms(1) by (intro takeWhile_eq_all_conv [THEN iffD2]) (auto simp: plain_path_def)
    show ?thesis unfolding split_params_def Let_def front no_params by (rule split [symmetric])
  qed
  ultimately show ?thesis by (simp add: urlparse_def uses_params_def)
qed

text \<open>
  C30: the authorization URL of a caller opens the page of that caller's session: the URL is the server's
  address and a target, and a GET of that target looks the session of exactly that caller id up, whatever
  characters the id has, and answers with its page, or with an error page if it is not pending.
\<close>

theorem authorization_url_opens_session:
  assumes "authorization_url sv c = Inr u" "c \<noteq> []" "63 \<notin> set (server_url sv)"
    and "plain_path (lc_authorize_path (sv_config sv))"
    and "lc_authorize_path (sv_config sv) \<noteq> lc_health_path (sv_config sv)"
  shows "\<exists>target. u = server_url sv @ target \<and>
    (\<forall>req. hq_path req = target \<longrightarrow>
       do_GET cn (sv_config sv) now req st =
         (case get_pending_session now c (au_sessions st) of
            (ss, Some s) \<Rightarrow> (st\<lparr>au_sessions := ss\<rparr>, send_html 200 (authorization_page s (sv_config sv)))
          | (ss, None) \<Rightarrow> (st\<lparr>au_sessions := ss\<rparr>, send_html 400 (error_page (lit ''login session is missing or expired'')))))"
proof -
  let ?p = "lc_authorize_path (sv_config sv)"
  have "63 \<notin> set (server_url sv @ ?p)" using assms(3,4) by (auto simp: plain_path_def)
  with assms(1) obtain q where q: "urlencode1 (lit ''state'') c = Inr q" "u = server_url sv @ ?p @ 63 # q"
    by (auto simp: authorization_url_def build_authorization_url_def rbind_eq_Inr lit_Cons)
  obtain k' c' where "quote_plus (lit ''state'') = Inr k'" "quote_plus c = Inr c'" "q = k' @ 61 # c'"
    using q(1) by (rule urlencode1_InrD)
  then have "\<forall>x \<in> set q. x \<notin> {9, 10, 13, 35}"
    using quote_plus_chars by fastforce
  with assms(4) have url: "urlparse cn (?p @ 63 # q) = Inr (?p, q)" by (rule urlparse_plain)
  have state: "first_value (parse_qs q) (lit ''state'') = c"
    by (simp add: parse_urlencode1 [OF q(1) assms(2)] first_value_def)
  show ?thesis
  proof (intro exI [of _ "?p @ 63 # q"] conjI allI impI q(2))
    fix req :: http_request assume "hq_path req = ?p @ 63 # q"
    with url assms(5) have "do_GET cn (sv_config sv) now req st = handle_authorize_get (sv_config sv) now q st"
      by (simp add: do_GET_def)
    then show "do_GET cn (sv_config sv) now req st =
         (case get_pending_session now c (au_sessions st) of
            (ss, Some s) \<Rightarrow> (st\<lparr>au_sessions := ss\<rparr>, send_html 200 (authorization_page s (sv_config sv)))
          | (ss, None) \<Rightarrow> (st\<lparr>au_sessions := ss\<rparr>, send_html 400 (error_page (lit ''login session is missing or expired''))))"
      using state assms(2)
      by (cases now c "au_sessions st" rule: resolve_cases)
        (simp_all add: handle_authorize_get_def Let_def raise_def is_local_authorization_error_def)
  qed
qed

theorem authorization_url_opens_session_witness:
  "\<exists>target. authorization_url (new_local_server None) (lit ''a&b c'') = Inr (lit ''http://127.0.0.1:17653'' @ target) \<and>
     snd (do_GET (\<lambda>_. Inr ()) default_config (FFin 0 0) \<lparr>hq_path = target, hq_content_length = None, hq_input = []\<rparr>
       \<lparr>au_sessions = [], au_records = (), au_pushed = []\<rparr>) =
     send_html 400 (error_page (lit ''login session is missing or expired''))"
proof -
  let ?sv = "new_local_server None"
  have "\<forall>c \<in> set (lit ''state'') \<union> set (lit ''a&b c''). c < 128" by (simp add: lit_Cons)
  then obtain u where u: "authorization_url ?sv (lit ''a&b c'') = Inr u"
    by (auto simp: authorization_url_def build_authorization_url_def urlencode1_def quote_plus_def utf8_encode_ascii)
  have port: "show_int 17653 = lit ''17653''" by (simp add: show_int_def show_nat.simps lit_Cons)
  have url: "server_url ?sv = lit ''http://127.0.0.1:17653''"
    by (simp add: server_url_def new_local_server_def default_config_def port lit_Cons)
  have conf: "sv_config ?sv = default_config" by (simp add: new_local_server_def)
  have path: "63 \<notin> set (server_url ?sv)" "plain_path (lc_authorize_path (sv_config ?sv))"
    "lc_authorize_path (sv_config ?sv) \<noteq> lc_health_path (sv_config ?sv)"
    by (simp_all add: url conf) (simp_all add: default_config_def plain_path_def lit_Cons)
  from authorization_url_opens_session [OF u _ path, of "\<lambda>_. Inr ()" "FFin 0 0" "\<lparr>au_sessions = [], au_records = (), au_pushed = []\<rparr>"]
  obtain target where "u = server_url ?sv @ target"
    and "do_GET (\<lambda>_. Inr ()) default_config (FFin 0 0) \<lparr>hq_path = target, hq_content_length = None, hq_input = []\<rparr>
       \<lparr>au_sessions = [], au_records = (), au_pushed = []\<rparr> =
     (\<lparr>au_sessions = [], au_records = (), au_pushed = []\<rparr>, send_html 400 (error_page (lit ''login session is missing or expired'')))"
    by (auto simp: get_pending_session_def conf)
  with u url show ?thesis by (intro exI [of _ target]) simp
qed

section \<open>Confirmation\<close>

text \<open>
  C28: a 200 to a POST means that the caller got a working key: the posted state is a caller id whose
  session was pending, the push callback was called once, for that caller and session, with a key that
  was just issued and returned normally, the session is used up, and the callee's verifier accepts the key.
\<close>

theorem confirmed_post_delivers_key:
  assumes "ae_lib E = std_lib FT rp gz gunz" "ae_save E = save_record"
    and "do_POST cn config E inp req st = (st', Inr r)" "hr_status r = 200"
  shows "\<exists>c s key. posted_state req = Some c \<and>
    snd (get_pending_session (in_resolve_time inp) c (au_sessions st)) = Some s \<and>
    au_pushed st' = au_pushed st @ [(c, key, s)] \<and> ae_push E c key s = Inr () \<and>
    snd (get_pending_session later c (au_sessions st')) = None \<and>
    verify_api_key (ae_lib E) get_record (ae_callee E) key (au_records st') = Inr True"
proof (cases cn config E inp req st rule: do_POST_cases)
  case (rejected x)
  with assms(3,4) show ?thesis by auto
next
  case (confirmed c st'' x y)
  with assms(3,4) have conf: "confirm_authorization E inp c st = (st', Inr ())" by auto
  then show ?thesis
  proof (cases E inp c st rule: confirm_cases)
    case (sent s recs i ss r')
    have "live_of ss c = None" using complete_refines [of "in_complete_time inp" c "au_sessions st"] sent(5) by simp
    then have "snd (get_pending_session later c ss) = None"
      by (metis dead_not_pending not_None_eq prod.collapse)
    moreover have "verify_api_key (ae_lib E) get_record (ae_callee E) (ki_api_key i) recs = Inr True"
      using memory.issue_verifies [OF std_hex_digests [OF assms(1)]] sent(3) assms(2) by metis
    ultimately show ?thesis
      using conf sent confirmed(2)
      by (intro exI [of _ c] exI [of _ s] exI [of _ "ki_api_key i"]) auto
  qed (auto simp: raise_def)
qed

lemma utf8_encodable: "\<forall>c \<in> set s. utf8_char c \<noteq> None \<Longrightarrow> \<exists>bs. utf8_encode s = Inr bs"
  by (induction s) auto

definition sample_env :: "record_store_state auth_env" where
  "sample_env = \<lparr>ae_lib = std_sample, ae_callee = lit ''bob'', ae_save = save_record, ae_push = (\<lambda>_ _ _. Inr ())\<rparr>"

definition sample_inputs :: confirm_inputs where
  "sample_inputs = \<lparr>in_resolve_time = FFin 1 0, in_issue_time = FFin 1 0, in_complete_time = FFin 1 0,
     in_key = lit ''k1'', in_secret = lit ''s3''\<rparr>"

definition sample_session :: login_session where
  "sample_session = \<lparr>ls_caller_id = lit ''u'', ls_expires_at = FFin 9 0, ls_status = PENDING, ls_push_channel_id = None\<rparr>"

definition sample_auth :: "record_store_state auth_state" where
  "sample_auth = \<lparr>au_sessions = [(lit ''u'', sample_session)], au_records = [], au_pushed = []\<rparr>"

definition sample_post :: http_request where
  "sample_post = \<lparr>hq_path = lit ''/authorize/confirm'', hq_content_length = Some (lit ''7''),
     hq_input = map of_nat (lit ''state=u'')\<rparr>"

lemma sample_posted: "posted_state sample_post = Some (lit ''u'')"
proof -
  have "utf8_encode (lit ''state=u'') = Inr (map of_nat (lit ''state=u''))"
    by (rule utf8_encode_ascii) (simp add: lit_Cons)
  then have "utf8_decode (map of_nat (lit ''state=u'')) = Inr (lit ''state=u'')" by (rule utf8.dec_enc)
  moreover have "py_int (lit ''7'') = Inr 7"
    by (simp add: py_int_def lit_Cons py_strip_def py_lstrip_def py_rstrip_def py_space_def py_decimal_def
        decimal_zeros_def max_str_digits_def)
  ultimately have "read_body sample_post = Inr (lit ''state=u'')"
    by (simp add: read_body_def sample_post_def read_input_def lit_Cons)
  moreover have "parse_qs (lit ''state=u'') = [(lit ''state'', [lit ''u''])]"
    by (simp add: parse_qs_def parse_qsl_def lit_Cons partition_at_def unquote_plus_def unquote_def dict_set_def)
  ultimately show ?thesis by (simp add: posted_state_def first_value_def)
qed

lemma sample_200:
  "\<exists>st' r. do_POST (\<lambda>_. Inr ()) default_config sample_env sample_inputs sample_post sample_auth = (st', Inr r) \<and>
     hr_status r = 200"
proof -
  obtain b where b: "read_body sample_post = Inr b" "first_value (parse_qs b) (lit ''state'') = lit ''u''"
    using sample_posted by (auto simp: posted_state_def Let_def split: sum.splits if_splits)
  have url: "urlparse (\<lambda>_. Inr ()) (hq_path sample_post) = Inr (lc_confirm_path default_config, [])"
    by (simp add: urlparse_def sample_post_def default_config_def lit_Cons split_scheme_def partition_at_def
        uses_params_def split_params_def)
  obtain h where h: "issue_api_key std_sample save_record (lit ''bob'') (lit ''k1'') (lit ''s3'') (FFin 1 0) [] =
      (save_record (issued_record (lit ''bob'') (lit ''k1'') h (FFin 1 0)) [],
       Inr \<lparr>ki_api_key = join_key (lit ''bob'') (lit ''k1'') (lit ''s3''),
            ki_record = issued_record (lit ''bob'') (lit ''k1'') h (FFin 1 0)\<rparr>)"
    using issue_api_key_valid [OF sample_segments, of std_sample save_record "FFin 1 0" "[]"] by blast
  have pend: "get_pending_session (FFin 1 0) (lit ''u'') [(lit ''u'', sample_session)] =
      ([(lit ''u'', sample_session)], Some sample_session)"
    by (simp add: get_pending_session_def sample_session_def is_expired_def)
  obtain st' where conf: "confirm_authorization sample_env sample_inputs (lit ''u'') sample_auth = (st', Inr ())"
    by (simp add: confirm_authorization_def sample_env_def sample_inputs_def sample_auth_def h
        resolve_pending_session_def pend complete_session_def)
  have "\<forall>c \<in> set success_page. utf8_char c \<noteq> None"
    by (simp add: success_page_def lit_Cons utf8_char_def)
  then obtain bs where "utf8_encode success_page = Inr bs" using utf8_encodable by blast
  with url b conf show ?thesis by (simp add: do_POST_def send_html_def send_bytes_def)
qed

theorem confirmed_post_delivers_key_witness:
  "\<exists>st' :: record_store_state auth_state. verify_api_key std_sample get_record (lit ''bob'') (fst (snd (hd (au_pushed st')))) (au_records st') = Inr True"
proof -
  obtain st' r where "do_POST (\<lambda>_. Inr ()) default_config sample_env sample_inputs sample_post sample_auth = (st', Inr r)"
    "hr_status r = 200" using sample_200 by blast
  moreover have "ae_lib sample_env = std_lib sample_floats (\<lambda>_. lit ''?'') (\<lambda>bs. bs) Inr" "ae_save sample_env = save_record"
    by (simp_all add: sample_env_def std_sample_def)
  ultimately obtain c s key where "au_pushed st' = au_pushed sample_auth @ [(c, key, s)]"
    "verify_api_key (ae_lib sample_env) get_record (ae_callee sample_env) key (au_records st') = Inr True"
    using confirmed_post_delivers_key [of sample_env sample_floats "\<lambda>_. lit ''?''" "\<lambda>bs. bs" Inr "\<lambda>_. Inr ()" default_config sample_inputs sample_post sample_auth st' r]
    by blast
  then show ?thesis by (intro exI [of _ st']) (simp add: sample_env_def sample_auth_def)
qed

text \<open>
  C29: one key for one session: when requests are handled one after another, a confirmation of \<open>c\<close> that was
  answered with 200 is the last that pushes a key to \<open>c\<close>, whatever is requested afterwards, until a new session
  is created for \<open>c\<close>.
\<close>

theorem one_key_per_session:
  assumes "do_POST cn config E inp req st = (st', Inr r)" "hr_status r = 200" "posted_state req = Some c"
    and "\<forall>op. OnSessions op \<in> set ops \<longrightarrow> \<not> creates c op"
  shows "pushed_to c (fold (auth_step cn config E) ops st') = pushed_to c st'"
proof (cases cn config E inp req st rule: do_POST_cases)
  case (rejected x)
  with assms(1,2) show ?thesis by auto
next
  case (confirmed c' st'' x y)
  with assms(1-3) have "confirm_authorization E inp c st = (st', Inr ())" by auto
  then have "dead c st'"
  proof (cases E inp c st rule: confirm_cases)
    case (sent s recs i ss r')
    moreover assume "confirm_authorization E inp c st = (st', Inr ())"
    ultimately show ?thesis
      using complete_refines [of "in_complete_time inp" c "au_sessions st"] by (auto simp: dead_def)
  qed (auto simp: raise_def)
  then show ?thesis using dead_auth_run assms(4) by blast
qed

theorem one_key_per_session_witness:
  "\<exists>st'. pushed_to (lit ''u'') (auth_step (\<lambda>_. Inr ()) default_config sample_env (Post sample_inputs sample_post) st') =
     pushed_to (lit ''u'') st'"
proof -
  obtain st' r where "do_POST (\<lambda>_. Inr ()) default_config sample_env sample_inputs sample_post sample_auth = (st', Inr r)"
    "hr_status r = 200" using sample_200 by blast
  from one_key_per_session [OF this sample_posted, of "[Post sample_inputs sample_post]"]
  show ?thesis by (intro exI [of _ st']) simp
qed

section \<open>Pages\<close>

text \<open>
  No text from outside becomes markup: the brackets and quotes of the authorization page are the same for
  every session, whatever its caller id and push channel contain, and those of an error page for every message.
\<close>

theorem pages_have_fixed_markup:
  "filter markup (authorization_page s config) = filter markup (authorization_page s' config') \<and>
   filter markup (error_page m) = filter markup (error_page m')"
  by (simp add: authorization_page_def error_page_def Let_def html_escape_markup)

section \<open>Confirmations in two threads\<close>

text \<open>
  The server answers every request in a thread of its own, and nothing locks the sessions, so another thread
  can run between any two of these steps of a confirmation.
\<close>

datatype confirm_pc =
    Resolving
  | Issuing login_session
  | Pushing login_session pystr
  | Completing
  | Finished "py_exn + unit"

fun confirm_step ::
    "'s auth_env \<Rightarrow> confirm_inputs \<Rightarrow> pystr \<Rightarrow> confirm_pc \<Rightarrow> 's auth_state \<Rightarrow> 's auth_state \<times> confirm_pc" where
  "confirm_step E inp c Resolving st =
     (case resolve_pending_session (in_resolve_time inp) c (au_sessions st) of
        (ss, Inl e) \<Rightarrow> (st\<lparr>au_sessions := ss\<rparr>, Finished (Inl e))
      | (ss, Inr s) \<Rightarrow> (st\<lparr>au_sessions := ss\<rparr>, Issuing s))"
| "confirm_step E inp c (Issuing s) st =
     (case issue_api_key (ae_lib E) (ae_save E) (ae_callee E) (in_key inp) (in_secret inp) (in_issue_time inp)
             (au_records st) of
        (recs, Inl e) \<Rightarrow> (st\<lparr>au_records := recs\<rparr>, Finished (Inl e))
      | (recs, Inr i) \<Rightarrow> (st\<lparr>au_records := recs\<rparr>, Pushing s (ki_api_key i)))"
| "confirm_step E inp c (Pushing s key) st =
     (st\<lparr>au_pushed := au_pushed st @ [(c, key, s)]\<rparr>,
      case ae_push E c key s of Inl e \<Rightarrow> Finished (Inl e) | Inr _ \<Rightarrow> Completing)"
| "confirm_step E inp c Completing st =
     (case complete_session (in_complete_time inp) c (au_sessions st) of
        (ss, Inl e) \<Rightarrow> (st\<lparr>au_sessions := ss\<rparr>,
          Finished (if exn_class e = LoginSessionError
                    then raise LocalAuthorizationError ''login session could not be completed'' else Inl e))
      | (ss, Inr _) \<Rightarrow> (st\<lparr>au_sessions := ss\<rparr>, Finished (Inr ())))"
| "confirm_step E inp c (Finished r) st = (st, Finished r)"

fun alone :: "nat \<Rightarrow> 's auth_env \<Rightarrow> confirm_inputs \<Rightarrow> pystr \<Rightarrow> 's auth_state \<times> confirm_pc \<Rightarrow> 's auth_state \<times> confirm_pc" where
  "alone 0 E inp c x = x"
| "alone (Suc n) E inp c (st, pc) = alone n E inp c (confirm_step E inp c pc st)"

text \<open>Without another thread, the four steps are the confirmation.\<close>

lemma alone_confirms:
  "alone 4 E inp c (st, Resolving) = (case confirm_authorization E inp c st of (st', r) \<Rightarrow> (st', Finished r))"
proof -
  have four: "(4::nat) = Suc (Suc (Suc (Suc 0)))" by simp
  show ?thesis
    unfolding four by (cases "in_resolve_time inp" c "au_sessions st" rule: resolve_cases)
      (auto simp: confirm_authorization_def raise_def split: prod.split sum.split)
qed

text \<open>Two threads: each element of the schedule lets the first (\<open>True\<close>) or the second make a step.\<close>

fun two_threads ::
    "'s auth_env \<Rightarrow> confirm_inputs \<Rightarrow> confirm_inputs \<Rightarrow> pystr \<Rightarrow> bool list \<Rightarrow>
     's auth_state \<Rightarrow> confirm_pc \<Rightarrow> confirm_pc \<Rightarrow> 's auth_state \<times> confirm_pc \<times> confirm_pc" where
  "two_threads E inp inp' c [] st pc pc' = (st, pc, pc')"
| "two_threads E inp inp' c (True # sched) st pc pc' =
     (case confirm_step E inp c pc st of (st', pc1) \<Rightarrow> two_threads E inp inp' c sched st' pc1 pc')"
| "two_threads E inp inp' c (False # sched) st pc pc' =
     (case confirm_step E inp' c pc' st of (st', pc1) \<Rightarrow> two_threads E inp inp' c sched st' pc pc1)"

lemma pending_stable:
  assumes "map_of ss c = Some s" "ls_status s = PENDING" "\<not> float_le (ls_expires_at s) now"
  shows "get_pending_session now c ss = (ss, Some s)"
  using assms by (simp add: get_pending_session_def is_expired_def)

text \<open>
  C31: two confirmations of one session in two threads both push a key: if the steps of the threads alternate, each
  issues a key and pushes it to the caller, and one of the two confirmations fails afterwards although its key was
  delivered.
\<close>

theorem two_threads_push_two_keys:
  assumes "map_of (au_sessions st) c = Some s" "ls_status s = PENDING"
    and "\<forall>now \<in> {in_resolve_time inp, in_complete_time inp, in_resolve_time inp'}. \<not> float_le (ls_expires_at s) now"
    and "\<forall>x \<in> {ae_callee E, in_key inp, in_secret inp, in_key inp', in_secret inp'}. segment x"
    and "\<forall>key. ae_push E c key s = Inr ()"
  shows "\<exists>st'. two_threads E inp inp' c [True, False, True, False, True, False, True, False] st Resolving Resolving =
      (st', Finished (Inr ()), Finished (raise LocalAuthorizationError ''login session could not be completed'')) \<and>
    au_pushed st' = au_pushed st @
      [(c, join_key (ae_callee E) (in_key inp) (in_secret inp), s), (c, join_key (ae_callee E) (in_key inp') (in_secret inp'), s)]"
proof -
  have look: "get_pending_session now c (au_sessions st) = (au_sessions st, Some s)"
    if "now \<in> {in_resolve_time inp, in_complete_time inp, in_resolve_time inp'}" for now
    using assms(1-3) that by (intro pending_stable) auto
  then have resolve: "resolve_pending_session now c (au_sessions st) = (au_sessions st, Inr s)"
    if "now \<in> {in_resolve_time inp, in_resolve_time inp'}" for now
    using that by (auto simp: resolve_pending_session_def)
  have issue: "\<exists>recs. issue_api_key (ae_lib E) (ae_save E) (ae_callee E) (in_key i) (in_secret i) (in_issue_time i) r =
      (recs, Inr \<lparr>ki_api_key = join_key (ae_callee E) (in_key i) (in_secret i), ki_record = recd\<rparr>)"
    if "i \<in> {inp, inp'}" "recd = ki_record (projr (snd (issue_api_key (ae_lib E) (ae_save E) (ae_callee E) (in_key i) (in_secret i) (in_issue_time i) r)))"
    for i r recd
    using issue_api_key_valid [of "ae_callee E" "in_key i" "in_secret i" "ae_lib E" "ae_save E" "in_issue_time i" r] assms(4) that
    by auto
  obtain recs i where 1: "issue_api_key (ae_lib E) (ae_save E) (ae_callee E) (in_key inp) (in_secret inp) (in_issue_time inp)
      (au_records st) = (recs, Inr \<lparr>ki_api_key = join_key (ae_callee E) (in_key inp) (in_secret inp), ki_record = i\<rparr>)"
    using issue [of inp] by blast
  obtain recs' i' where 2: "issue_api_key (ae_lib E) (ae_save E) (ae_callee E) (in_key inp') (in_secret inp') (in_issue_time inp')
      recs = (recs', Inr \<lparr>ki_api_key = join_key (ae_callee E) (in_key inp') (in_secret inp'), ki_record = i'\<rparr>)"
    using issue [of inp'] by blast
  have done1: "complete_session (in_complete_time inp) c (au_sessions st) =
      (dict_set c (completed s) (au_sessions st), Inr (completed s))"
    using look by (simp add: complete_session_def)
  have done2: "complete_session now c (dict_set c (completed s) (au_sessions st)) =
      (dict_set c (completed s) (au_sessions st), raise LoginSessionError ''login session is not pending'')" for now
    by (simp add: complete_session_def get_pending_session_def completed_def)
  show ?thesis
    by (simp add: resolve 1 2 assms(5) done1 done2 [unfolded raise_def] raise_def)
qed

theorem two_threads_push_two_keys_witness:
  "\<exists>st'. au_pushed (st' :: record_store_state auth_state) =
     [(lit ''u'', join_key (lit ''bob'') (lit ''k1'') (lit ''s3''), sample_session),
      (lit ''u'', join_key (lit ''bob'') (lit ''s3'') (lit ''k1''), sample_session)]"
proof -
  let ?inp' = "sample_inputs\<lparr>in_key := lit ''s3'', in_secret := lit ''k1''\<rparr>"
  have "map_of (au_sessions sample_auth) (lit ''u'') = Some sample_session" "ls_status sample_session = PENDING"
    "\<forall>now \<in> {in_resolve_time sample_inputs, in_complete_time sample_inputs, in_resolve_time ?inp'}.
       \<not> float_le (ls_expires_at sample_session) now"
    by (simp_all add: sample_auth_def sample_session_def sample_inputs_def)
  moreover have "\<forall>x \<in> {ae_callee sample_env, in_key sample_inputs, in_secret sample_inputs, in_key ?inp', in_secret ?inp'}. segment x"
    using sample_segments by (simp add: sample_env_def sample_inputs_def)
  moreover have "\<forall>key. ae_push sample_env (lit ''u'') key sample_session = Inr ()" by (simp add: sample_env_def)
  ultimately have "\<exists>st'. two_threads sample_env sample_inputs ?inp' (lit ''u'') [True, False, True, False, True, False, True, False]
        sample_auth Resolving Resolving =
      (st', Finished (Inr ()), Finished (raise LocalAuthorizationError ''login session could not be completed'')) \<and>
    au_pushed st' = au_pushed sample_auth @
      [(lit ''u'', join_key (ae_callee sample_env) (in_key sample_inputs) (in_secret sample_inputs), sample_session),
       (lit ''u'', join_key (ae_callee sample_env) (in_key ?inp') (in_secret ?inp'), sample_session)]"
    by (rule two_threads_push_two_keys)
  then show ?thesis by (auto simp: sample_env_def sample_inputs_def sample_auth_def)
qed

end
