(* ===== verification/AdbText.thy ===== *)
theory AdbText
  imports UrlText
begin

text \<open>
  The text functions of \<open>src/rpcproxy/handlers/adb_handler.py\<close>: quoting for the device's shell, the
  characters \<open>input text\<close> takes, file names, integers of a command body, and the marker that ends the output
  of a shell command, with the shell's own reading of a command line as the reference for the quoting.
\<close>

section \<open>Quoting\<close>

definition shell_single_quote :: "pystr \<Rightarrow> pystr" where
  "shell_single_quote s = [39] @ concat (map (\<lambda>c. if c = 39 then [39, 92, 39, 39] else [c]) s) @ [39]"

definition MAX_INPUT_TEXT_LEN :: nat where
  "MAX_INPUT_TEXT_LEN = 256"

text \<open>\<open>[a-zA-Z0-9!@#$%^&*()_+\-=\[\]{};:,./?|\\`~ ]\<close>\<close>

definition input_char :: "nat \<Rightarrow> bool" where
  "input_char c \<longleftrightarrow> (97 \<le> c \<and> c \<le> 122) \<or> (65 \<le> c \<and> c \<le> 90) \<or> (48 \<le> c \<and> c \<le> 57) \<or>
     c \<in> {33, 64, 35, 36, 37, 94, 38, 42, 40, 41, 95, 43, 45, 61, 91, 93, 123, 125, 59, 58, 44, 46, 47, 63,
           124, 92, 96, 126, 32}"

text \<open>The pattern ends with \<open>$\<close>, which also matches before a newline at the end.\<close>

definition input_text_allowed :: "pystr \<Rightarrow> bool" where
  "input_text_allowed s =
     (let t = (if s \<noteq> [] \<and> last s = 10 then butlast s else s)
      in t \<noteq> [] \<and> list_all input_char t)"

definition escape_input_text_for_android :: "pystr \<Rightarrow> py_exn + pystr" where
  "escape_input_text_for_android s =
     (if length s > MAX_INPUT_TEXT_LEN then raise ValueError ''text length must be <= 256''
      else if \<not> input_text_allowed s then raise ValueError
        ''text contains unsupported characters for adb input text (use letters, digits, common punctuation, space)''
      else Inr (concat (map (\<lambda>c. if c = 32 then [37, 115] else [c]) s)))"

section \<open>File names\<close>

text \<open>\<open>Path(name).name\<close> on a POSIX system\<close>

definition path_name :: "pystr \<Rightarrow> pystr" where
  "path_name s = (case filter (\<lambda>p. p \<noteq> [] \<and> p \<noteq> [46]) (split_on 47 s) of [] \<Rightarrow> [] | ps \<Rightarrow> last ps)"

fun has_dots :: "pystr \<Rightarrow> bool" where
  "has_dots (a # b # s) = (a = 46 \<and> b = 46 \<or> has_dots (b # s))"
| "has_dots s = False"

definition safe_filename :: "pystr \<Rightarrow> bool" where
  "safe_filename name =
     (if name = [] \<or> name \<noteq> path_name name then False
      else if has_dots name \<or> 47 \<in> set name \<or> 92 \<in> set name then False
      else True)"

text \<open>
  \<open>name.lower().endswith(".png")\<close>: no letter but \<open>P\<close>, \<open>N\<close> and \<open>G\<close> is lowered to one of \<open>p\<close>, \<open>n\<close>, \<open>g\<close>.
\<close>

definition ends_png :: "pystr \<Rightarrow> bool" where
  "ends_png s = (map (\<lambda>c. if 65 \<le> c \<and> c \<le> 90 then c + 32 else c) (drop (length s - 4) s) = lit ''.png'')"

definition id_char :: "nat \<Rightarrow> bool" where
  "id_char c \<longleftrightarrow> (97 \<le> c \<and> c \<le> 122) \<or> (65 \<le> c \<and> c \<le> 90) \<or> (48 \<le> c \<and> c \<le> 57) \<or> c = 95 \<or> c = 45"

text \<open>\<open>re.sub(r"[^a-zA-Z0-9_-]+", "_", s)\<close>\<close>

fun sub_id :: "pystr \<Rightarrow> pystr" where
  "sub_id [] = []"
| "sub_id (c # cs) =
     (if id_char c then c # sub_id cs
      else if cs \<noteq> [] \<and> \<not> id_char (hd cs) then sub_id cs else 95 # sub_id cs)"

section \<open>Integers of a body\<close>

text \<open>\<open>v.is_integer()\<close> and \<open>int(v)\<close> of a float\<close>

fun float_integer :: "pyfloat \<Rightarrow> int option" where
  "float_integer (FFin m e) =
     (if 0 \<le> e then Some (m * 2 ^ nat e)
      else if m mod 2 ^ nat (- e) = 0 then Some (m div 2 ^ nat (- e)) else None)"
| "float_integer _ = None"

definition parse_int :: "pydict \<Rightarrow> string \<Rightarrow> int option" where
  "parse_int body key =
     (case get body key of
        PInt i \<Rightarrow> Some i
      | PFloat f \<Rightarrow> float_integer f
      | PStr s \<Rightarrow>
          (case py_int (py_strip s) of
             Inl e \<Rightarrow> None
           | Inr i \<Rightarrow> Some i)
      | _ \<Rightarrow> None)"

section \<open>The end marker\<close>

definition SHELL_MARKER :: pystr where
  "SHELL_MARKER = lit ''__ADB_RPC_END__''"

definition MARKER_BYTES :: bytes where
  "MARKER_BYTES = map of_nat ([10] @ SHELL_MARKER @ [10])"

text \<open>\<open>buf.index(pat)\<close>, \<open>None\<close> if \<open>pat\<close> is not in \<open>buf\<close>\<close>

fun index_of :: "'a list \<Rightarrow> 'a list \<Rightarrow> nat option" where
  "index_of pat [] = (if pat = [] then Some 0 else None)"
| "index_of pat (x # xs) =
     (if take (length pat) (x # xs) = pat then Some 0 else map_option Suc (index_of pat xs))"

section \<open>The shell's reading of a line\<close>

text \<open>
  The words of a simple command as a POSIX shell reads them, for lines of plain characters, blanks, single
  quotes and backslashes: \<open>None\<close> for a line with an open quote or with a character outside quotes that
  the shell treats specially.
\<close>

definition sh_plain :: "nat \<Rightarrow> bool" where
  "sh_plain c \<longleftrightarrow> (97 \<le> c \<and> c \<le> 122) \<or> (65 \<le> c \<and> c \<le> 90) \<or> (48 \<le> c \<and> c \<le> 57) \<or> c = 45 \<or> c = 95 \<or> c = 46"

datatype sh_mode = Between | InWord pystr | InQuote pystr | Escaped pystr

fun sh_scan :: "sh_mode \<Rightarrow> pystr \<Rightarrow> pystr list option" where
  "sh_scan Between [] = Some []"
| "sh_scan (InWord w) [] = Some [w]"
| "sh_scan m [] = None"
| "sh_scan (InQuote w) (c # cs) = (if c = 39 then sh_scan (InWord w) cs else sh_scan (InQuote (w @ [c])) cs)"
| "sh_scan (Escaped w) (c # cs) = (if c = 10 then None else sh_scan (InWord (w @ [c])) cs)"
| "sh_scan Between (c # cs) =
     (if c = 32 \<or> c = 9 then sh_scan Between cs
      else if c = 39 then sh_scan (InQuote []) cs
      else if c = 92 then sh_scan (Escaped []) cs
      else if sh_plain c then sh_scan (InWord [c]) cs else None)"
| "sh_scan (InWord w) (c # cs) =
     (if c = 32 \<or> c = 9 then map_option (Cons w) (sh_scan Between cs)
      else if c = 39 then sh_scan (InQuote w) cs
      else if c = 92 then sh_scan (Escaped w) cs
      else if sh_plain c then sh_scan (InWord (w @ [c])) cs else None)"

definition sh_words :: "pystr \<Rightarrow> pystr list option" where
  "sh_words line = sh_scan Between line"

lemma sh_scan_quoted:
  "sh_scan (InQuote w) (concat (map (\<lambda>c. if c = 39 then [39, 92, 39, 39] else [c]) s) @ 39 # cs) =
   sh_scan (InWord (w @ s)) cs"
  by (induction s arbitrary: w) auto

lemma sh_scan_single_quote: "sh_scan Between (shell_single_quote s @ cs) = sh_scan (InWord s) cs"
  by (simp add: shell_single_quote_def sh_scan_quoted)

lemma sh_scan_plain: "\<forall>c \<in> set s. sh_plain c \<Longrightarrow> sh_scan (InWord w) (s @ cs) = sh_scan (InWord (w @ s)) cs"
  by (induction s arbitrary: w) (auto simp: sh_plain_def)

lemma sh_scan_word:
  "\<forall>c \<in> set s. sh_plain c \<Longrightarrow> s \<noteq> [] \<Longrightarrow> sh_scan Between (s @ 32 # cs) = map_option (Cons s) (sh_scan Between cs)"
  "\<forall>c \<in> set s. sh_plain c \<Longrightarrow> s \<noteq> [] \<Longrightarrow> sh_scan Between s = Some [s]"
proof -
  assume s: "\<forall>c \<in> set s. sh_plain c" "s \<noteq> []"
  then obtain c t where ct: "s = c # t" "sh_plain c" "\<forall>c \<in> set t. sh_plain c" by (cases s) auto
  then have "c \<noteq> 32" "c \<noteq> 9" "c \<noteq> 39" "c \<noteq> 92" by (auto simp: sh_plain_def)
  with ct show "sh_scan Between (s @ 32 # cs) = map_option (Cons s) (sh_scan Between cs)"
    using sh_scan_plain [OF ct(3), of "[c]" "32 # cs"] by simp
  from \<open>c \<noteq> 32\<close> \<open>c \<noteq> 9\<close> \<open>c \<noteq> 39\<close> \<open>c \<noteq> 92\<close> ct show "sh_scan Between s = Some [s]"
    using sh_scan_plain [OF ct(3), of "[c]" "[]"] by simp
qed

lemma show_int_plain: "c \<in> set (show_int i) \<Longrightarrow> sh_plain c"
  by (drule show_int_digits) (auto simp: sh_plain_def)

lemma show_int_not_Nil [simp]: "show_int i \<noteq> []"
  by (simp add: show_int_def)

section \<open>Searching\<close>

lemma index_of_Some:
  "index_of pat xs = Some n \<Longrightarrow> n + length pat \<le> length xs \<and> take (length pat) (drop n xs) = pat"
proof (induction pat xs arbitrary: n rule: index_of.induct)
  case (2 pat x xs)
  show ?case
  proof (cases "take (length pat) (x # xs) = pat")
    case True
    with "2.prems" show ?thesis by (metis add_0 drop0 index_of.simps(2) length_take min.cobounded1 option.inject)
  next
    case False
    with "2.prems" obtain m where "n = Suc m" "index_of pat xs = Some m" by auto
    with "2.IH" [OF False] show ?thesis by simp
  qed
qed (auto split: if_splits)

text \<open>The first occurrence does not depend on what follows it.\<close>

lemma index_of_append: "index_of pat xs = Some n \<Longrightarrow> index_of pat (xs @ ys) = Some n"
proof (induction pat xs arbitrary: n rule: index_of.induct)
  case (1 pat)
  then have "pat = []" "n = 0" by (auto split: if_splits)
  then show ?case by (cases ys) auto
next
  case (2 pat x xs)
  show ?case
  proof (cases "take (length pat) (x # xs) = pat")
    case True
    then have "length pat \<le> length (x # xs)" by (metis length_take min.cobounded1)
    with True have "take (length pat) ((x # xs) @ ys) = pat" by (metis append_Nil2 diff_is_0_eq' take0 take_append)
    with True "2.prems" show ?thesis by simp
  next
    case False
    with "2.prems" obtain m where m: "n = Suc m" "index_of pat xs = Some m" by auto
    then have "length pat \<le> length xs" using index_of_Some by fastforce
    with False have "take (length pat) ((x # xs) @ ys) \<noteq> pat"
      by (metis append_Nil2 diff_is_0_eq' le_SucI length_Cons take0 take_append)
    with m "2.IH" [OF False] show ?thesis by simp
  qed
qed

end
