(* ===== verification/AdbHandler.thy ===== *)
theory AdbHandler
  imports AdbText SessionClient
begin

text \<open>
  \<open>src/rpcproxy/handlers/adb_handler.py\<close>: the session of one Android device, with a persistent shell
  for the \<open>input\<close> commands whose outputs are told apart by a marker, and the dispatch of command bodies.

  The processes, the file system and the clock are outside; \<open>adb_world\<close> says how they answer during one
  command (each is asked at most once).  Commands that use the shell hold the session's lock, so they run one
  after another.  \<open>as_calls\<close> records what the session does to the outside.
\<close>

section \<open>State\<close>

record adb_handler_config =
  ac_serial :: "pystr option"
  ac_adb_bin :: pystr
  ac_screenshot_dir :: "pystr list"
  ac_shell_timeout :: pyfloat

text \<open>
  What one \<open>stdout.read(4096)\<close> under its timeout does: some bytes (none at the end of the stream), no
  answer in time, or another exception.
\<close>

datatype read_event = ReadBytes bytes | ReadTimeout | ReadRaises py_exn

text \<open>The persistent shell: its exit code, whether it has pipes, and what reads from it will return.\<close>

record shell_proc =
  sp_returncode :: "int option"
  sp_pipes :: bool
  sp_stdout :: "read_event list"

datatype adb_call =
    RunAdb "pystr list"
  | SpawnShell "pystr list"
  | WriteStdin bytes
  | CancelDrain
  | Terminate
  | Kill
  | WriteFile "pystr list" bytes

record adb_session =
  as_config :: adb_handler_config
  as_proc :: "shell_proc option"
  as_drain :: bool
  as_rx_buf :: bytes
  as_calls :: "adb_call list"

definition new_adb_session :: "adb_handler_config \<Rightarrow> adb_session" where
  "new_adb_session config =
     \<lparr>as_config = config, as_proc = None, as_drain = False, as_rx_buf = [], as_calls = []\<rparr>"

record adb_world =
  aw_get_state :: "py_exn + (int option \<times> bytes)"
  aw_get_serialno :: "py_exn + (int option \<times> bytes)"
  aw_spawn :: "py_exn + shell_proc"
  aw_exits :: bool
  aw_stdin :: "py_exn + unit"
  aw_screencap :: "py_exn + (int option \<times> bytes \<times> bytes)"
  aw_mkdir :: "py_exn + unit"
  aw_resolve :: "pystr list \<Rightarrow> pystr list"
  aw_write_bytes :: "py_exn + unit"
  aw_time_ms :: int
  aw_token :: pystr

section \<open>Coroutines of the session\<close>

type_synonym 'a adb = "(adb_session, 'a) co"

definition acall :: "adb_call \<Rightarrow> unit adb" where
  "acall c s = (s\<lparr>as_calls := as_calls s @ [c]\<rparr>, Returns ())"

definition base_args :: "adb_session \<Rightarrow> pystr list" where
  "base_args s =
     ac_adb_bin (as_config s) #
     (case ac_serial (as_config s) of None \<Rightarrow> [] | Some d \<Rightarrow> if d = [] then [] else [lit ''-s'', d])"

section \<open>The persistent shell\<close>

definition stop_shell_unlocked :: "adb_world \<Rightarrow> unit adb" where
  "stop_shell_unlocked W s =
     (s\<lparr>as_drain := False, as_proc := None, as_rx_buf := [],
        as_calls := as_calls s @ (if as_drain s then [CancelDrain] else []) @
          (case as_proc s of
             Some p \<Rightarrow> if sp_returncode p = None then Terminate # (if aw_exits W then [] else [Kill]) else []
           | None \<Rightarrow> [])\<rparr>, Returns ())"

definition adb_close :: "adb_world \<Rightarrow> unit adb" where
  "adb_close W = stop_shell_unlocked W"

definition run_adb_oneshot :: "py_exn + (int option \<times> bytes) \<Rightarrow> pystr list \<Rightarrow> (int \<times> bytes) adb" where
  "run_adb_oneshot answer tail =
     (\<lambda>s. abind (acall (RunAdb (base_args s @ tail))) (\<lambda>_.
          abind (alift answer) (\<lambda>(code, out). areturn (case code of None \<Rightarrow> - 1 | Some c \<Rightarrow> c, out))) s)"

definition ensure_device :: "pylib \<Rightarrow> adb_world \<Rightarrow> unit adb" where
  "ensure_device L W =
     abind (run_adb_oneshot (aw_get_state W) [lit ''get-state'']) (\<lambda>(code, out).
     let state = py_strip (utf8_decode_replace out)
     in if code \<noteq> 0 \<or> state \<noteq> lit ''device''
        then araise RuntimeError (lit ''adb device not ready (exit='' @ show_int code @ lit '', state='' @
               lib_repr L (PStr state) @ lit ''); check `adb devices`'')
        else areturn ())"

text \<open>\<open>bytes.strip\<close> removes ASCII white space.\<close>

definition blank_bytes :: "bytes \<Rightarrow> bool" where
  "blank_bytes bs \<longleftrightarrow> list_all (\<lambda>b. unat b \<in> {9, 10, 11, 12, 13, 32}) bs"

definition serial_for_display :: "adb_world \<Rightarrow> pystr adb" where
  "serial_for_display W =
     abind (run_adb_oneshot (aw_get_serialno W) [lit ''get-serialno'']) (\<lambda>(code, out) s.
       areturn (if code = 0 \<and> \<not> blank_bytes out then py_strip (utf8_decode_replace out)
                else case ac_serial (as_config s) of None \<Rightarrow> [] | Some d \<Rightarrow> d) s)"

definition ADB_READ_LOOP_SH_C :: pystr where
  "ADB_READ_LOOP_SH_C =
     lit ''while IFS= read -r line; do sh -c \"$line\"; printf \"'' @ [92] @ lit ''n'' @ SHELL_MARKER @ [92] @
     lit ''n\"; done''"

definition start_shell_unlocked :: "pylib \<Rightarrow> adb_world \<Rightarrow> unit adb" where
  "start_shell_unlocked L W =
     abind (ensure_device L W) (\<lambda>_ s.
       let s = s\<lparr>as_rx_buf := []\<rparr>
       in abind (acall (SpawnShell (base_args s @ [lit ''shell'', lit ''sh'', lit ''-c'', ADB_READ_LOOP_SH_C]))) (\<lambda>_.
          abind (alift (aw_spawn W)) (\<lambda>p s.
          let s = s\<lparr>as_proc := Some p\<rparr>
          in if \<not> sp_pipes p then araise RuntimeError (lit ''adb shell missing stdio pipes'') s
             else areturn () (s\<lparr>as_drain := True\<rparr>))) s)"

definition ensure_shell_unlocked :: "pylib \<Rightarrow> adb_world \<Rightarrow> unit adb" where
  "ensure_shell_unlocked L W s =
     (case as_proc s of
        Some p \<Rightarrow> if sp_returncode p = None then (s, Returns ())
                  else abind (stop_shell_unlocked W) (\<lambda>_. start_shell_unlocked L W) s
      | None \<Rightarrow> abind (stop_shell_unlocked W) (\<lambda>_. start_shell_unlocked L W) s)"

section \<open>One line of the shell\<close>

text \<open>
  The loop that reads until the marker is in the buffer.  Its results: the buffer then and the reads to
  come, or why it ended before; it has not ended while the device is silent.
\<close>

datatype read_end = Marked bytes "read_event list" | TimedOut | StreamClosed | TooLarge
  | Interrupted py_exn bytes "read_event list" | Silent bytes

definition MAX_OUTPUT :: nat where
  "MAX_OUTPUT = 2000000"

fun read_until_marker :: "bytes \<Rightarrow> read_event list \<Rightarrow> read_end" where
  "read_until_marker buf [] = (if index_of MARKER_BYTES buf \<noteq> None then Marked buf [] else Silent buf)"
| "read_until_marker buf (ev # evs) =
     (if index_of MARKER_BYTES buf \<noteq> None then Marked buf (ev # evs)
      else case ev of
        ReadTimeout \<Rightarrow> TimedOut
      | ReadRaises e \<Rightarrow> Interrupted e buf evs
      | ReadBytes chunk \<Rightarrow>
          if chunk = [] then StreamClosed
          else if length (buf @ chunk) > MAX_OUTPUT then TooLarge
          else read_until_marker (buf @ chunk) evs)"

definition set_stream :: "bytes \<Rightarrow> read_event list \<Rightarrow> adb_session \<Rightarrow> adb_session" where
  "set_stream buf evs s = s\<lparr>as_rx_buf := buf, as_proc := map_option (\<lambda>p. p\<lparr>sp_stdout := evs\<rparr>) (as_proc s)\<rparr>"

definition take_output :: "bytes \<Rightarrow> read_event list \<Rightarrow> pystr adb" where
  "take_output buf evs s =
     (let idx = the (index_of MARKER_BYTES buf)
      in (set_stream (drop (idx + length MARKER_BYTES) buf) evs s, Returns (utf8_decode_replace (take idx buf))))"

definition run_shell_line :: "adb_world \<Rightarrow> pystr \<Rightarrow> pystr adb" where
  "run_shell_line W line s =
     (if 10 \<in> set line \<or> 13 \<in> set line then araise ValueError (lit ''command must be a single line'') s
      else case as_proc s of
        None \<Rightarrow> araise RuntimeError (lit ''adb shell not started'') s
      | Some p \<Rightarrow>
          if \<not> sp_pipes p then araise RuntimeError (lit ''adb shell not started'') s
          else if sp_returncode p \<noteq> None then araise RuntimeError (lit ''adb shell not running'') s
          else abind (alift (utf8_encode (line @ [10]))) (\<lambda>bs.
               abind (acall (WriteStdin bs)) (\<lambda>_.
               abind (alift (aw_stdin W)) (\<lambda>_ s.
               case read_until_marker (as_rx_buf s) (sp_stdout p) of
                 Marked buf evs \<Rightarrow> take_output buf evs s
               | TimedOut \<Rightarrow> abind (stop_shell_unlocked W) (\<lambda>_. araise RuntimeError (lit ''adb shell command timed out'')) s
               | StreamClosed \<Rightarrow> abind (stop_shell_unlocked W) (\<lambda>_. araise RuntimeError (lit ''adb shell closed unexpectedly'')) s
               | TooLarge \<Rightarrow> abind (stop_shell_unlocked W) (\<lambda>_. araise RuntimeError (lit ''adb shell output too large'')) s
               | Interrupted e buf evs \<Rightarrow> (set_stream buf evs s, Raises e)
               | Silent buf \<Rightarrow> (set_stream buf [] s, Waits)))) s)"

section \<open>Commands\<close>

definition shell_command :: "pylib \<Rightarrow> adb_world \<Rightarrow> pystr \<Rightarrow> pystr adb" where
  "shell_command L W line = abind (ensure_shell_unlocked L W) (\<lambda>_. run_shell_line W line)"

definition cmd_ping :: "pylib \<Rightarrow> adb_world \<Rightarrow> pydict \<Rightarrow> pystr \<Rightarrow> pydict adb" where
  "cmd_ping L W body request_id =
     abind (ensure_device L W) (\<lambda>_.
     abind (serial_for_display W) (\<lambda>serial.
     areturn [(lit ''ok'', PBool True), (lit ''serial'', PStr serial)]))"

definition exec_out_screencap :: "adb_world \<Rightarrow> bytes adb" where
  "exec_out_screencap W s =
     abind (acall (RunAdb (base_args s @ [lit ''exec-out'', lit ''screencap'', lit ''-p'']))) (\<lambda>_.
     abind (alift (aw_screencap W)) (\<lambda>(code, out, err).
     let code = (case code of None \<Rightarrow> - 1 | Some c \<Rightarrow> c)
     in if code \<noteq> 0
        then (let e = py_strip (utf8_decode_replace err);
                  msg = (if e \<noteq> [] then e else take 200 (utf8_decode_replace out))
              in araise RuntimeError (lit ''screencap failed (exit='' @ show_int code @ lit ''): '' @ msg))
        else if length out < 8 \<or>
                \<not> (take 6 out = [137, 80, 78, 71, 13, 10] \<or> take 5 out = [137, 80, 78, 71, 10])
        then araise RuntimeError (lit ''screencap did not return PNG data'')
        else areturn out)) s"

text \<open>The file name a screenshot gets, or none if the body's is refused.\<close>

definition screenshot_name :: "adb_world \<Rightarrow> pydict \<Rightarrow> pystr \<Rightarrow> pystr option" where
  "screenshot_name W body request_id =
     (case get body ''filename'' of
        PNone \<Rightarrow>
          (let rid = take 64 (sub_id (py_strip request_id));
               suffix = (if rid \<noteq> [] then lit ''_'' @ rid else [])
           in Some (lit ''screenshot_'' @ show_int (aw_time_ms W) @ suffix @ lit ''_'' @ aw_token W @ lit ''.png''))
      | PStr fn_in \<Rightarrow>
          if \<not> safe_filename fn_in then None
          else Some (if ends_png fn_in then fn_in else fn_in @ lit ''.png'')
      | _ \<Rightarrow> None)"

text \<open>\<open>str(path)\<close> of an absolute path\<close>

definition path_str :: "pystr list \<Rightarrow> pystr" where
  "path_str parts = (if parts = [] then lit ''/'' else concat (map (\<lambda>p. 47 # p) parts))"

definition cmd_screenshot :: "pylib \<Rightarrow> adb_world \<Rightarrow> pydict \<Rightarrow> pystr \<Rightarrow> pydict adb" where
  "cmd_screenshot L W body request_id =
     abind (ensure_device L W) (\<lambda>_.
     abind (exec_out_screencap W) (\<lambda>raw.
     abind (alift (aw_mkdir W)) (\<lambda>_ s.
     case screenshot_name W body request_id of
       None \<Rightarrow> areturn (error_result ''invalid 'filename' (use a single path segment, no ..)'' ''screenshot'') s
     | Some name \<Rightarrow>
         let dir = ac_screenshot_dir (as_config s);
             path = aw_resolve W (dir @ [name]);
             root = aw_resolve W dir
         in if take (length root) path \<noteq> root
            then areturn (error_result ''invalid screenshot path'' ''screenshot'') s
            else abind (acall (WriteFile path raw)) (\<lambda>_.
                 abind (alift (aw_write_bytes W)) (\<lambda>_.
                 areturn [(lit ''ok'', PBool True), (lit ''path'', PStr (path_str path)),
                          (lit ''size_bytes'', PInt (int (length raw)))])) s)))"

definition cmd_tap :: "pylib \<Rightarrow> adb_world \<Rightarrow> pydict \<Rightarrow> pystr \<Rightarrow> pydict adb" where
  "cmd_tap L W body request_id =
     (case (parse_int body ''x'', parse_int body ''y'') of
        (Some x, Some y) \<Rightarrow>
          abind (shell_command L W (lit ''input tap '' @ show_int x @ lit '' '' @ show_int y)) (\<lambda>out.
          areturn [(lit ''ok'', PBool True), (lit ''x'', PInt x), (lit ''y'', PInt y),
                   (lit ''shell_output'', PStr (py_strip out))])
      | _ \<Rightarrow> areturn (error_result '''x' and 'y' must be integers'' ''tap''))"

definition cmd_swipe :: "pylib \<Rightarrow> adb_world \<Rightarrow> pydict \<Rightarrow> pystr \<Rightarrow> pydict adb" where
  "cmd_swipe L W body request_id =
     (case (parse_int body ''x1'', parse_int body ''y1'', parse_int body ''x2'', parse_int body ''y2'') of
        (Some x1, Some y1, Some x2, Some y2) \<Rightarrow>
          (let dur = (case parse_int body ''duration_ms'' of None \<Rightarrow> 300 | Some d \<Rightarrow> d)
           in if dur < 0 \<or> dur > 60000
              then areturn (error_result ''duration_ms must be between 0 and 60000'' ''swipe'')
              else abind (shell_command L W (lit ''input swipe '' @ show_int x1 @ lit '' '' @ show_int y1 @ lit '' '' @
                            show_int x2 @ lit '' '' @ show_int y2 @ lit '' '' @ show_int dur)) (\<lambda>out.
                   areturn [(lit ''ok'', PBool True), (lit ''x1'', PInt x1), (lit ''y1'', PInt y1),
                            (lit ''x2'', PInt x2), (lit ''y2'', PInt y2), (lit ''duration_ms'', PInt dur),
                            (lit ''shell_output'', PStr (py_strip out))]))
      | _ \<Rightarrow> areturn (error_result ''x1,y1,x2,y2 must be integers'' ''swipe''))"

definition cmd_input_text :: "pylib \<Rightarrow> adb_world \<Rightarrow> pydict \<Rightarrow> pystr \<Rightarrow> pydict adb" where
  "cmd_input_text L W body request_id =
     (case get body ''text'' of
        PStr t \<Rightarrow>
          (case escape_input_text_for_android t of
             Inl e \<Rightarrow>
               areturn [(lit ''ok'', PBool False), (lit ''error'', PStr (exn_msg e)), (lit ''command'', PStr (lit ''input_text''))]
           | Inr escaped \<Rightarrow>
               abind (shell_command L W (lit ''input text '' @ shell_single_quote escaped)) (\<lambda>out.
               areturn [(lit ''ok'', PBool True), (lit ''shell_output'', PStr (py_strip out))]))
      | _ \<Rightarrow> areturn (error_result '''text' must be a string'' ''input_text''))"

section \<open>Dispatch\<close>

definition adb_commands :: "pylib \<Rightarrow> adb_world \<Rightarrow> (pystr \<times> (pydict \<Rightarrow> pystr \<Rightarrow> pydict adb)) list" where
  "adb_commands L W =
     [(lit ''ping'', cmd_ping L W), (lit ''screenshot'', cmd_screenshot L W), (lit ''tap'', cmd_tap L W),
      (lit ''swipe'', cmd_swipe L W), (lit ''input_text'', cmd_input_text L W)]"

definition handle_command :: "pylib \<Rightarrow> adb_world \<Rightarrow> pydict \<Rightarrow> pystr \<Rightarrow> pydict adb" where
  "handle_command L W body request_id s =
     (case get body ''command'' of
        PStr c \<Rightarrow>
          if py_strip c = []
          then (s, Returns [(lit ''ok'', PBool False), (lit ''error'', PStr (lit ''missing or invalid '' @ [39] @ lit ''command'' @ [39])),
                            (lit ''command'', PStr c)])
          else let cmd = py_strip c
               in (case map_of (adb_commands L W) cmd of
                     None \<Rightarrow> (s, Returns [(lit ''ok'', PBool False),
                                (lit ''error'', PStr (lit ''unknown command: '' @ lib_repr L (PStr cmd))),
                                (lit ''command'', PStr cmd)])
                   | Some fn \<Rightarrow>
                       (case fn body request_id s of
                          (s', Returns out) \<Rightarrow> (s', Returns (dict_setdefault (lit ''command'') (PStr cmd) out))
                        | (s', Raises e) \<Rightarrow>
                            (s', if is_exception e
                                 then Returns [(lit ''ok'', PBool False), (lit ''error'', PStr (exn_msg e)),
                                        (lit ''error_type'', PStr (exn_name (exn_class e))), (lit ''command'', PStr cmd)]
                                 else Raises e)
                        | (s', Waits) \<Rightarrow> (s', Waits)))
      | _ \<Rightarrow> (s, Returns [(lit ''ok'', PBool False), (lit ''error'', PStr (lit ''missing or invalid '' @ [39] @ lit ''command'' @ [39])),
                         (lit ''command'', PNone)]))"

text \<open>The handler that a client with this session runs on each envelope\<close>

definition adb_envelope_handler :: "pylib \<Rightarrow> adb_world \<Rightarrow> pydict option \<Rightarrow> pystr \<Rightarrow> pydict adb" where
  "adb_envelope_handler L W body request_id = session_handler (handle_command L W) Returns body request_id"

section \<open>\<open>AdbRpcProxyClient\<close>\<close>

definition DEFAULT_SHELL_TIMEOUT :: pyfloat where
  "DEFAULT_SHELL_TIMEOUT = FFin 60 0"

text \<open>The default configuration; \<open>cache\<close> is the path of \<open>user_cache_dir("rpcproxy")\<close>.\<close>

definition default_screenshot_dir :: "pystr list \<Rightarrow> pystr list" where
  "default_screenshot_dir cache = cache @ [lit ''adb_screenshots'']"

definition default_adb_config :: "pystr list \<Rightarrow> adb_handler_config" where
  "default_adb_config cache =
     \<lparr>ac_serial = None, ac_adb_bin = lit ''adb'', ac_screenshot_dir = default_screenshot_dir cache,
      ac_shell_timeout = DEFAULT_SHELL_TIMEOUT\<rparr>"

definition new_adb_client ::
    "pystr list \<Rightarrow> adb_handler_config option \<Rightarrow> py_exn + client \<Rightarrow> handler_config \<Rightarrow>
     py_exn + (client \<times> handler_config) \<times> adb_session" where
  "new_adb_client cache config base cfg =
     new_session_client (new_adb_session (case config of None \<Rightarrow> default_adb_config cache | Some c \<Rightarrow> c)) base cfg"

definition adb_pipeline ::
    "pylib \<Rightarrow> adb_world \<Rightarrow> handler_config \<Rightarrow> 't remote_call \<Rightarrow> pystr \<Rightarrow> pydict \<Rightarrow> adb_session \<Rightarrow> 't \<Rightarrow>
     adb_session \<times> 't \<times> (py_exn + unit) option" where
  "adb_pipeline L W = session_pipeline outcome_value outcome_exn (adb_envelope_handler L W) L"

definition adb_client_close ::
    "adb_world \<Rightarrow> py_exn + unit \<Rightarrow> client \<times> adb_session \<Rightarrow> (client \<times> adb_session) \<times> unit outcome" where
  "adb_client_close W out st = session_client_close out (adb_close W) st"

end
