(* ===== verification/AdbFacts.thy ===== *)
theory AdbFacts
  imports AdbHandler
begin

text \<open>
  Lemmas on the ADB session: what a coroutine adds to the record of calls, the framing of shell
  outputs by the marker, and the answers of the commands; the session is a \<open>command_session\<close>.
\<close>

section \<open>Evaluation of coroutines\<close>

lemma acall_apply [simp]: "acall c s = (s\<lparr>as_calls := as_calls s @ [c]\<rparr>, Returns ())"
  by (simp add: acall_def)

lemma abind_acall [simp]: "abind (acall c) f s = f () (s\<lparr>as_calls := as_calls s @ [c]\<rparr>)"
  by (simp add: abind_def)

section \<open>What a coroutine does to the outside\<close>

text \<open>\<open>emits P m\<close>: \<open>m\<close> only appends to the record of calls, and only calls with \<open>P\<close>.\<close>

definition emits :: "(adb_call \<Rightarrow> bool) \<Rightarrow> 'a adb \<Rightarrow> bool" where
  "emits P m \<longleftrightarrow> (\<forall>s. \<exists>new. as_calls (fst (m s)) = as_calls s @ new \<and> (\<forall>c \<in> set new. P c))"

named_theorems emits_rules "which calls a coroutine makes"

lemma emits_quiet: "(\<And>s. as_calls (fst (m s)) = as_calls s) \<Longrightarrow> emits P m"
  by (auto simp: emits_def)

lemma emits_areturn [emits_rules]: "emits P (areturn x)"
  by (rule emits_quiet) simp

lemma emits_araise [emits_rules]: "emits P (araise c m)"
  by (rule emits_quiet) simp

lemma emits_alift [emits_rules]: "emits P (alift r)"
  by (rule emits_quiet) (simp add: alift_def)

lemma emits_acall [emits_rules]: "P c \<Longrightarrow> emits P (acall c)"
  by (simp add: emits_def)

lemma emitsD: "emits P m \<Longrightarrow> m s = (s', r) \<Longrightarrow> \<exists>new. as_calls s' = as_calls s @ new \<and> (\<forall>c \<in> set new. P c)"
  by (metis emits_def fst_conv)

lemma emits_abind [emits_rules]:
  assumes "emits P m" "\<And>x. emits P (f x)"
  shows "emits P (abind m f)"
  unfolding emits_def
proof
  fix s
  show "\<exists>new. as_calls (fst (abind m f s)) = as_calls s @ new \<and> (\<forall>c \<in> set new. P c)"
  proof (cases rule: abind_split [of m s f])
    case (ret s' x)
    from emitsD [OF assms(1) ret(1)] obtain new where new: "as_calls s' = as_calls s @ new" "\<forall>c \<in> set new. P c" by blast
    obtain s'' r where "f x s' = (s'', r)" by fastforce
    with emitsD [OF assms(2) this] ret new show ?thesis by fastforce
  qed (use emitsD [OF assms(1)] in fastforce)+
qed

text \<open>A coroutine that looks at the session before it goes on\<close>

lemma emits_state: "(\<And>s. emits P (g s)) \<Longrightarrow> emits P (\<lambda>s. g s s)"
  unfolding emits_def by blast

lemma emits_update: "(\<And>s. as_calls (h s) = as_calls s) \<Longrightarrow> (\<And>s. emits P (g s)) \<Longrightarrow> emits P (\<lambda>s. g s (h s))"
  unfolding emits_def by metis

lemma emits_prod [emits_rules]: "(\<And>a b. emits P (f a b)) \<Longrightarrow> emits P (case x of (a, b) \<Rightarrow> f a b)"
  by (cases x) simp

lemma emits_if [emits_rules]: "(b \<Longrightarrow> emits P m) \<Longrightarrow> (\<not> b \<Longrightarrow> emits P m') \<Longrightarrow> emits P (if b then m else m')"
  by simp

lemma emits_Let [emits_rules]: "(\<And>x. emits P (f x)) \<Longrightarrow> emits P (Let y f)"
  by (simp add: Let_def)

definition no_write :: "adb_call \<Rightarrow> bool" where
  "no_write c \<longleftrightarrow> (\<forall>bs. c \<noteq> WriteStdin bs)"

lemma no_write_simps [simp, emits_rules]:
  "no_write (RunAdb a)" "no_write (SpawnShell a)" "no_write CancelDrain" "no_write Terminate" "no_write Kill"
  "no_write (WriteFile f b)"
  by (simp_all add: no_write_def)

lemma emits_oneshot [emits_rules]: "emits no_write (run_adb_oneshot a t)"
  unfolding run_adb_oneshot_def by (rule emits_state) (intro emits_rules)

lemma emits_ensure_device [emits_rules]: "emits no_write (ensure_device L W)"
  unfolding ensure_device_def by (intro emits_rules)

lemma emits_serial [emits_rules]: "emits no_write (serial_for_display W)"
  unfolding serial_for_display_def
  by (intro emits_rules) (rule emits_state, intro emits_rules)

lemma emits_stop [emits_rules]: "emits no_write (stop_shell_unlocked W)"
  by (auto simp: emits_def stop_shell_unlocked_def split: option.splits)

lemma emits_screencap [emits_rules]: "emits no_write (exec_out_screencap W)"
  unfolding exec_out_screencap_def by (rule emits_state) (intro emits_rules)

lemma emits_start [emits_rules]: "emits no_write (start_shell_unlocked L W)"
  unfolding start_shell_unlocked_def
proof (rule emits_abind [OF emits_ensure_device], unfold emits_def, rule allI)
  show "\<exists>new. as_calls (fst (let s = s\<lparr>as_rx_buf := []\<rparr>
       in abind (acall (SpawnShell (base_args s @ [lit ''shell'', lit ''sh'', lit ''-c'', ADB_READ_LOOP_SH_C]))) (\<lambda>_.
          abind (alift (aw_spawn W)) (\<lambda>p s.
          let s = s\<lparr>as_proc := Some p\<rparr>
          in if \<not> sp_pipes p then araise RuntimeError (lit ''adb shell missing stdio pipes'') s
             else areturn () (s\<lparr>as_drain := True\<rparr>))) s)) = as_calls s @ new \<and> (\<forall>c \<in> set new. no_write c)" for s
    by (cases "aw_spawn W") (simp_all add: Let_def abind_def)
qed

lemma emits_ensure_shell [emits_rules]: "emits no_write (ensure_shell_unlocked L W)"
proof -
  have restart: "emits no_write (abind (stop_shell_unlocked W) (\<lambda>_. start_shell_unlocked L W))"
    by (intro emits_rules)
  show ?thesis
    unfolding emits_def
  proof
    fix s
    show "\<exists>new. as_calls (fst (ensure_shell_unlocked L W s)) = as_calls s @ new \<and> (\<forall>c \<in> set new. no_write c)"
      using restart [unfolded emits_def, rule_format, of s]
      by (auto simp: ensure_shell_unlocked_def split: option.split)
  qed
qed

section \<open>The lines written to the device's shell\<close>

text \<open>
  What a command may write: one line that the shell splits into the words of an \<open>input tap\<close>, an
  \<open>input swipe\<close> or an \<open>input text\<close>, with the numbers or the text of its body as the arguments.
\<close>

definition input_words :: "pydict \<Rightarrow> pystr list \<Rightarrow> bool" where
  "input_words body ws \<longleftrightarrow>
     (\<exists>x y. parse_int body ''x'' = Some x \<and> parse_int body ''y'' = Some y \<and>
        ws = [lit ''input'', lit ''tap'', show_int x, show_int y]) \<or>
     (\<exists>a b c d t. parse_int body ''x1'' = Some a \<and> parse_int body ''y1'' = Some b \<and>
        parse_int body ''x2'' = Some c \<and> parse_int body ''y2'' = Some d \<and> 0 \<le> t \<and> t \<le> 60000 \<and>
        ws = [lit ''input'', lit ''swipe'', show_int a, show_int b, show_int c, show_int d, show_int t]) \<or>
     (\<exists>t e. get body ''text'' = PStr t \<and> escape_input_text_for_android t = Inr e \<and>
        ws = [lit ''input'', lit ''text'', e] \<and> e \<noteq> [] \<and> (\<forall>c \<in> set e. input_char c \<and> c \<noteq> 32))"

definition device_line :: "pydict \<Rightarrow> adb_call \<Rightarrow> bool" where
  "device_line body c \<longleftrightarrow>
     (case c of
        WriteStdin bs \<Rightarrow> \<exists>line ws. utf8_encode (line @ [10]) = Inr bs \<and> 10 \<notin> set line \<and> 13 \<notin> set line \<and>
          sh_words line = Some ws \<and> input_words body ws
      | _ \<Rightarrow> True)"

lemma no_write_device_line: "no_write c \<Longrightarrow> device_line body c"
  by (cases c) (simp_all add: no_write_def device_line_def)

lemma emits_mono: "emits P m \<Longrightarrow> (\<And>c. P c \<Longrightarrow> Q c) \<Longrightarrow> emits Q m"
  unfolding emits_def by blast

lemma emits_quiet_line: "emits no_write m \<Longrightarrow> emits (device_line body) m"
  by (erule emits_mono) (rule no_write_device_line)

lemma stop_then: "emits no_write (abind (stop_shell_unlocked W) (\<lambda>_. araise c m))"
  by (intro emits_rules)

lemma emits_run_shell_line:
  assumes "10 \<notin> set line \<and> 13 \<notin> set line \<Longrightarrow> \<exists>ws. sh_words line = Some ws \<and> input_words body ws"
  shows "emits (device_line body) (run_shell_line W line)"
  unfolding emits_def
proof
  fix s :: adb_session
  let ?Q = "\<lambda>s' :: adb_session. \<exists>new. as_calls s' = as_calls s @ new \<and> (\<forall>c \<in> set new. device_line body c)"
  have keep: "?Q s" by simp
  show "?Q (fst (run_shell_line W line s))"
  proof (cases "10 \<in> set line \<or> 13 \<in> set line")
    case True
    then show ?thesis by (simp add: run_shell_line_def)
  next
    case single: False
    show ?thesis
    proof (cases "\<exists>p bs. as_proc s = Some p \<and> sp_pipes p \<and> sp_returncode p = None \<and> utf8_encode (line @ [10]) = Inr bs")
      case False
      with single show ?thesis
        by (cases "utf8_encode (line @ [10])") (auto simp: run_shell_line_def abind_def split: option.split)
    next
      case True
      then obtain p bs where p: "as_proc s = Some p" "sp_pipes p" "sp_returncode p = None"
        and bs: "utf8_encode (line @ [10]) = Inr bs" by blast
      let ?s = "s\<lparr>as_calls := as_calls s @ [WriteStdin bs]\<rparr>"
      have written: "device_line body (WriteStdin bs)"
        using assms single bs by (auto simp: device_line_def)
      show ?thesis
      proof (cases "aw_stdin W")
        case (Inl e)
        with single p bs written show ?thesis by (simp add: run_shell_line_def abind_def)
      next
        case (Inr u)
        have stop: "?Q (fst (abind (stop_shell_unlocked W) (\<lambda>_. araise RuntimeError m) ?s))" for m
          using stop_then [unfolded emits_def, rule_format, of W RuntimeError m ?s] written
          by (fastforce intro: no_write_device_line)
        have out: "?Q (fst (take_output buf evs ?s))" for buf evs
          using written by (simp add: take_output_def set_stream_def Let_def)
        show ?thesis
          using single p bs Inr stop out written
          by (cases "read_until_marker (as_rx_buf s) (sp_stdout p)")
            (simp_all add: run_shell_line_def set_stream_def)
      qed
    qed
  qed
qed

lemma emits_shell_command:
  assumes "10 \<notin> set line \<and> 13 \<notin> set line \<Longrightarrow> \<exists>ws. sh_words line = Some ws \<and> input_words body ws"
  shows "emits (device_line body) (shell_command L W line)"
  unfolding shell_command_def
  by (intro emits_rules emits_quiet_line [OF emits_ensure_shell] emits_run_shell_line assms)

lemma sh_words_numbers:
  "sh_words (lit ''input tap '' @ show_int x @ lit '' '' @ show_int y) =
     Some [lit ''input'', lit ''tap'', show_int x, show_int y]"
  "sh_words (lit ''input swipe '' @ show_int a @ lit '' '' @ show_int b @ lit '' '' @ show_int c @ lit '' '' @
     show_int d @ lit '' '' @ show_int t) =
     Some [lit ''input'', lit ''swipe'', show_int a, show_int b, show_int c, show_int d, show_int t]"
proof -
  have words: "lit ''input tap '' = lit ''input'' @ 32 # lit ''tap'' @ [32]"
    "lit ''input swipe '' = lit ''input'' @ 32 # lit ''swipe'' @ [32]" "lit '' '' = [32]"
    by (simp_all add: lit_Cons)
  have plain: "\<forall>c \<in> set (lit ''input''). sh_plain c" "\<forall>c \<in> set (lit ''tap''). sh_plain c"
    "\<forall>c \<in> set (lit ''swipe''). sh_plain c" "\<forall>c \<in> set (show_int i). sh_plain c" for i
    by (auto simp: lit_Cons sh_plain_def dest: show_int_plain)
  show "sh_words (lit ''input tap '' @ show_int x @ lit '' '' @ show_int y) =
     Some [lit ''input'', lit ''tap'', show_int x, show_int y]"
    "sh_words (lit ''input swipe '' @ show_int a @ lit '' '' @ show_int b @ lit '' '' @ show_int c @ lit '' '' @
     show_int d @ lit '' '' @ show_int t) =
     Some [lit ''input'', lit ''swipe'', show_int a, show_int b, show_int c, show_int d, show_int t]"
    by (simp_all add: sh_words_def words sh_scan_word [OF plain(1)] sh_scan_word [OF plain(2)]
        sh_scan_word [OF plain(3)] sh_scan_word [OF plain(4)])
qed

lemma sh_words_text: "sh_words (lit ''input text '' @ shell_single_quote t) = Some [lit ''input'', lit ''text'', t]"
proof -
  have words: "lit ''input text '' = lit ''input'' @ 32 # lit ''text'' @ [32]" by (simp add: lit_Cons)
  have plain: "\<forall>c \<in> set (lit ''input''). sh_plain c" "\<forall>c \<in> set (lit ''text''). sh_plain c"
    by (simp_all add: lit_Cons sh_plain_def)
  have "sh_scan Between (shell_single_quote t @ []) = Some [t]" unfolding sh_scan_single_quote by simp
  then show ?thesis
    by (simp add: sh_words_def words sh_scan_word [OF plain(1)] sh_scan_word [OF plain(2)])
qed

lemma escape_chars:
  assumes "escape_input_text_for_android t = Inr e"
  shows "e \<noteq> [] \<and> (\<forall>c \<in> set e. c \<noteq> 10 \<longrightarrow> input_char c \<and> c \<noteq> 32)"
proof -
  have ok: "input_text_allowed t" and e: "e = concat (map (\<lambda>c. if c = 32 then [37, 115] else [c]) t)"
    using assms by (auto simp: escape_input_text_for_android_def split: if_splits)
  have t: "t \<noteq> []" "\<And>c. c \<in> set t \<Longrightarrow> c = 10 \<or> input_char c"
  proof -
    show "t \<noteq> []" using ok by (auto simp: input_text_allowed_def)
    fix c assume "c \<in> set t"
    show "c = 10 \<or> input_char c"
    proof (cases "last t = 10")
      case True
      with ok \<open>t \<noteq> []\<close> have "list_all input_char (butlast t)" by (simp add: input_text_allowed_def Let_def)
      moreover have "c \<in> set (butlast t @ [last t])"
        using \<open>c \<in> set t\<close> \<open>t \<noteq> []\<close> by (simp del: set_append)
      ultimately show ?thesis using True by (auto simp: list.pred_set)
    next
      case False
      with ok \<open>t \<noteq> []\<close> \<open>c \<in> set t\<close> show ?thesis by (simp add: input_text_allowed_def Let_def list.pred_set)
    qed
  qed
  have "input_char 37" "input_char 115" by (simp_all add: input_char_def)
  with t show ?thesis by (cases t) (auto simp: e split: if_splits)
qed

section \<open>Every command\<close>

lemma emits_ping [emits_rules]: "emits no_write (cmd_ping L W body rid)"
  unfolding cmd_ping_def by (intro emits_rules)

lemma emits_screenshot [emits_rules]: "emits no_write (cmd_screenshot L W body rid)"
  unfolding cmd_screenshot_def
proof (intro emits_rules, unfold emits_def, rule allI)
  show "\<exists>new. as_calls (fst (case screenshot_name W body rid of
       None \<Rightarrow> areturn (error_result m c) s
     | Some name \<Rightarrow>
         let dir = ac_screenshot_dir (as_config s); path = aw_resolve W (dir @ [name]); root = aw_resolve W dir
         in if take (length root) path \<noteq> root then areturn (error_result m' c) s
            else abind (acall (WriteFile path raw)) (\<lambda>_. abind (alift (aw_write_bytes W)) (\<lambda>_.
                 areturn [(lit ''ok'', PBool True), (lit ''path'', PStr (path_str path)),
                          (lit ''size_bytes'', PInt (int (length raw)))])) s)) = as_calls s @ new \<and>
     (\<forall>c \<in> set new. no_write c)" for m m' c raw s
    by (cases "aw_write_bytes W") (auto simp: Let_def abind_def split: option.split)
qed

lemma emits_tap: "emits (device_line body) (cmd_tap L W body rid)"
proof -
  have tap: "emits (device_line body) (shell_command L W (lit ''input tap '' @ show_int x @ lit '' '' @ show_int y))"
    if "parse_int body ''x'' = Some x" "parse_int body ''y'' = Some y" for x y
    by (rule emits_shell_command) (use that in \<open>auto simp: sh_words_numbers input_words_def\<close>)
  show ?thesis
    unfolding cmd_tap_def by (auto split: option.split intro!: emits_rules tap)
qed

lemma emits_swipe: "emits (device_line body) (cmd_swipe L W body rid)"
proof -
  have swipe: "emits (device_line body) (shell_command L W (lit ''input swipe '' @ show_int a @ lit '' '' @ show_int b @ lit '' '' @
      show_int c @ lit '' '' @ show_int d @ lit '' '' @ show_int t))"
    if "\<not> t < 0" "\<not> 60000 < t" "parse_int body ''x1'' = Some a" "parse_int body ''y1'' = Some b"
      "parse_int body ''x2'' = Some c" "parse_int body ''y2'' = Some d" for a b c d t
    by (rule emits_shell_command) (use that in \<open>auto simp: sh_words_numbers input_words_def\<close>)
  show ?thesis
    unfolding cmd_swipe_def Let_def
    by (auto split: option.split intro!: emits_rules swipe)
qed

lemma emits_input_text: "emits (device_line body) (cmd_input_text L W body rid)"
proof -
  have line: "emits (device_line body) (shell_command L W (lit ''input text '' @ shell_single_quote e))"
    if "escape_input_text_for_android t = Inr e" "get body ''text'' = PStr t" for t e
  proof (rule emits_shell_command)
    assume "10 \<notin> set (lit ''input text '' @ shell_single_quote e) \<and> 13 \<notin> set (lit ''input text '' @ shell_single_quote e)"
    then have "10 \<notin> set e" by (fastforce simp: shell_single_quote_def)
    with escape_chars [OF that(1)] that show "\<exists>ws. sh_words (lit ''input text '' @ shell_single_quote e) = Some ws \<and> input_words body ws"
      unfolding sh_words_text input_words_def by metis
  qed
  show ?thesis
    unfolding cmd_input_text_def by (auto split: pyval.split sum.split intro!: emits_rules line)
qed

lemma emits_handle_command: "emits (device_line body) (handle_command L W body rid)"
  unfolding emits_def
proof
  fix s :: adb_session
  show "\<exists>new. as_calls (fst (handle_command L W body rid s)) = as_calls s @ new \<and> (\<forall>c \<in> set new. device_line body c)"
  proof (cases "\<exists>c fn. get body ''command'' = PStr c \<and> py_strip c \<noteq> [] \<and> map_of (adb_commands L W) (py_strip c) = Some fn")
    case False
    then have "fst (handle_command L W body rid s) = s"
      by (auto simp: handle_command_def Let_def split: pyval.split option.split)
    then show ?thesis by simp
  next
    case True
    then obtain c fn where c: "get body ''command'' = PStr c" "py_strip c \<noteq> []" "map_of (adb_commands L W) (py_strip c) = Some fn"
      by blast
    from map_of_SomeD [OF c(3)] have "emits (device_line body) (fn body rid)"
      using emits_quiet_line [OF emits_ping] emits_quiet_line [OF emits_screenshot] emits_tap emits_swipe emits_input_text
      by (auto simp: adb_commands_def)
    moreover obtain s' r where r: "fn body rid s = (s', r)" by fastforce
    moreover from c r have "fst (handle_command L W body rid s) = s'"
      by (cases r) (auto simp: handle_command_def Let_def)
    ultimately show ?thesis using emitsD [of "device_line body" "fn body rid" s s' r] by simp
  qed
qed

section \<open>Framing\<close>

lemma read_until_marker_frame:
  assumes "index_of MARKER_BYTES (out @ MARKER_BYTES) = Some (length out)"
    and "buf @ concat chunks = out @ MARKER_BYTES @ rest"
    and "\<forall>c \<in> set chunks. c \<noteq> []" "length (buf @ concat chunks) \<le> MAX_OUTPUT"
  shows "\<exists>buf' chunks'. read_until_marker buf (map ReadBytes chunks) = Marked buf' (map ReadBytes chunks') \<and>
    index_of MARKER_BYTES buf' = Some (length out) \<and> take (length out) buf' = out \<and>
    drop (length out + length MARKER_BYTES) buf' @ concat chunks' = rest \<and> set chunks' \<subseteq> set chunks"
  using assms(2-4)
proof (induction chunks arbitrary: buf)
  case Nil
  have "index_of MARKER_BYTES buf = Some (length out)"
    using index_of_append [OF assms(1), of rest] Nil.prems(1) by simp
  with Nil.prems(1) show ?case by simp
next
  case (Cons c cs)
  show ?case
  proof (cases "index_of MARKER_BYTES buf")
    case None
    have c: "c \<noteq> []" "length (buf @ c) \<le> MAX_OUTPUT" using Cons.prems(2,3) by simp_all
    have "\<exists>buf' chunks'. read_until_marker (buf @ c) (map ReadBytes cs) = Marked buf' (map ReadBytes chunks') \<and>
        index_of MARKER_BYTES buf' = Some (length out) \<and> take (length out) buf' = out \<and>
        drop (length out + length MARKER_BYTES) buf' @ concat chunks' = rest \<and> set chunks' \<subseteq> set cs"
      by (rule Cons.IH) (use Cons.prems in simp_all)
    moreover have "read_until_marker buf (map ReadBytes (c # cs)) = read_until_marker (buf @ c) (map ReadBytes cs)"
      using None c by simp
    ultimately show ?thesis by (metis set_subset_Cons subset_trans)
  next
    case (Some n)
    have "index_of MARKER_BYTES (buf @ concat (c # cs)) = Some (length out)"
      using index_of_append [OF assms(1), of rest] Cons.prems(1) by simp
    then have n: "n = length out" using index_of_append [OF Some] by (metis option.inject)
    then have len: "length out + length MARKER_BYTES \<le> length buf" using index_of_Some [OF Some] by simp
    have t: "take (length out) (buf @ concat (c # cs)) = out"
      "drop (length out + length MARKER_BYTES) (buf @ concat (c # cs)) = rest"
      unfolding Cons.prems(1) by simp_all
    have "length out - length buf = 0" "length out + length MARKER_BYTES - length buf = 0" using len by simp_all
    with t have "take (length out) buf = out" "drop (length out + length MARKER_BYTES) buf @ concat (c # cs) = rest"
      by (simp_all only: take_append drop_append take0 drop0 append_Nil2)
    with Some n show ?thesis by (intro exI [of _ buf] exI [of _ "c # cs"]) simp
  qed
qed

lemma run_shell_line_frame:
  assumes p: "as_proc s = Some p" "sp_pipes p" "sp_returncode p = None" "sp_stdout p = map ReadBytes chunks"
    and "aw_stdin W = Inr ()" "10 \<notin> set line" "13 \<notin> set line" "utf8_encode (line @ [10]) = Inr bs"
    and "index_of MARKER_BYTES (out @ MARKER_BYTES) = Some (length out)"
    and "as_rx_buf s @ concat chunks = out @ MARKER_BYTES @ rest"
    and "\<forall>c \<in> set chunks. c \<noteq> []" "length (as_rx_buf s @ concat chunks) \<le> MAX_OUTPUT"
  shows "\<exists>s' p' chunks'. run_shell_line W line s = (s', Returns (utf8_decode_replace out)) \<and>
    as_proc s' = Some p' \<and> sp_pipes p' \<and> sp_returncode p' = None \<and> sp_stdout p' = map ReadBytes chunks' \<and>
    as_rx_buf s' @ concat chunks' = rest \<and> set chunks' \<subseteq> set chunks"
proof -
  from read_until_marker_frame [OF assms(9-12)] obtain buf' chunks' where
    r: "read_until_marker (as_rx_buf s) (map ReadBytes chunks) = Marked buf' (map ReadBytes chunks')"
    and i: "index_of MARKER_BYTES buf' = Some (length out)" "take (length out) buf' = out"
    and rest: "drop (length out + length MARKER_BYTES) buf' @ concat chunks' = rest" "set chunks' \<subseteq> set chunks" by blast
  let ?s = "s\<lparr>as_calls := as_calls s @ [WriteStdin bs]\<rparr>"
  have "run_shell_line W line s = take_output buf' (map ReadBytes chunks') ?s"
    using p assms(5-8) r by (simp add: run_shell_line_def)
  moreover have "take_output buf' (map ReadBytes chunks') ?s =
      (set_stream (drop (length out + length MARKER_BYTES) buf') (map ReadBytes chunks') ?s, Returns (utf8_decode_replace out))"
    using i by (simp add: take_output_def Let_def)
  ultimately show ?thesis
    using p rest
    by (intro exI [of _ "set_stream (drop (length out + length MARKER_BYTES) buf') (map ReadBytes chunks') ?s"]
        exI [of _ "p\<lparr>sp_stdout := map ReadBytes chunks'\<rparr>"] exI [of _ chunks'])
      (simp add: set_stream_def)
qed

section \<open>The ADB session answers its commands\<close>

lemma yields_ping: "yields (answers (lit ''ping'')) (cmd_ping L W body rid)"
  unfolding cmd_ping_def by (intro yields_rules) (simp add: answers_def)

lemma yields_tap: "yields (answers (lit ''tap'')) (cmd_tap L W body rid)"
  unfolding cmd_tap_def
  by (auto split: option.split simp del: areturn_apply intro!: yields_rules) (simp_all add: answers_def)

lemma yields_swipe: "yields (answers (lit ''swipe'')) (cmd_swipe L W body rid)"
  unfolding cmd_swipe_def Let_def
  by (auto split: option.split intro!: yields_rules) (simp_all add: answers_def)

lemma yields_input_text: "yields (answers (lit ''input_text'')) (cmd_input_text L W body rid)"
  unfolding cmd_input_text_def
  by (auto split: pyval.split sum.split intro!: yields_rules) (simp_all add: answers_def)

lemma yields_screenshot: "yields (answers (lit ''screenshot'')) (cmd_screenshot L W body rid)"
  unfolding cmd_screenshot_def
proof (intro yields_rules, unfold yields_def, intro allI impI)
  show "answers (lit ''screenshot'') d"
    if "(case screenshot_name W body rid of
       None \<Rightarrow> areturn (error_result m ''screenshot'') s
     | Some name \<Rightarrow>
         let dir = ac_screenshot_dir (as_config s); path = aw_resolve W (dir @ [name]); root = aw_resolve W dir
         in if take (length root) path \<noteq> root then areturn (error_result m' ''screenshot'') s
            else abind (acall (WriteFile path raw)) (\<lambda>_. abind (alift (aw_write_bytes W)) (\<lambda>_.
                 areturn [(lit ''ok'', PBool True), (lit ''path'', PStr (path_str path)),
                          (lit ''size_bytes'', PInt (int (length raw)))])) s) = (s', Returns d)" for m m' raw s s' d
    using that
    by (cases "aw_write_bytes W")
      (auto simp: Let_def abind_def answers_def error_result_def split: option.splits if_splits)
qed

lemma commands_answer: "map_of (adb_commands L W) cmd = Some fn \<Longrightarrow> yields (answers cmd) (fn body rid)"
  by (drule map_of_SomeD)
    (auto simp: adb_commands_def yields_ping yields_tap yields_swipe yields_input_text yields_screenshot)

text \<open>The two ways a command can end: refused before it starts, or run.\<close>

lemma handle_command_cases:
  obtains (refused) d where "handle_command L W body rid s = (s, Returns d)" "get d ''ok'' = PBool False"
      "\<exists>m. get d ''error'' = PStr m"
      "get d ''command'' = (case get body ''command'' of
         PStr c \<Rightarrow> PStr (if py_strip c = [] then c else py_strip c) | _ \<Rightarrow> PNone)"
  | (run) c fn s' r where "get body ''command'' = PStr c" "py_strip c \<noteq> []"
      "map_of (adb_commands L W) (py_strip c) = Some fn" "fn body rid s = (s', r)"
      "snd (handle_command L W body rid s) =
         (case r of
            Returns out \<Rightarrow> Returns (dict_setdefault (lit ''command'') (PStr (py_strip c)) out)
          | Raises e \<Rightarrow> if is_exception e
              then Returns [(lit ''ok'', PBool False), (lit ''error'', PStr (exn_msg e)),
                     (lit ''error_type'', PStr (exn_name (exn_class e))), (lit ''command'', PStr (py_strip c))]
              else Raises e
          | Waits \<Rightarrow> Waits)"
proof (cases "\<exists>c. get body ''command'' = PStr c")
  case False
  with refused show thesis by (cases "get body ''command''") (auto simp: handle_command_def)
next
  case True
  then obtain c where c: "get body ''command'' = PStr c" by blast
  show thesis
  proof (cases "py_strip c = []")
    case True
    with c refused show thesis by (simp add: handle_command_def)
  next
    case nonempty: False
    show thesis
    proof (cases "map_of (adb_commands L W) (py_strip c)")
      case None
      with c nonempty refused show thesis by (simp add: handle_command_def Let_def)
    next
      case (Some fn)
      obtain s' r where r: "fn body rid s = (s', r)" by fastforce
      from c nonempty Some r show thesis
        by (intro run [OF c nonempty Some r]) (cases r; simp add: handle_command_def Let_def)
    qed
  qed
qed

interpretation adb: command_session "handle_command L W" Returns outcome_value outcome_exn for L W
proof
  fix body :: pydict and rid :: pystr and s :: adb_session and d :: pydict and e
  show "outcome_value (Returns d) = Some d" "outcome_exn (Returns d) = None" by simp_all
  show "get d ''ok'' = PBool True \<or> get d ''ok'' = PBool False \<and> (\<exists>m. get d ''error'' = PStr m)"
    if "outcome_value (snd (handle_command L W body rid s)) = Some d"
  proof (cases rule: handle_command_cases [of L W body rid s])
    case (refused x)
    with that show ?thesis by simp
  next
    case (run c fn s' r)
    have "answers (py_strip c) out" if "r = Returns out" for out
      using commands_answer [OF run(3)] run(4) that by (simp add: yields_def)
    with run(5) that show ?thesis
      by (cases r) (auto simp: setdefault_answers answers_def split: if_splits)
  qed
  show "get d ''command'' = (case get body ''command'' of
        PStr c \<Rightarrow> PStr (if py_strip c = [] then c else py_strip c) | _ \<Rightarrow> PNone)"
    if "outcome_value (snd (handle_command L W body rid s)) = Some d"
  proof (cases rule: handle_command_cases [of L W body rid s])
    case (refused x)
    with that show ?thesis by simp
  next
    case (run c fn s' r)
    have "answers (py_strip c) out" if "r = Returns out" for out
      using commands_answer [OF run(3)] run(4) that by (simp add: yields_def)
    with run(1,2,5) that show ?thesis
      by (cases r) (auto simp: setdefault_answers split: if_splits)
  qed
  show "\<not> is_exception e" if "outcome_exn (snd (handle_command L W body rid s)) = Some e"
  proof (cases rule: handle_command_cases [of L W body rid s])
    case (refused x)
    with that show ?thesis by simp
  next
    case (run c fn s' r)
    with that show ?thesis by (cases r) (auto split: if_splits)
  qed
qed

lemma adb_envelope_handler_fun: "adb_envelope_handler L W = session_handler (handle_command L W) Returns"
  by (intro ext) (simp add: adb_envelope_handler_def)

end
