(* ===== verification/AdbProps.thy ===== *)
theory AdbProps
  imports AdbFacts ClientProps
begin

text \<open>The properties of the ADB handler (\<open>handlers/adb_handler.py\<close>).\<close>

section \<open>Lines to the device\<close>

text \<open>
  C32: no command body can inject shell commands: whatever the body and however the device answers, all that a
  command writes to the device's shell are single lines that the shell splits into the words of an \<open>input tap\<close>,
  \<open>input swipe\<close> or \<open>input text\<close>, with the numbers or the escaped text of the body as the arguments.
\<close>

theorem device_lines_are_input_commands:
  "\<exists>new. as_calls (fst (handle_command L W body rid s)) = as_calls s @ new \<and>
     (\<forall>bs. WriteStdin bs \<in> set new \<longrightarrow>
        (\<exists>line ws. utf8_encode (line @ [10]) = Inr bs \<and> 10 \<notin> set line \<and> 13 \<notin> set line \<and>
           sh_words line = Some ws \<and> input_words body ws))"
proof -
  from emits_handle_command [where body = body and L = L and W = W and rid = rid, unfolded emits_def, rule_format, of s] obtain new where
    "as_calls (fst (handle_command L W body rid s)) = as_calls s @ new" "\<forall>c \<in> set new. device_line body c" by blast
  then show ?thesis by (intro exI [of _ new]) (force simp: device_line_def)
qed

section \<open>Outputs\<close>

fun run_lines :: "adb_world \<Rightarrow> pystr list \<Rightarrow> pystr list adb" where
  "run_lines W [] = areturn []"
| "run_lines W (l # ls) = abind (run_shell_line W l) (\<lambda>out. abind (run_lines W ls) (\<lambda>outs. areturn (out # outs)))"

text \<open>
  C33: each line gets its own output: if the device sends, for each of several lines, an output and the marker, and
  the first marker after each output is that one, then however the bytes are cut into reads every
  \<open>_run_shell_line\<close> returns the output of its line and nothing is left over.
\<close>

theorem shell_outputs_in_order:
  assumes "as_proc s = Some p" "sp_pipes p" "sp_returncode p = None" "sp_stdout p = map ReadBytes chunks"
    and "aw_stdin W = Inr ()" "length lines = length outs"
    and "\<forall>l \<in> set lines. 10 \<notin> set l \<and> 13 \<notin> set l \<and> (\<exists>bs. utf8_encode (l @ [10]) = Inr bs)"
    and "\<forall>out \<in> set outs. index_of MARKER_BYTES (out @ MARKER_BYTES) = Some (length out)"
    and "as_rx_buf s @ concat chunks = concat (map (\<lambda>out. out @ MARKER_BYTES) outs)"
    and "\<forall>c \<in> set chunks. c \<noteq> []" "length (as_rx_buf s @ concat chunks) \<le> MAX_OUTPUT"
  shows "\<exists>s'. run_lines W lines s = (s', Returns (map utf8_decode_replace outs)) \<and> as_rx_buf s' = []"
  using assms
proof (induction lines outs arbitrary: s p chunks rule: list_induct2')
  case (4 l lines out outs)
  let ?rest = "concat (map (\<lambda>out. out @ MARKER_BYTES) outs)"
  obtain bs where bs: "utf8_encode (l @ [10]) = Inr bs" using "4.prems"(7) by auto
  have "\<exists>s' p' chunks'. run_shell_line W l s = (s', Returns (utf8_decode_replace out)) \<and>
    as_proc s' = Some p' \<and> sp_pipes p' \<and> sp_returncode p' = None \<and> sp_stdout p' = map ReadBytes chunks' \<and>
    as_rx_buf s' @ concat chunks' = ?rest \<and> set chunks' \<subseteq> set chunks"
    by (rule run_shell_line_frame [OF "4.prems"(1-5) _ _ bs]) (use "4.prems" in simp_all)
  then obtain s' p' chunks' where s': "run_shell_line W l s = (s', Returns (utf8_decode_replace out))"
    "as_proc s' = Some p'" "sp_pipes p'" "sp_returncode p' = None" "sp_stdout p' = map ReadBytes chunks'"
    "as_rx_buf s' @ concat chunks' = ?rest" "set chunks' \<subseteq> set chunks" by blast
  have "length ?rest \<le> MAX_OUTPUT"
  proof -
    have "length (as_rx_buf s @ concat chunks) = length (out @ MARKER_BYTES @ ?rest)" using "4.prems"(9) by simp
    with "4.prems"(11) show ?thesis by simp
  qed
  then have "\<exists>s''. run_lines W lines s' = (s'', Returns (map utf8_decode_replace outs)) \<and> as_rx_buf s'' = []"
    by (intro "4.IH" [OF s'(2-5)]) (use "4.prems" s'(6,7) in auto)
  then show ?case using s'(1) by (auto simp: abind_def)
qed auto

definition sample_shell :: shell_proc where
  "sample_shell = \<lparr>sp_returncode = None, sp_pipes = True,
     sp_stdout = map ReadBytes [[104, 105] @ take 5 MARKER_BYTES, drop 5 MARKER_BYTES @ MARKER_BYTES]\<rparr>"

definition sample_world :: adb_world where
  "sample_world = \<lparr>aw_get_state = Inr (Some 0, []), aw_get_serialno = Inr (Some 0, []), aw_spawn = Inr sample_shell,
     aw_exits = True, aw_stdin = Inr (), aw_screencap = Inr (Some 0, [], []), aw_mkdir = Inr (),
     aw_resolve = (\<lambda>p. p), aw_write_bytes = Inr (), aw_time_ms = 0, aw_token = []\<rparr>"

definition sample_adb :: adb_session where
  "sample_adb = \<lparr>as_config = \<lparr>ac_serial = None, ac_adb_bin = lit ''adb'', ac_screenshot_dir = [], ac_shell_timeout = FFin 1 0\<rparr>,
     as_proc = Some sample_shell, as_drain = True, as_rx_buf = [], as_calls = []\<rparr>"

theorem shell_outputs_in_order_witness:
  "\<exists>s'. run_lines sample_world [lit ''input tap 1 2'', lit ''input tap 3 4''] sample_adb =
      (s', Returns [utf8_decode_replace [104, 105], utf8_decode_replace []]) \<and> as_rx_buf s' = []"
proof -
  have M: "MARKER_BYTES = [10, 95, 95, 65, 68, 66, 95, 82, 80, 67, 95, 69, 78, 68, 95, 95, 10]"
    by (simp add: MARKER_BYTES_def SHELL_MARKER_def lit_Cons)
  have enc: "\<exists>bs. utf8_encode (l @ [10]) = Inr bs" if "\<forall>c \<in> set l. c < 128" for l
    using utf8_encode_ascii [of "l @ [10]"] that by simp
  have "\<exists>s'. run_lines sample_world [lit ''input tap 1 2'', lit ''input tap 3 4''] sample_adb =
      (s', Returns (map utf8_decode_replace [[104, 105], []])) \<and> as_rx_buf s' = []"
  proof (rule shell_outputs_in_order [where p = sample_shell
        and chunks = "[[104, 105] @ take 5 MARKER_BYTES, drop 5 MARKER_BYTES @ MARKER_BYTES]"])
    show "\<forall>l \<in> set [lit ''input tap 1 2'', lit ''input tap 3 4'']. 10 \<notin> set l \<and> 13 \<notin> set l \<and>
        (\<exists>bs. utf8_encode (l @ [10]) = Inr bs)"
      using enc [of "lit ''input tap 1 2''"] enc [of "lit ''input tap 3 4''"] by (simp add: lit_Cons)
  qed (simp_all add: sample_shell_def sample_world_def sample_adb_def M MAX_OUTPUT_def)
  then show ?thesis by simp
qed

theorem device_lines_are_input_commands_witness:
  "\<exists>new. as_calls (fst (handle_command sample_lib sample_world
        [(lit ''command'', PStr (lit ''tap'')), (lit ''x'', PInt 1), (lit ''y'', PInt 2)] [] sample_adb)) = new \<and>
     (\<forall>bs. WriteStdin bs \<in> set new \<longrightarrow> (\<exists>line. utf8_encode (line @ [10]) = Inr bs \<and> 10 \<notin> set line))"
  using device_lines_are_input_commands [of sample_lib sample_world
      "[(lit ''command'', PStr (lit ''tap'')), (lit ''x'', PInt 1), (lit ''y'', PInt 2)]" "[]" sample_adb]
  by (auto simp: sample_adb_def)

section \<open>Answers\<close>

text \<open>
  Every envelope is answered: the handler returns a body whose \<open>"ok"\<close> is a boolean, with an error text
  if it is false, and whose \<open>"command"\<close> is the command of the request; nothing that \<open>except Exception\<close> would
  catch gets out.
\<close>

theorem adb_handler_answers:
  "(\<forall>d. snd (adb_envelope_handler L W body rid s) = Returns d \<longrightarrow>
      (get d ''ok'' = PBool True \<or> get d ''ok'' = PBool False \<and> (\<exists>m. get d ''error'' = PStr m)) \<and>
      get d ''command'' = (case get (case body of None \<Rightarrow> [] | Some b \<Rightarrow> b) ''command'' of
        PStr c \<Rightarrow> PStr (if py_strip c = [] then c else py_strip c) | _ \<Rightarrow> PNone)) \<and>
   (\<forall>e. snd (adb_envelope_handler L W body rid s) = Raises e \<longrightarrow> \<not> is_exception e)"
proof -
  have "snd (adb_envelope_handler L W body rid s) = Returns d \<longleftrightarrow>
      outcome_value (snd (session_handler (handle_command L W) Returns body rid s)) = Some d" for d
    by (cases "snd (session_handler (handle_command L W) Returns body rid s)") (auto simp: adb_envelope_handler_def)
  moreover have "snd (adb_envelope_handler L W body rid s) = Raises e \<longleftrightarrow>
      outcome_exn (snd (session_handler (handle_command L W) Returns body rid s)) = Some e" for e
    by (cases "snd (session_handler (handle_command L W) Returns body rid s)") (auto simp: adb_envelope_handler_def)
  ultimately show ?thesis using adb.handler_answers [of L W body rid s] by simp
qed

theorem adb_handler_answers_witness:
  "\<exists>d. snd (adb_envelope_handler sample_lib sample_world (Some [(lit ''command'', PStr (lit ''tap''))]) [] sample_adb) = Returns d \<and>
     get d ''command'' = PStr (lit ''tap'')"
proof -
  have t: "py_strip (lit ''tap'') = lit ''tap''"
    by (simp add: lit_Cons py_strip_def py_lstrip_def py_rstrip_def py_space_def)
  obtain d where d: "snd (adb_envelope_handler sample_lib sample_world (Some [(lit ''command'', PStr (lit ''tap''))]) [] sample_adb) = Returns d"
    by (simp add: adb_envelope_handler_def session_handler_def handle_command_def t adb_commands_def cmd_tap_def parse_int_def)
  with adb_handler_answers [of sample_lib sample_world "Some [(lit ''command'', PStr (lit ''tap''))]" "[]" sample_adb] t
  show ?thesis by simp
qed

section \<open>The client\<close>





end
