(* ===== verification/Playwright.thy ===== *)
theory Playwright
  imports SessionClient
begin

text \<open>
  \<open>src/rpcproxy/handlers/playwright_handler.py\<close>: a lazily started browser session with a table of open
  pages, and its commands.  Playwright and \<open>requests\<close> are outside: \<open>pw_world\<close> says how they answer during
  one command; a page is known by a number.  \<open>pw_calls\<close> records what the session asks of the browser.
\<close>

section \<open>State\<close>

record playwright_handler_config =
  pc_channel :: pystr
  pc_headless :: bool

definition default_playwright_config :: playwright_handler_config where
  "default_playwright_config = \<lparr>pc_channel = lit ''msedge'', pc_headless = True\<rparr>"

definition MAX_RESPONSE_BYTES :: nat where
  "MAX_RESPONSE_BYTES = 256 * 1024"

datatype pw_call =
    StartPlaywright
  | Launch pystr bool
  | NewContext
  | NewPage
  | Goto nat pystr
  | Evaluate nat pystr
  | Fetch pyval pydict
  | ClosePage nat
  | CloseContext
  | CloseBrowser
  | StopPlaywright

record pw_session =
  pw_config :: playwright_handler_config
  pw_playwright :: bool
  pw_browser :: bool
  pw_context :: bool
  pw_pages :: "(pystr \<times> nat) list"
  pw_calls :: "pw_call list"

definition new_playwright_session :: "playwright_handler_config option \<Rightarrow> pw_session" where
  "new_playwright_session config =
     \<lparr>pw_config = (case config of None \<Rightarrow> default_playwright_config | Some c \<Rightarrow> c), pw_playwright = False,
      pw_browser = False, pw_context = False, pw_pages = [], pw_calls = []\<rparr>"

text \<open>What \<open>requests\<close> makes of the fields of a request\<close>

record prepared_request =
  pr_method :: pyval
  pr_url :: pyval
  pr_headers :: pydict
  pr_body :: "pyval option"

text \<open>
  \<open>po_ids\<close> are the page ids \<open>secrets.token_hex\<close> draws, \<open>po_meanwhile\<close> what other commands do to the session
  while a page loads.
\<close>

record pw_world =
  po_import :: "py_exn + unit"
  po_start :: "py_exn + unit"
  po_launch :: "py_exn + unit"
  po_new_context :: "py_exn + unit"
  po_new_page :: "py_exn + nat"
  po_ids :: "pystr list"
  po_goto :: "py_exn + unit"
  po_meanwhile :: "pw_session \<Rightarrow> pw_session"
  po_evaluate :: "py_exn + pyval"
  po_prepare :: "pydict \<Rightarrow> py_exn + prepared_request"
  po_fetch :: "py_exn + (int \<times> (pystr \<times> pystr) list)"
  po_body :: "py_exn + bytes"
  po_close_page :: "py_exn + unit"

type_synonym 'a pw = "(pw_session, 'a) co"

definition pcall :: "pw_call \<Rightarrow> unit pw" where
  "pcall c s = (s\<lparr>pw_calls := pw_calls s @ [c]\<rparr>, Returns ())"

definition pdo :: "(pw_session \<Rightarrow> pw_session) \<Rightarrow> unit pw" where
  "pdo f s = (f s, Returns ())"

section \<open>Start and end\<close>

definition ensure_started :: "pw_world \<Rightarrow> unit pw" where
  "ensure_started W s =
     (if pw_browser s then (s, Returns ())
      else case po_import W of
        Inl e \<Rightarrow> araise RuntimeError (lit ''playwright is not installed; use: pip install 'rpcproxy[playwright]' then: playwright install msedge'') s
      | Inr _ \<Rightarrow>
          abind (pcall StartPlaywright) (\<lambda>_.
          abind (alift (po_start W)) (\<lambda>_.
          abind (pdo (\<lambda>s. s\<lparr>pw_playwright := True\<rparr>)) (\<lambda>_.
          abind (pcall (Launch (pc_channel (pw_config s)) (pc_headless (pw_config s)))) (\<lambda>_.
          abind (alift (po_launch W)) (\<lambda>_.
          abind (pdo (\<lambda>s. s\<lparr>pw_browser := True\<rparr>)) (\<lambda>_.
          abind (pcall NewContext) (\<lambda>_.
          abind (alift (po_new_context W)) (\<lambda>_.
          pdo (\<lambda>s. s\<lparr>pw_context := True\<rparr>))))))))) s)"

text \<open>
  The exceptions of the pages, the context, the browser and Playwright while they close are swallowed (unless
  the task is cancelled), so that all of them are closed and the session is as new.
\<close>

definition pw_close :: "unit pw" where
  "pw_close s =
     (s\<lparr>pw_pages := [], pw_context := False, pw_browser := False, pw_playwright := False,
        pw_calls := pw_calls s @ map (\<lambda>(_, page). ClosePage page) (pw_pages s) @
          (if pw_context s then [CloseContext] else []) @ (if pw_browser s then [CloseBrowser] else []) @
          (if pw_playwright s then [StopPlaywright] else [])\<rparr>, Returns ())"

section \<open>Pages\<close>

text \<open>The loop that draws ids until one is not in use; \<open>None\<close> while it has not found one.\<close>

fun draw_page_id :: "pystr list \<Rightarrow> (pystr \<times> nat) list \<Rightarrow> pystr option" where
  "draw_page_id [] pages = None"
| "draw_page_id (pid # ids) pages = (if map_of pages pid = None then Some pid else draw_page_id ids pages)"

text \<open>A command's \<open>{"ok": False, "error": msg, "command": cmd}\<close> with a message of the model\<close>

definition error_answer :: "pystr \<Rightarrow> string \<Rightarrow> pydict" where
  "error_answer msg cmd =
     [(lit ''ok'', PBool False), (lit ''error'', PStr msg), (lit ''command'', PStr (lit cmd))]"

definition cmd_open_page :: "pylib \<Rightarrow> pw_world \<Rightarrow> pydict \<Rightarrow> pydict pw" where
  "cmd_open_page L W body =
     (case get body ''url'' of
        PStr u \<Rightarrow>
          if py_strip u = [] then areturn (error_result '''url' must be a non-empty string'' ''open_page'')
          else let url = py_strip u
               in (\<lambda>s. if \<not> pw_context s then araise AssertionError [] s
                  else abind (pcall NewPage) (\<lambda>_.
                       abind (alift (po_new_page W)) (\<lambda>page s.
                       case draw_page_id (po_ids W) (pw_pages s) of
                         None \<Rightarrow> (s, Waits)
                       | Some pid \<Rightarrow>
                           abind (pdo (\<lambda>s. s\<lparr>pw_pages := dict_set pid page (pw_pages s)\<rparr>)) (\<lambda>_.
                           abind (pcall (Goto page url)) (\<lambda>_.
                           abind (pdo (po_meanwhile W)) (\<lambda>_.
                           case po_goto W of
                             Inl e \<Rightarrow>
                               if is_exception e
                               then abind (pdo (\<lambda>s. s\<lparr>pw_pages := dict_pop pid (pw_pages s)\<rparr>)) (\<lambda>_.
                                    abind (pcall (ClosePage page)) (\<lambda>_. alift (Inl e)))
                               else alift (Inl e)
                           | Inr _ \<Rightarrow>
                               areturn [(lit ''ok'', PBool True), (lit ''page_id'', PStr pid), (lit ''url'', PStr url)]))) s)) s)
      | _ \<Rightarrow> areturn (error_result '''url' must be a non-empty string'' ''open_page''))"

definition json_safe_result :: "pylib \<Rightarrow> pyval \<Rightarrow> py_exn + pyval" where
  "json_safe_result L value =
     (case lib_dumps L True False value of
        Inl e \<Rightarrow> if exn_class e = TypeError \<or> is_value_error e then Inr (PStr (lib_str L value)) else Inl e
      | Inr _ \<Rightarrow> Inr value)"

definition unknown_page :: "pylib \<Rightarrow> pystr \<Rightarrow> string \<Rightarrow> pydict" where
  "unknown_page L page_id cmd = error_answer (lit ''unknown page_id: '' @ lib_repr L (PStr page_id)) cmd"

definition page_id_of :: "pydict \<Rightarrow> pystr option" where
  "page_id_of body =
     (case get body ''page_id'' of
        PStr p \<Rightarrow> if py_strip p = [] then None else Some (py_strip p)
      | _ \<Rightarrow> None)"

definition cmd_execute_js :: "pylib \<Rightarrow> pw_world \<Rightarrow> pydict \<Rightarrow> pydict pw" where
  "cmd_execute_js L W body =
     (case page_id_of body of
        None \<Rightarrow> areturn (error_result '''page_id' must be a non-empty string'' ''execute_js'')
      | Some page_id \<Rightarrow>
          (case get body ''script'' of
             PStr script \<Rightarrow>
               (\<lambda>s. case map_of (pw_pages s) page_id of
                  None \<Rightarrow> areturn (unknown_page L page_id ''execute_js'') s
                | Some page \<Rightarrow>
                    abind (pcall (Evaluate page script)) (\<lambda>_.
                    abind (alift (po_evaluate W)) (\<lambda>result.
                    abind (alift (json_safe_result L result)) (\<lambda>v.
                    areturn [(lit ''ok'', PBool True), (lit ''result'', v), (lit ''page_id'', PStr page_id)]))) s)
           | _ \<Rightarrow> areturn (error_result '''script' must be a string'' ''execute_js'')))"

definition cmd_close_page :: "pylib \<Rightarrow> pw_world \<Rightarrow> pydict \<Rightarrow> pydict pw" where
  "cmd_close_page L W body =
     (case page_id_of body of
        None \<Rightarrow> areturn (error_result '''page_id' must be a non-empty string'' ''close_page'')
      | Some page_id \<Rightarrow>
          (\<lambda>s. case map_of (pw_pages s) page_id of
             None \<Rightarrow> areturn (unknown_page L page_id ''close_page'') s
           | Some page \<Rightarrow>
               abind (pdo (\<lambda>s. s\<lparr>pw_pages := dict_pop page_id (pw_pages s)\<rparr>)) (\<lambda>_.
               abind (pcall (ClosePage page)) (\<lambda>_.
               abind (alift (po_close_page W)) (\<lambda>_.
               areturn [(lit ''ok'', PBool True), (lit ''page_id'', PStr page_id)]))) s))"

section \<open>Requests\<close>

definition REQUEST_KW_KEYS :: "pystr list" where
  "REQUEST_KW_KEYS = map lit [''method'', ''url'', ''headers'', ''files'', ''data'', ''params'', ''auth'', ''cookies'',
     ''hooks'', ''json'']"

text \<open>The keyword arguments of \<open>Request\<close>; the order of the keys means nothing.\<close>

definition request_kwargs :: "pydict \<Rightarrow> pydict" where
  "request_kwargs body =
     (let kw = filter (\<lambda>(k, _). k \<in> set REQUEST_KW_KEYS) body;
          kw = (if map_of kw (lit ''method'') = None then dict_set (lit ''method'') (PStr (lit ''GET'')) kw else kw)
      in case get kw ''url'' of PStr u \<Rightarrow> dict_set (lit ''url'') (PStr (py_strip u)) kw | _ \<Rightarrow> kw)"

text \<open>The result is an error text, or the URL and the keyword arguments of \<open>fetch\<close>.\<close>

definition prepare_fetch_from_request_body ::
    "pw_world \<Rightarrow> pydict \<Rightarrow> py_exn + (pystr + pyval \<times> pydict)" where
  "prepare_fetch_from_request_body W body =
     (case po_prepare W (request_kwargs body) of
        Inl e \<Rightarrow> if is_exception e then Inr (Inl (exn_name (exn_class e) @ lit '': '' @ exn_msg e)) else Inl e
      | Inr prepared \<Rightarrow>
          Inr (Inr (pr_url prepared,
            [(lit ''method'', pr_method prepared), (lit ''headers'', PDict (pr_headers prepared))] @
            (case pr_body prepared of None \<Rightarrow> [] | Some b \<Rightarrow> [(lit ''data'', b)]))))"

definition encode_limited_response_body :: "bytes \<Rightarrow> pystr \<times> pystr \<times> bool" where
  "encode_limited_response_body raw =
     (let truncated = (length raw > MAX_RESPONSE_BYTES);
          chunk = (if truncated then take MAX_RESPONSE_BYTES raw else raw)
      in case utf8_decode chunk of
           Inr t \<Rightarrow> (t, lit ''utf-8'', truncated)
         | Inl _ \<Rightarrow> (b64encode chunk, lit ''base64'', truncated))"

definition cmd_request :: "pylib \<Rightarrow> pw_world \<Rightarrow> pydict \<Rightarrow> pydict pw" where
  "cmd_request L W body =
     abind (alift (prepare_fetch_from_request_body W body)) (\<lambda>prepared.
     case prepared of
       Inl msg \<Rightarrow> areturn [(lit ''ok'', PBool False), (lit ''error'', PStr msg),
                    (lit ''error_type'', PStr (lit ''RequestPrepareError'')), (lit ''command'', PStr (lit ''request''))]
     | Inr (fetch_url, fetch_kwargs) \<Rightarrow>
         (\<lambda>s. if \<not> pw_context s then araise AssertionError [] s
          else abind (pcall (Fetch fetch_url fetch_kwargs)) (\<lambda>_.
               abind (alift (po_fetch W)) (\<lambda>(status, headers).
               abind (alift (po_body W)) (\<lambda>raw.
               let (body_text, body_encoding, truncated) = encode_limited_response_body raw;
                   hdr_map = dict_update [] (map (\<lambda>(k, v). (k, PStr v)) headers)
               in areturn [(lit ''ok'', PBool True), (lit ''status'', PInt status), (lit ''headers'', PDict hdr_map),
                           (lit ''body'', PStr body_text), (lit ''body_encoding'', PStr body_encoding),
                           (lit ''truncated'', PBool truncated)]))) s))"

section \<open>Dispatch\<close>

definition playwright_commands :: "pylib \<Rightarrow> pw_world \<Rightarrow> (pystr \<times> (pydict \<Rightarrow> pydict pw)) list" where
  "playwright_commands L W =
     [(lit ''open_page'', cmd_open_page L W), (lit ''execute_js'', cmd_execute_js L W),
      (lit ''request'', cmd_request L W), (lit ''close_page'', cmd_close_page L W)]"

text \<open>An exception of a command as its answer\<close>

definition exception_answer :: "pystr \<Rightarrow> pw_session \<times> pydict outcome \<Rightarrow> pw_session \<times> pydict outcome" where
  "exception_answer cmd r =
     (case r of
        (s, Raises e) \<Rightarrow>
          (s, if is_exception e
              then Returns [(lit ''ok'', PBool False), (lit ''error'', PStr (exn_msg e)),
                     (lit ''error_type'', PStr (exn_name (exn_class e))), (lit ''command'', PStr cmd)]
              else Raises e)
      | (s, x) \<Rightarrow> (s, x))"

definition handle_command :: "pylib \<Rightarrow> pw_world \<Rightarrow> pydict \<Rightarrow> pydict pw" where
  "handle_command L W body s =
     (case get body ''command'' of
        PStr c \<Rightarrow>
          if py_strip c = []
          then (s, Returns [(lit ''ok'', PBool False), (lit ''error'', PStr (lit ''missing or invalid '' @ [39] @ lit ''command'' @ [39])),
                            (lit ''command'', PStr c)])
          else let cmd = py_strip c
               in (case ensure_started W s of
                     (s', Returns _) \<Rightarrow>
                       (case map_of (playwright_commands L W) cmd of
                          None \<Rightarrow> (s', Returns [(lit ''ok'', PBool False),
                                     (lit ''error'', PStr (lit ''unknown command: '' @ lib_repr L (PStr cmd))),
                                     (lit ''command'', PStr cmd)])
                        | Some fn \<Rightarrow>
                            exception_answer cmd
                              (abind (fn body) (\<lambda>out. areturn (dict_setdefault (lit ''command'') (PStr cmd) out)) s'))
                   | (s', Raises e) \<Rightarrow> exception_answer cmd (s', Raises e)
                   | (s', Waits) \<Rightarrow> (s', Waits))
      | _ \<Rightarrow> (s, Returns [(lit ''ok'', PBool False), (lit ''error'', PStr (lit ''missing or invalid '' @ [39] @ lit ''command'' @ [39])),
                         (lit ''command'', PNone)]))"

definition playwright_envelope_handler :: "pylib \<Rightarrow> pw_world \<Rightarrow> pydict option \<Rightarrow> pystr \<Rightarrow> pydict pw" where
  "playwright_envelope_handler L W body request_id =
     session_handler (\<lambda>b _. handle_command L W b) Returns body request_id"

section \<open>\<open>PlaywrightRpcProxyClient\<close>\<close>

definition new_playwright_client ::
    "playwright_handler_config option \<Rightarrow> py_exn + client \<Rightarrow> handler_config \<Rightarrow> py_exn + (client \<times> handler_config) \<times> pw_session" where
  "new_playwright_client config base cfg = new_session_client (new_playwright_session config) base cfg"

definition playwright_pipeline ::
    "pylib \<Rightarrow> pw_world \<Rightarrow> handler_config \<Rightarrow> 't remote_call \<Rightarrow> pystr \<Rightarrow> pydict \<Rightarrow> pw_session \<Rightarrow> 't \<Rightarrow>
     pw_session \<times> 't \<times> (py_exn + unit) option" where
  "playwright_pipeline L W = session_pipeline outcome_value outcome_exn (playwright_envelope_handler L W) L"

definition playwright_client_close ::
    "py_exn + unit \<Rightarrow> client \<times> pw_session \<Rightarrow> (client \<times> pw_session) \<times> unit outcome" where
  "playwright_client_close out st = session_client_close out pw_close st"

end
