(* ===== verification/PlaywrightFacts.thy ===== *)
theory PlaywrightFacts
  imports Playwright
begin

text \<open>
  Lemmas on the Playwright session: it answers its commands (it is a \<open>command_session\<close>), which commands
  touch the table of pages, and what its limited response bodies contain.
\<close>

section \<open>Evaluation\<close>

lemma pcall_apply [simp]: "pcall c s = (s\<lparr>pw_calls := pw_calls s @ [c]\<rparr>, Returns ())"
  by (simp add: pcall_def)

lemma pdo_apply [simp]: "pdo f s = (f s, Returns ())"
  by (simp add: pdo_def)

lemma abind_pcall [simp]: "abind (pcall c) f s = f () (s\<lparr>pw_calls := pw_calls s @ [c]\<rparr>)"
  by (simp add: abind_def)

lemma abind_pdo [simp]: "abind (pdo g) f s = f () (g s)"
  by (simp add: abind_def)

lemma abind_alift: "abind (alift r) f s = (case r of Inl e \<Rightarrow> (s, Raises e) | Inr x \<Rightarrow> f x s)"
  by (cases r) (simp_all add: abind_def)

section \<open>Answers\<close>

lemma answers_error_answer [simp]: "answers (lit c) (error_answer m c)"
  by (simp add: answers_def error_answer_def)

lemma yields_open_page: "yields (answers (lit ''open_page'')) (cmd_open_page L W body)"
  unfolding yields_def
  by (auto simp: cmd_open_page_def Let_def abind_alift araise_def answers_def error_result_def
      split: pyval.splits if_splits option.splits sum.splits)

lemma yields_execute_js: "yields (answers (lit ''execute_js'')) (cmd_execute_js L W body)"
  unfolding yields_def
  by (auto simp: cmd_execute_js_def unknown_page_def abind_alift answers_def error_result_def error_answer_def
      split: pyval.splits option.splits sum.splits)

lemma yields_close_page: "yields (answers (lit ''close_page'')) (cmd_close_page L W body)"
  unfolding yields_def
  by (auto simp: cmd_close_page_def unknown_page_def abind_alift answers_def error_result_def error_answer_def
      split: option.splits sum.splits)

lemma yields_request: "yields (answers (lit ''request'')) (cmd_request L W body)"
  unfolding yields_def
  by (auto simp: cmd_request_def Let_def abind_alift answers_def araise_def
      split: sum.splits prod.splits if_splits)

lemma playwright_commands_answer: "map_of (playwright_commands L W) cmd = Some fn \<Longrightarrow> yields (answers cmd) (fn body)"
  by (drule map_of_SomeD)
    (auto simp: playwright_commands_def yields_open_page yields_execute_js yields_close_page yields_request)

lemma pw_command_cases:
  obtains (refused) d where "handle_command L W body s = (s, Returns d)" "get d ''ok'' = PBool False"
      "\<exists>m. get d ''error'' = PStr m"
      "get d ''command'' = (case get body ''command'' of PStr c \<Rightarrow> PStr c | _ \<Rightarrow> PNone)"
      "\<forall>c. get body ''command'' = PStr c \<longrightarrow> py_strip c = []"
  | (unstarted) c s' r where "get body ''command'' = PStr c" "py_strip c \<noteq> []" "ensure_started W s = (s', r)"
      "r \<noteq> Returns ()" "handle_command L W body s = (case r of Raises e \<Rightarrow> exception_answer (py_strip c) (s', Raises e) | _ \<Rightarrow> (s', Waits))"
  | (unknown) c s' where "get body ''command'' = PStr c" "py_strip c \<noteq> []" "ensure_started W s = (s', Returns ())"
      "map_of (playwright_commands L W) (py_strip c) = None"
      "handle_command L W body s = (s', Returns [(lit ''ok'', PBool False),
         (lit ''error'', PStr (lit ''unknown command: '' @ lib_repr L (PStr (py_strip c)))), (lit ''command'', PStr (py_strip c))])"
  | (run) c s' fn where "get body ''command'' = PStr c" "py_strip c \<noteq> []" "ensure_started W s = (s', Returns ())"
      "map_of (playwright_commands L W) (py_strip c) = Some fn"
      "handle_command L W body s =
         exception_answer (py_strip c) (abind (fn body) (\<lambda>out. areturn (dict_setdefault (lit ''command'') (PStr (py_strip c)) out)) s')"
proof (cases "\<exists>c. get body ''command'' = PStr c")
  case False
  with refused show thesis by (cases "get body ''command''") (auto simp: handle_command_def)
next
  case True
  then obtain c where c: "get body ''command'' = PStr c" by blast
  show thesis
  proof (cases "py_strip c = []")
    case True
    with c refused show thesis by (simp add: handle_command_def)
  next
    case nonempty: False
    obtain s' r where r: "ensure_started W s = (s', r)" by fastforce
    show thesis
    proof (cases r)
      case (Returns u)
      with r have r': "ensure_started W s = (s', Returns ())" by simp
      show thesis
      proof (cases "map_of (playwright_commands L W) (py_strip c)")
        case None
        show thesis by (rule unknown [OF c nonempty r' None]) (use c nonempty r' None in \<open>simp add: handle_command_def Let_def\<close>)
      next
        case (Some fn)
        show thesis by (rule run [OF c nonempty r' Some]) (use c nonempty r' Some in \<open>simp add: handle_command_def Let_def\<close>)
      qed
    next
      case (Raises e)
      show thesis
        by (rule unstarted [OF c nonempty r]) (use c nonempty r Raises in \<open>simp_all add: handle_command_def Let_def\<close>)
    next
      case Waits
      show thesis
        by (rule unstarted [OF c nonempty r]) (use c nonempty r Waits in \<open>simp_all add: handle_command_def Let_def\<close>)
    qed
  qed
qed

lemma exception_answer_Returns:
  assumes "snd (exception_answer cmd (s, r)) = Returns d"
  obtains (plain) "r = Returns d"
  | (exc) e where "r = Raises e" "is_exception e"
      "d = [(lit ''ok'', PBool False), (lit ''error'', PStr (exn_msg e)),
            (lit ''error_type'', PStr (exn_name (exn_class e))), (lit ''command'', PStr cmd)]"
  using assms by (cases r) (auto simp: exception_answer_def split: if_splits)

lemma exception_answer_Raises: "snd (exception_answer cmd (s, r)) = Raises e \<Longrightarrow> \<not> is_exception e"
  by (cases r) (auto simp: exception_answer_def split: if_splits)

lemma fst_exception_answer [simp]: "fst (exception_answer cmd r) = fst r"
  by (cases r; cases "snd r") (auto simp: exception_answer_def)

text \<open>What a command that was neither refused nor unknown answers\<close>

lemma run_answer:
  assumes "map_of (playwright_commands L W) cmd = Some fn"
    and "snd (exception_answer cmd (abind (fn body) (\<lambda>out. areturn (dict_setdefault (lit ''command'') (PStr cmd) out)) s)) = Returns d"
  shows "(get d ''ok'' = PBool True \<or> get d ''ok'' = PBool False \<and> (\<exists>m. get d ''error'' = PStr m)) \<and>
    get d ''command'' = PStr cmd"
proof -
  obtain s' r where r: "abind (fn body) (\<lambda>out. areturn (dict_setdefault (lit ''command'') (PStr cmd) out)) s = (s', r)" by fastforce
  with assms(2) have "snd (exception_answer cmd (s', r)) = Returns d" by simp
  then show ?thesis
  proof (cases rule: exception_answer_Returns)
    case plain
    with r obtain s1 out where out: "fn body s = (s1, Returns out)" "d = dict_setdefault (lit ''command'') (PStr cmd) out"
      by (auto simp: abind_def split: prod.splits outcome.splits)
    from playwright_commands_answer [OF assms(1)] out(1) have "answers cmd out" by (auto simp: yields_def)
    with out(2) show ?thesis by (simp add: setdefault_answers) (simp add: answers_def)
  next
    case (exc e)
    then show ?thesis by simp
  qed
qed

interpretation pw: command_session "\<lambda>body _. handle_command L W body" Returns outcome_value outcome_exn for L W
proof
  fix body :: pydict and s :: pw_session and d :: pydict and e
  show "outcome_value (Returns d) = Some d" "outcome_exn (Returns d) = None" by simp_all
  have both: "(get d ''ok'' = PBool True \<or> get d ''ok'' = PBool False \<and> (\<exists>m. get d ''error'' = PStr m)) \<and>
      get d ''command'' = (case get body ''command'' of
        PStr c \<Rightarrow> PStr (if py_strip c = [] then c else py_strip c) | _ \<Rightarrow> PNone)"
    if "snd (handle_command L W body s) = Returns d"
  proof (cases rule: pw_command_cases [of L W body s])
    case (refused x)
    with that show ?thesis by (auto split: pyval.split)
  next
    case (unstarted c s' r)
    show ?thesis
    proof (cases r)
      case (Raises e)
      with unstarted that have "snd (exception_answer (py_strip c) (s', Raises e)) = Returns d" by simp
      then show ?thesis by (cases rule: exception_answer_Returns) (use unstarted(1,2) in simp_all)
    qed (use unstarted that in simp_all)
  next
    case (unknown c s')
    with that show ?thesis by auto
  next
    case (run c s' fn)
    from run_answer [OF run(4), of body s' d] run(1,2,5) that show ?thesis by simp
  qed
  have val: "snd (handle_command L W body s) = Returns d" if "outcome_value (snd (handle_command L W body s)) = Some d"
    using that by (cases "snd (handle_command L W body s)") auto
  show "get d ''ok'' = PBool True \<or> get d ''ok'' = PBool False \<and> (\<exists>m. get d ''error'' = PStr m)"
    "get d ''command'' = (case get body ''command'' of
        PStr c \<Rightarrow> PStr (if py_strip c = [] then c else py_strip c) | _ \<Rightarrow> PNone)"
    if "outcome_value (snd (handle_command L W body s)) = Some d"
    using both [OF val [OF that]] by blast+
  show "\<not> is_exception e" if "outcome_exn (snd (handle_command L W body s)) = Some e"
  proof -
    have raised: "snd (handle_command L W body s) = Raises e"
      using that by (cases "snd (handle_command L W body s)") auto
    show ?thesis
    proof (cases rule: pw_command_cases [of L W body s])
      case (unstarted c s' r)
      with raised show ?thesis by (cases r) (auto dest: exception_answer_Raises)
    next
      case (run c s' fn)
      with raised show ?thesis by (metis exception_answer_Raises prod.collapse)
    qed (use raised in simp_all)
  qed
qed

lemma playwright_envelope_handler_fun:
  "playwright_envelope_handler L W = session_handler (\<lambda>body _. handle_command L W body) Returns"
  by (intro ext) (simp add: playwright_envelope_handler_def)

end
