(* ===== verification/PlaywrightProps.thy ===== *)
theory PlaywrightProps
  imports PlaywrightFacts ClientProps
begin

text \<open>The properties of the Playwright handler (\<open>handlers/playwright_handler.py\<close>).\<close>

section \<open>Response bodies\<close>

text \<open>
  C37: a response body loses nothing but what is over the limit: the text, decoded by the encoding that comes with
  it, gives the first 256 KiB of the body, base64 is used only for bytes that are not UTF-8, and \<open>truncated\<close> says
  whether there were more.
\<close>

theorem response_body_faithful:
  "\<exists>t enc. encode_limited_response_body raw = (t, enc, MAX_RESPONSE_BYTES < length raw) \<and>
     (enc = lit ''utf-8'' \<and> utf8_encode t = Inr (take MAX_RESPONSE_BYTES raw) \<or>
      enc = lit ''base64'' \<and> b64decode t = Inr (take MAX_RESPONSE_BYTES raw) \<and>
        (\<forall>u. utf8_encode u \<noteq> Inr (take MAX_RESPONSE_BYTES raw)))"
proof -
  let ?chunk = "take MAX_RESPONSE_BYTES raw"
  have chunk: "(if MAX_RESPONSE_BYTES < length raw then ?chunk else raw) = ?chunk" by simp
  show ?thesis
  proof (cases "utf8_decode ?chunk")
    case (Inl e)
    have "\<not> (\<exists>u. utf8_encode u = Inr ?chunk)"
    proof
      assume "\<exists>u. utf8_encode u = Inr ?chunk"
      then obtain u where "utf8_encode u = Inr ?chunk" by blast
      from utf8.dec_enc [OF this] Inl show False by simp
    qed
    with Inl show ?thesis by (simp add: encode_limited_response_body_def Let_def chunk)
  next
    case (Inr t)
    from utf8.enc_dec [OF this] Inr show ?thesis
      by (simp add: encode_limited_response_body_def Let_def chunk)
  qed
qed

section \<open>The table of pages\<close>

definition closes :: "pydict \<Rightarrow> pystr \<Rightarrow> bool" where
  "closes body pid \<longleftrightarrow>
     (\<exists>c. get body ''command'' = PStr c \<and> py_strip c = lit ''close_page'') \<and> page_id_of body = Some pid"

text \<open>While a page loads, other commands do not close the page \<open>pid\<close>.\<close>

definition spares :: "pystr \<Rightarrow> nat \<Rightarrow> pw_world \<Rightarrow> bool" where
  "spares pid page W \<longleftrightarrow>
     (\<forall>s. map_of (pw_pages s) pid = Some page \<longrightarrow> map_of (pw_pages (po_meanwhile W s)) pid = Some page)"

lemma draw_page_id_fresh: "draw_page_id ids pages = Some pid \<Longrightarrow> map_of pages pid = None"
  by (induction ids) (auto split: if_splits)

lemma started_pages: "pw_pages (fst (ensure_started W s)) = pw_pages s"
  by (auto simp: ensure_started_def abind_alift split: sum.split)

lemma open_page_keeps:
  assumes "map_of (pw_pages s) pid = Some page" "spares pid page W"
  shows "map_of (pw_pages (fst (cmd_open_page L W body s))) pid = Some page"
proof -
  have other: "pid \<noteq> pid'" if "draw_page_id (po_ids W) (pw_pages s) = Some pid'" for pid'
    using draw_page_id_fresh [OF that] assms(1) by auto
  have kept: "map_of (pw_pages (po_meanwhile W s')) pid = Some page" if "map_of (pw_pages s') pid = Some page" for s'
    using assms(2) that by (simp add: spares_def)
  show ?thesis
    using assms(1) other kept
    by (auto simp: cmd_open_page_def Let_def abind_alift split: pyval.split sum.split option.split)
qed

lemma execute_js_keeps: "pw_pages (fst (cmd_execute_js L W body s)) = pw_pages s"
  by (auto simp: cmd_execute_js_def abind_alift split: pyval.split option.split sum.split)

lemma request_keeps: "pw_pages (fst (cmd_request L W body s)) = pw_pages s"
  by (auto simp: cmd_request_def abind_alift Let_def split: sum.split prod.split)

lemma close_page_keeps:
  "page_id_of body \<noteq> Some pid \<Longrightarrow> map_of (pw_pages (fst (cmd_close_page L W body s))) pid = map_of (pw_pages s) pid"
  by (auto simp: cmd_close_page_def abind_alift split: option.split sum.split)

lemma abind_areturn_fst: "fst (abind m (\<lambda>x. areturn (f x)) s) = fst (m s)"
  by (auto simp: abind_def split: prod.split outcome.split)

lemma command_keeps:
  assumes "map_of (pw_pages s) pid = Some page" "spares pid page W" "\<not> closes body pid"
  shows "map_of (pw_pages (fst (handle_command L W body s))) pid = Some page"
proof (cases rule: pw_command_cases [of L W body s])
  case (refused d)
  with assms(1) show ?thesis by simp
next
  case (unstarted c s' r)
  then have "fst (handle_command L W body s) = s'" by (cases r) simp_all
  with started_pages [of W s] unstarted(3) assms(1) show ?thesis by simp
next
  case (unknown c s')
  with started_pages [of W s] assms(1) show ?thesis by simp
next
  case (run c s' fn)
  have s': "map_of (pw_pages s') pid = Some page" using started_pages [of W s] run(3) assms(1) by simp
  have "py_strip c = lit ''close_page'' \<Longrightarrow> page_id_of body \<noteq> Some pid" using assms(3) run(1) by (auto simp: closes_def)
  with map_of_SomeD [OF run(4)] have "map_of (pw_pages (fst (fn body s'))) pid = Some page"
    using s' open_page_keeps [OF s' assms(2)]
    by (auto simp: playwright_commands_def execute_js_keeps request_keeps close_page_keeps)
  with run(5) show ?thesis by (simp add: abind_areturn_fst)
qed

lemma opened_page:
  assumes "cmd_open_page L W body s = (s', Returns d)" "get d ''ok'' = PBool True"
  shows "\<exists>pid page. get d ''page_id'' = PStr pid \<and> po_new_page W = Inr page \<and> map_of (pw_pages s) pid = None \<and>
    (spares pid page W \<longrightarrow> map_of (pw_pages s') pid = Some page)"
  using assms
  by (auto simp: cmd_open_page_def Let_def abind_alift error_result_def spares_def araise_def dict_get_def
      dest!: draw_page_id_fresh split: pyval.splits if_splits sum.splits option.splits)

definition run_commands :: "pylib \<Rightarrow> (pw_world \<times> pydict) list \<Rightarrow> pw_session \<Rightarrow> pw_session" where
  "run_commands L cmds s = fold (\<lambda>(W, body) s. fst (handle_command L W body s)) cmds s"

text \<open>
  C36: a page id means one page: the id that an \<open>open_page\<close> answers was not in use, and whatever commands follow,
  as long as none of them closes that page, the id stands for the page that was opened, and an \<open>execute_js\<close> with it
  evaluates its script on that page.
\<close>

theorem page_id_stands_for_its_page:
  assumes "handle_command L W body s = (s1, Returns d)" "get d ''ok'' = PBool True"
    and "get body ''command'' = PStr c" "py_strip c = lit ''open_page''" "get d ''page_id'' = PStr pid"
    and "po_new_page W = Inr page" "spares pid page W"
    and "\<forall>(W', b) \<in> set cmds. spares pid page W' \<and> \<not> closes b pid"
    and "page_id_of b = Some pid" "get b ''script'' = PStr script"
  shows "map_of (pw_pages s) pid = None \<and>
    map_of (pw_pages (run_commands L cmds s1)) pid = Some page \<and>
    pw_calls (fst (cmd_execute_js L W' b (run_commands L cmds s1))) =
      pw_calls (run_commands L cmds s1) @ [Evaluate page script]"
proof -
  have nonempty: "lit ''open_page'' \<noteq> []" by simp
  obtain s0 where start: "ensure_started W s = (s0, Returns ())"
    and r: "exception_answer (lit ''open_page'')
      (abind (cmd_open_page L W body) (\<lambda>out. areturn (dict_setdefault (lit ''command'') (PStr (lit ''open_page'')) out)) s0) =
      (s1, Returns d)"
  proof (cases rule: pw_command_cases [of L W body s])
    case (run c' s' fn)
    have "fn = cmd_open_page L W" using run(1,4) assms(3,4) by (simp add: playwright_commands_def)
    with run assms(1,3,4) that show thesis by simp
  next
    case (unstarted c' s' r)
    with assms(1,2) show thesis by (cases r) (auto simp: exception_answer_def split: if_splits)
  qed (use assms in auto)
  obtain s2 r2 where b: "abind (cmd_open_page L W body)
      (\<lambda>out. areturn (dict_setdefault (lit ''command'') (PStr (lit ''open_page'')) out)) s0 = (s2, r2)" by fastforce
  from r b have "snd (exception_answer (lit ''open_page'') (s2, r2)) = Returns d" by simp
  moreover have s21: "s2 = s1" using r b fst_exception_answer [of "lit ''open_page''" "(s2, r2)"] by simp
  ultimately have "r2 = Returns d" by (cases rule: exception_answer_Returns) (use assms(2) in simp_all)
  with b s21 obtain out where out: "cmd_open_page L W body s0 = (s1, Returns out)"
    "d = dict_setdefault (lit ''command'') (PStr (lit ''open_page'')) out"
    by (auto simp: abind_def split: prod.splits outcome.splits)
  have "get d ''page_id'' = get out ''page_id''"
    by (auto simp: out(2) dict_setdefault_def dict_get_def split: option.split)
  with opened_page [OF out(1)] out(2) assms(2,5-7) setdefault_answers(2)
  have opened: "map_of (pw_pages s0) pid = None" "map_of (pw_pages s1) pid = Some page" by auto
  have "map_of (pw_pages (run_commands L cmds s')) pid = Some page" if "map_of (pw_pages s') pid = Some page" for s'
    using assms(8) that unfolding run_commands_def
  proof (induction cmds arbitrary: s')
    case (Cons x xs)
    obtain W'' b' where x: "x = (W'', b')" by fastforce
    with Cons.prems have "map_of (pw_pages (fst (handle_command L W'' b' s'))) pid = Some page"
      by (intro command_keeps) auto
    with Cons x show ?case by simp
  qed simp
  with opened have page: "map_of (pw_pages (run_commands L cmds s1)) pid = Some page" by blast
  then have "pw_calls (fst (cmd_execute_js L W' b (run_commands L cmds s1))) =
      pw_calls (run_commands L cmds s1) @ [Evaluate page script]"
    using assms(9,10) by (simp add: cmd_execute_js_def abind_alift split: sum.split)
  with page opened(1) started_pages [of W s] start show ?thesis by simp
qed

definition sample_pw_world :: pw_world where
  "sample_pw_world = \<lparr>po_import = Inr (), po_start = Inr (), po_launch = Inr (), po_new_context = Inr (),
     po_new_page = Inr 7, po_ids = [lit ''a1''], po_goto = Inr (), po_meanwhile = (\<lambda>s. s),
     po_evaluate = Inr PNone, po_prepare = (\<lambda>_. raise ValueError ''no''), po_fetch = Inr (200, []), po_body = Inr [],
     po_close_page = Inr ()\<rparr>"

definition sample_open :: pydict where
  "sample_open = [(lit ''command'', PStr (lit ''open_page'')), (lit ''url'', PStr (lit ''u''))]"

definition sample_script :: pydict where
  "sample_script = [(lit ''page_id'', PStr (lit ''a1'')), (lit ''script'', PStr (lit ''1''))]"

lemma sample_strips:
  "py_strip (lit ''open_page'') = lit ''open_page''" "py_strip (lit ''u'') = lit ''u''" "py_strip (lit ''a1'') = lit ''a1''"
  by (simp_all add: lit_Cons py_strip_def py_lstrip_def py_rstrip_def py_space_def)

lemma sample_opened:
  "\<exists>s1 d. handle_command sample_lib sample_pw_world sample_open (new_playwright_session None) = (s1, Returns d) \<and>
     get d ''ok'' = PBool True \<and> get d ''page_id'' = PStr (lit ''a1'')"
proof -
  let ?s = "new_playwright_session None\<lparr>pw_playwright := True, pw_browser := True, pw_context := True,
      pw_calls := [StartPlaywright, Launch (lit ''msedge'') True, NewContext]\<rparr>"
  have start: "ensure_started sample_pw_world (new_playwright_session None) = (?s, Returns ())"
    by (simp add: ensure_started_def sample_pw_world_def new_playwright_session_def default_playwright_config_def)
  have "\<exists>s1. cmd_open_page sample_lib sample_pw_world sample_open ?s =
      (s1, Returns [(lit ''ok'', PBool True), (lit ''page_id'', PStr (lit ''a1'')), (lit ''url'', PStr (lit ''u''))])"
    by (simp add: cmd_open_page_def sample_open_def sample_strips sample_pw_world_def new_playwright_session_def Let_def)
  then obtain s1 where "cmd_open_page sample_lib sample_pw_world sample_open ?s =
      (s1, Returns [(lit ''ok'', PBool True), (lit ''page_id'', PStr (lit ''a1'')), (lit ''url'', PStr (lit ''u''))])" by blast
  moreover have "get sample_open ''command'' = PStr (lit ''open_page'')" by (simp add: sample_open_def)
  ultimately show ?thesis
    using start by (simp add: handle_command_def sample_strips playwright_commands_def abind_def exception_answer_def
        dict_setdefault_def dict_set_def)
qed

theorem page_id_stands_for_its_page_witness:
  "\<exists>s1. map_of (pw_pages s1) (lit ''a1'') = Some 7 \<and>
     pw_calls (fst (cmd_execute_js sample_lib sample_pw_world sample_script s1)) = pw_calls s1 @ [Evaluate 7 (lit ''1'')]"
proof -
  obtain s1 d where open_page: "handle_command sample_lib sample_pw_world sample_open (new_playwright_session None) = (s1, Returns d)"
    "get d ''ok'' = PBool True" "get d ''page_id'' = PStr (lit ''a1'')" using sample_opened by blast
  have "get sample_open ''command'' = PStr (lit ''open_page'')" "page_id_of sample_script = Some (lit ''a1'')"
    "get sample_script ''script'' = PStr (lit ''1'')" "po_new_page sample_pw_world = Inr 7"
    "spares (lit ''a1'') 7 sample_pw_world"
    by (simp_all add: sample_open_def sample_script_def page_id_of_def sample_strips sample_pw_world_def spares_def)
  with page_id_stands_for_its_page [OF open_page(1,2) _ sample_strips(1) open_page(3), of 7 "[]" sample_script "lit ''1''" sample_pw_world]
  show ?thesis by (intro exI [of _ s1]) (simp add: run_commands_def)
qed

section \<open>Answers\<close>

text \<open>
  Every envelope is answered: the handler returns a body whose \<open>"ok"\<close> is a boolean, with an error text if it
  is false, and whose \<open>"command"\<close> is the command of the request, also when the browser does not start; nothing that
  \<open>except Exception\<close> would catch gets out.
\<close>

theorem playwright_handler_answers:
  "(\<forall>d. snd (playwright_envelope_handler L W body rid s) = Returns d \<longrightarrow>
      (get d ''ok'' = PBool True \<or> get d ''ok'' = PBool False \<and> (\<exists>m. get d ''error'' = PStr m)) \<and>
      get d ''command'' = (case get (case body of None \<Rightarrow> [] | Some b \<Rightarrow> b) ''command'' of
        PStr c \<Rightarrow> PStr (if py_strip c = [] then c else py_strip c) | _ \<Rightarrow> PNone)) \<and>
   (\<forall>e. snd (playwright_envelope_handler L W body rid s) = Raises e \<longrightarrow> \<not> is_exception e)"
proof -
  have "snd (playwright_envelope_handler L W body rid s) = Returns d \<longleftrightarrow>
      outcome_value (snd (session_handler (\<lambda>b _. handle_command L W b) Returns body rid s)) = Some d" for d
    by (cases "snd (session_handler (\<lambda>b _. handle_command L W b) Returns body rid s)")
      (auto simp: playwright_envelope_handler_def)
  moreover have "snd (playwright_envelope_handler L W body rid s) = Raises e \<longleftrightarrow>
      outcome_exn (snd (session_handler (\<lambda>b _. handle_command L W b) Returns body rid s)) = Some e" for e
    by (cases "snd (session_handler (\<lambda>b _. handle_command L W b) Returns body rid s)")
      (auto simp: playwright_envelope_handler_def)
  ultimately show ?thesis using pw.handler_answers [of L W body rid s] by simp
qed

theorem playwright_handler_answers_witness:
  "\<exists>d. snd (playwright_envelope_handler sample_lib sample_pw_world (Some sample_open) [] (new_playwright_session None)) = Returns d \<and>
     get d ''command'' = PStr (lit ''open_page'')"
proof -
  obtain d where "snd (playwright_envelope_handler sample_lib sample_pw_world (Some sample_open) [] (new_playwright_session None)) = Returns d"
    using sample_opened by (auto simp: playwright_envelope_handler_def session_handler_def sample_open_def)
  with playwright_handler_answers [of sample_lib sample_pw_world "Some sample_open" "[]" "new_playwright_session None"]
  show ?thesis by (simp add: sample_open_def sample_strips)
qed

section \<open>A start that fails half-way\<close>

text \<open>
  C39: if \<open>new_context\<close> raises, the session counts as started without a context: from then on every \<open>open_page\<close> is
  answered with an \<open>AssertionError\<close>, until the session is closed.
\<close>

theorem half_started_session_unusable:
  assumes "\<not> pw_browser s" "\<not> pw_context s" "po_import W = Inr ()" "po_start W = Inr ()" "po_launch W = Inr ()"
    and "po_new_context W = Inl e"
    and "get body ''command'' = PStr (lit ''open_page'')" "get body ''url'' = PStr u" "py_strip u \<noteq> []"
  shows "\<exists>s'. ensure_started W s = (s', Raises e) \<and>
    handle_command L W' body s' = (s', Returns [(lit ''ok'', PBool False), (lit ''error'', PStr []),
      (lit ''error_type'', PStr (lit ''AssertionError'')), (lit ''command'', PStr (lit ''open_page''))])"
proof -
  obtain s' where s': "ensure_started W s = (s', Raises e)" "pw_browser s'" "\<not> pw_context s'"
    using assms(1-6) by (auto simp: ensure_started_def abind_alift)
  have "py_strip (lit ''open_page'') = lit ''open_page''" by (rule sample_strips)
  with s'(2,3) assms(7-9) have "handle_command L W' body s' = (s', Returns [(lit ''ok'', PBool False), (lit ''error'', PStr []),
      (lit ''error_type'', PStr (lit ''AssertionError'')), (lit ''command'', PStr (lit ''open_page''))])"
    by (simp add: handle_command_def ensure_started_def playwright_commands_def cmd_open_page_def exception_answer_def
        is_exception_def abind_def Let_def)
  with s'(1) show ?thesis by blast
qed

theorem half_started_session_unusable_witness:
  "\<exists>s'. handle_command sample_lib sample_pw_world sample_open s' = (s', Returns [(lit ''ok'', PBool False), (lit ''error'', PStr []),
      (lit ''error_type'', PStr (lit ''AssertionError'')), (lit ''command'', PStr (lit ''open_page''))])"
proof -
  let ?W = "sample_pw_world\<lparr>po_new_context := raise (OtherException (lit ''Error'')) ''no''\<rparr>"
  have "\<exists>s'. ensure_started ?W (new_playwright_session None) = (s', Raises (Exn (OtherException (lit ''Error'')) (lit ''no''))) \<and>
    handle_command sample_lib sample_pw_world sample_open s' = (s', Returns [(lit ''ok'', PBool False), (lit ''error'', PStr []),
      (lit ''error_type'', PStr (lit ''AssertionError'')), (lit ''command'', PStr (lit ''open_page''))])"
    by (rule half_started_session_unusable [where u = "lit ''u''"])
      (simp_all add: sample_pw_world_def new_playwright_session_def sample_open_def sample_strips raise_def)
  then show ?thesis by blast
qed

section \<open>The client\<close>



text \<open>
  \<open>close\<close> of a \<open>PlaywrightRpcProxyClient\<close> closes every page, the context, the browser and Playwright, in this
  order, unless the reader failed: then \<open>close\<close> raises and the browser stays.
\<close>

theorem playwright_client_close_releases:
  "(\<forall>e. c_reader c = Failed e \<longrightarrow> playwright_client_close out (c, s) = ((c, s), Raises e)) \<and>
   ((\<forall>e. c_reader c \<noteq> Failed e) \<and> (\<forall>e. out = Inl e \<longrightarrow> is_exception e) \<longrightarrow>
     (\<exists>c' s'. playwright_client_close out (c, s) = ((c', s'), Returns ()) \<and> ClientBase.close out c = (c', Inr ()) \<and>
        pw_pages s' = [] \<and> \<not> pw_browser s' \<and> \<not> pw_playwright s' \<and>
        pw_calls s' = pw_calls s @ map (\<lambda>p. ClosePage (snd p)) (pw_pages s) @
          (if pw_context s then [CloseContext] else []) @ (if pw_browser s then [CloseBrowser] else []) @
          (if pw_playwright s then [StopPlaywright] else [])))"
proof (intro conjI allI impI)
  fix e assume "c_reader c = Failed e"
  then show "playwright_client_close out (c, s) = ((c, s), Raises e)"
    by (simp add: playwright_client_close_def session_client_close_failed)
next
  assume "(\<forall>e. c_reader c \<noteq> Failed e) \<and> (\<forall>e. out = Inl e \<longrightarrow> is_exception e)"
  with session_client_close_shuts [of c out pw_close s]
  show "\<exists>c' s'. playwright_client_close out (c, s) = ((c', s'), Returns ()) \<and> ClientBase.close out c = (c', Inr ()) \<and>
        pw_pages s' = [] \<and> \<not> pw_browser s' \<and> \<not> pw_playwright s' \<and>
        pw_calls s' = pw_calls s @ map (\<lambda>p. ClosePage (snd p)) (pw_pages s) @
          (if pw_context s then [CloseContext] else []) @ (if pw_browser s then [CloseBrowser] else []) @
          (if pw_playwright s then [StopPlaywright] else [])"
    by (auto simp: playwright_client_close_def pw_close_def split_def)
qed

end
