(* ===== verification/Cli.thy ===== *)
theory Cli
  imports ClientPost AdbHandler Playwright Sessions
begin

text \<open>
  The command line: \<open>src/rpcproxy/cli_post.py\<close> (\<open>rpcproxy post\<close>: one message and the wait for its receipt),
  \<open>src/rpcproxy/cli.py\<close> (the commands that run a loop) and \<open>src/rpcproxy/logging_config.py\<close>.  Click parses the
  arguments; what the callbacks accept, what the commands run and print, and how they exit is modelled.
\<close>

section \<open>Option values\<close>

text \<open>\<open>stdin\<close> is what \<open>sys.stdin.read()\<close> gives, \<open>read_file\<close> what opening and reading a file as UTF-8 does.\<close>

definition read_body_raw ::
    "(py_exn + pystr) \<Rightarrow> (pystr \<Rightarrow> py_exn + pystr) \<Rightarrow> pystr \<Rightarrow> py_exn + pystr" where
  "read_body_raw stdin read_file v =
     (if v = lit ''-'' \<or> v = lit ''@-'' then stdin
      else if v \<noteq> [] \<and> hd v = 64
      then let path = tl v
           in if path = [] then raise BadParameter ''use @path (e.g. @payload.json) or @- for stdin''
              else (case read_file path of
                      Inl e \<Rightarrow> if exn_class e = OSError
                               then Inl (Exn BadParameter (lit ''cannot read body file: '' @ exn_msg e)) else Inl e
                    | Inr t \<Rightarrow> Inr t)
      else Inr v)"

definition body_option_callback ::
    "pylib \<Rightarrow> (py_exn + pystr) \<Rightarrow> (pystr \<Rightarrow> py_exn + pystr) \<Rightarrow> pystr \<Rightarrow> py_exn + pydict" where
  "body_option_callback L stdin read_file v =
     rbind (read_body_raw stdin read_file v) (\<lambda>raw.
     case lib_loads L raw of
       Inl e \<Rightarrow> if exn_class e = JSONDecodeError
                then Inl (Exn BadParameter (lit ''invalid JSON: '' @ exn_msg e)) else Inl e
     | Inr (PDict d) \<Rightarrow> Inr d
     | Inr _ \<Rightarrow> raise BadParameter ''must be a JSON object (e.g. {})'')"

definition timeout_option_callback :: "pyfloat \<Rightarrow> py_exn + pyfloat" where
  "timeout_option_callback v = (if float_le v (FFin 0 0) then raise BadParameter ''must be positive'' else Inr v)"

definition shell_timeout_option_callback :: "pyfloat \<Rightarrow> py_exn + pyfloat" where
  "shell_timeout_option_callback v = (if float_le v (FFin 0 0) then raise BadParameter ''must be positive'' else Inr v)"

definition max_inflight_option_callback :: "int \<Rightarrow> py_exn + int" where
  "max_inflight_option_callback v = (if v < 1 then raise BadParameter ''must be >= 1'' else Inr v)"

section \<open>One post\<close>

text \<open>
  What \<open>run_post\<close> does with its client, each on the state \<open>'s\<close> of client and event loop: connect, start the
  task that waits for the receipt and let it run up to its first wait, post, await the task, look whether it is
  over, cancel and await it, close.
\<close>

record ('s, 'p) post_client =
  pl_connect :: "'s \<Rightarrow> 's \<times> (py_exn + unit)"
  pl_start_wait :: "pystr \<Rightarrow> 's \<Rightarrow> 's"
  pl_post :: "pystr \<Rightarrow> 's \<Rightarrow> 's \<times> (py_exn + 'p)"
  pl_await_wait :: "'s \<Rightarrow> 's \<times> (py_exn + pydict)"
  pl_wait_done :: "'s \<Rightarrow> bool"
  pl_cancel_wait :: "'s \<Rightarrow> 's \<times> (py_exn + unit)"
  pl_close :: "'s \<Rightarrow> 's \<times> (py_exn + unit)"

definition post_request_id :: "pystr \<Rightarrow> pystr \<Rightarrow> pystr" where
  "post_request_id fresh request_id = (if py_strip request_id = [] then fresh else py_strip request_id)"

definition run_post :: "('s, 'p) post_client \<Rightarrow> pystr \<Rightarrow> pystr \<Rightarrow> 's \<Rightarrow> 's \<times> (py_exn + (pystr \<times> 'p \<times> pydict))" where
  "run_post C fresh request_id s =
     (let rid = post_request_id fresh request_id
      in case pl_connect C s of
           (s1, Inl e) \<Rightarrow> (s1, Inl e)
         | (s1, Inr _) \<Rightarrow>
             let s2 = pl_start_wait C rid s1;
                 (s3, posted) = pl_post C rid s2;
                 (s4, receipt) = (case posted of
                     Inl e \<Rightarrow> (s3, Inl e)
                   | Inr p \<Rightarrow> (case pl_await_wait C s3 of (s', r) \<Rightarrow> (s', rbind r (\<lambda>d. Inr (rid, p, d)))));
                 (s5, out) = (case receipt of
                     Inr x \<Rightarrow> (s4, Inr x)
                   | Inl e \<Rightarrow>
                       if pl_wait_done C s4 then (s4, Inl e)
                       else (case pl_cancel_wait C s4 of
                               (s', Inl e') \<Rightarrow> (s', if exn_class e' \<in> {CancelledError, TimeoutError} then Inl e else Inl e')
                             | (s', Inr _) \<Rightarrow> (s', Inl e)));
                 (s6, closed) = pl_close C s5
             in (s6, case closed of Inl e \<Rightarrow> Inl e | Inr _ \<Rightarrow> out))"

text \<open>\<open>asdict\<close> of the result of a post\<close>

definition report_dict :: "chunk_send_report \<Rightarrow> pydict" where
  "report_dict r =
     [(lit ''transfer_id'', PStr (csr_transfer_id r)), (lit ''request_id'', PStr (csr_request_id r)),
      (lit ''chunk_count'', PInt (csr_chunk_count r)),
      (lit ''transport_request_ids'', PList (map PStr (csr_transport_request_ids r))),
      (lit ''responses'', PList (map PStr (csr_responses r)))]"

definition post_result_dict :: "auto_post_message_result \<Rightarrow> pydict" where
  "post_result_dict r =
     [(lit ''chunked'', PBool (apr_chunked r)),
      (lit ''response'', case apr_response r of None \<Rightarrow> PNone | Some t \<Rightarrow> PStr t),
      (lit ''chunk_report'', case apr_chunk_report r of None \<Rightarrow> PNone | Some c \<Rightarrow> PDict (report_dict c))]"

text \<open>\<open>json.dumps(v, default=str)\<close>: objects outside the JSON types are written as their \<open>str()\<close>.\<close>

fun json_default :: "pyval \<Rightarrow> pyval" where
  "json_default (PList vs) = PList (map json_default vs)"
| "json_default (PDict d) = PDict (map (\<lambda>(k, v). (k, json_default v)) d)"
| "json_default (PObj t) = PStr t"
| "json_default v = v"

text \<open>
  How \<open>asyncio.run\<close> ends, and how a command ends: it prints a line or nothing and exits normally, writes an
  error and exits with a code, is refused by click with a usage error, or lets an exception through.
\<close>

datatype 'a run_end = Ran 'a | Failed py_exn | Interrupted

datatype command_end = Printed pystr | Finished | ExitWith nat "pystr option" | Usage pystr | Propagates py_exn

definition post_cmd :: "pylib \<Rightarrow> (pystr \<times> auto_post_message_result \<times> pydict) run_end \<Rightarrow> command_end" where
  "post_cmd L run =
     (let failed = (\<lambda>e. if exn_class e = TimeoutError
                         then ExitWith 1 (Some (lit ''error: timed out (post_message or wait_relay_predicate)''))
                         else if is_exception e then ExitWith 1 (Some (lit ''error: '' @ exn_msg e))
                         else Propagates e)
      in case run of
           Interrupted \<Rightarrow> ExitWith 130 None
         | Failed e \<Rightarrow> failed e
         | Ran (rid, post_result, receipt) \<Rightarrow>
             (case lib_dumps L False False (json_default (PDict
                     [(lit ''request_id'', PStr rid), (lit ''post_message'', PDict (post_result_dict post_result)),
                      (lit ''relay'', PDict receipt)])) of
                Inl e \<Rightarrow> failed e
              | Inr t \<Rightarrow> Printed t))"

section \<open>The commands that run a loop\<close>

definition demo_cmd :: "unit run_end \<Rightarrow> command_end" where
  "demo_cmd run = (case run of Ran _ \<Rightarrow> Finished | Interrupted \<Rightarrow> Finished | Failed e \<Rightarrow> Propagates e)"

definition loop_cmd :: "unit run_end \<Rightarrow> command_end" where
  "loop_cmd run =
     (case run of
        Ran _ \<Rightarrow> Finished
      | Interrupted \<Rightarrow> ExitWith 130 None
      | Failed e \<Rightarrow> if is_exception e then ExitWith 1 (Some (lit ''error: '' @ exn_msg e)) else Propagates e)"

text \<open>\<open>run\<close> is what \<open>asyncio.run(run_playwright(...))\<close> does with a configuration and a bound.\<close>

definition playwright_cmd ::
    "bool \<Rightarrow> (playwright_handler_config \<Rightarrow> int \<Rightarrow> unit run_end) \<Rightarrow> pystr \<Rightarrow> bool \<Rightarrow> int \<Rightarrow> command_end" where
  "playwright_cmd installed run channel headless max_inflight =
     (if \<not> installed then ExitWith 1 (Some (lit ''error: playwright is not installed; use: pip install 'rpcproxy[playwright]' then: playwright install msedge''))
      else loop_cmd (run \<lparr>pc_channel = channel, pc_headless = headless\<rparr> max_inflight))"

definition adb_cmd ::
    "pystr list \<Rightarrow> (adb_handler_config \<Rightarrow> int \<Rightarrow> unit run_end) \<Rightarrow> pystr option \<Rightarrow> pystr \<Rightarrow> pystr list option \<Rightarrow>
     pyfloat \<Rightarrow> int \<Rightarrow> command_end" where
  "adb_cmd cache run serial adb_bin screenshot_dir shell_timeout max_inflight =
     (let cfg = (default_adb_config cache)\<lparr>ac_serial := serial, ac_adb_bin := adb_bin, ac_shell_timeout := shell_timeout\<rparr>;
          cfg = (case screenshot_dir of None \<Rightarrow> cfg | Some d \<Rightarrow> cfg\<lparr>ac_screenshot_dir := d\<rparr>)
      in loop_cmd (run cfg max_inflight))"

section \<open>Options and their defaults\<close>

text \<open>
  An option that is not given has its default, and the value goes through the option's callback either way;
  click turns a \<open>BadParameter\<close> into a usage error. When two options are bad click reports the one given
  first: the \<open>bool\<close> of the records below.
\<close>

definition option_value :: "'a \<Rightarrow> 'a option \<Rightarrow> 'a" where
  "option_value dflt given = (case given of None \<Rightarrow> dflt | Some v \<Rightarrow> v)"

definition with_option :: "py_exn + 'a \<Rightarrow> ('a \<Rightarrow> command_end) \<Rightarrow> command_end" where
  "with_option checked f =
     (case checked of
        Inl e \<Rightarrow> if exn_class e = BadParameter then Usage (exn_msg e) else Propagates e
      | Inr v \<Rightarrow> f v)"

record playwright_options =
  op_channel :: "pystr option"
  op_headless :: "bool option"
  op_max_inflight :: "int option"

definition playwright_command ::
    "bool \<Rightarrow> (playwright_handler_config \<Rightarrow> int \<Rightarrow> unit run_end) \<Rightarrow> playwright_options \<Rightarrow> command_end" where
  "playwright_command installed run opts =
     with_option (max_inflight_option_callback (option_value 8 (op_max_inflight opts))) (\<lambda>n.
       playwright_cmd installed run (option_value (lit ''msedge'') (op_channel opts))
         (option_value True (op_headless opts)) n)"

record adb_options =
  oa_serial :: "pystr option"
  oa_adb_bin :: "pystr option"
  oa_screenshot_dir :: "pystr list option"
  oa_shell_timeout :: "pyfloat option"
  oa_max_inflight :: "int option"
  oa_inflight_first :: bool

definition adb_command ::
    "pystr list \<Rightarrow> (adb_handler_config \<Rightarrow> int \<Rightarrow> unit run_end) \<Rightarrow> adb_options \<Rightarrow> command_end" where
  "adb_command cache run opts =
     (let timeout = shell_timeout_option_callback (option_value (FFin 60 0) (oa_shell_timeout opts));
          inflight = max_inflight_option_callback (option_value 8 (oa_max_inflight opts));
          go = (\<lambda>t n. adb_cmd cache run (oa_serial opts) (option_value (lit ''adb'') (oa_adb_bin opts))
                        (oa_screenshot_dir opts) t n)
      in if oa_inflight_first opts
         then with_option inflight (\<lambda>n. with_option timeout (\<lambda>t. go t n))
         else with_option timeout (\<lambda>t. with_option inflight (\<lambda>n. go t n)))"

record post_options =
  oo_receiver :: "pystr option"
  oo_body :: "pystr option"
  oo_request_id :: "pystr option"
  oo_timeout :: "pyfloat option"
  oo_timeout_first :: bool

definition post_command ::
    "pylib \<Rightarrow> (py_exn + pystr) \<Rightarrow> (pystr \<Rightarrow> py_exn + pystr) \<Rightarrow>
     (pystr \<Rightarrow> pydict \<Rightarrow> pystr \<Rightarrow> pyfloat \<Rightarrow> (pystr \<times> auto_post_message_result \<times> pydict) run_end) \<Rightarrow>
     post_options \<Rightarrow> command_end" where
  "post_command L stdin read_file run opts =
     (let body = body_option_callback L stdin read_file (option_value (lit ''{}'') (oo_body opts));
          timeout = timeout_option_callback (option_value (FFin 30 0) (oo_timeout opts));
          go = (\<lambda>b t. post_cmd L (run (option_value [] (oo_receiver opts)) b (option_value [] (oo_request_id opts)) t))
      in if oo_timeout_first opts
         then with_option timeout (\<lambda>t. with_option body (\<lambda>b. go b t))
         else with_option body (\<lambda>b. with_option timeout (\<lambda>t. go b t)))"

text \<open>\<open>_PostCliClient.receive_envelope\<close>\<close>

definition post_cli_receive_envelope :: "envelope \<Rightarrow> pydict" where
  "post_cli_receive_envelope ev = ok_result True"

text \<open>
  \<open>main\<close>, the group: \<open>setup\<close> is what \<open>setup_logging\<close> does, before click looks at the arguments of the
  command \<open>cmd\<close>.
\<close>

definition main_group :: "'g \<times> (py_exn + pystr) \<Rightarrow> command_end \<Rightarrow> 'g \<times> command_end" where
  "main_group setup cmd = (fst setup, case snd setup of Inl e \<Rightarrow> Propagates e | Inr _ \<Rightarrow> cmd)"

section \<open>Logging\<close>

text \<open>
  \<open>env_dir\<close> and \<open>env_level\<close> are the environment variables; expanding and resolving a path, the user's log
  directory, \<open>str.upper\<close> and the attributes of the module \<open>logging\<close> are parameters.
\<close>

definition resolve_log_dir :: "(pystr \<Rightarrow> pystr) \<Rightarrow> pystr \<Rightarrow> pystr option \<Rightarrow> pystr" where
  "resolve_log_dir expand default_dir env_dir =
     (let override = py_strip (case env_dir of None \<Rightarrow> [] | Some v \<Rightarrow> v)
      in if override \<noteq> [] then expand override else default_dir)"

definition resolve_level :: "(pystr \<Rightarrow> pystr) \<Rightarrow> (pystr \<Rightarrow> pyval option) \<Rightarrow> pystr option \<Rightarrow> pyval" where
  "resolve_level upper logging_attr env_level =
     (let name = upper (py_strip (case env_level of None \<Rightarrow> lit ''INFO'' | Some v \<Rightarrow> v))
      in case logging_attr name of None \<Rightarrow> PInt 20 | Some v \<Rightarrow> v)"

datatype log_handler = RotatingFile pystr int nat pyval | Stderr pyval

record log_state =
  lg_setup_done :: bool
  lg_dir :: "pystr option"
  lg_level :: pyval
  lg_propagate :: bool
  lg_handlers :: "log_handler list"

text \<open>
  \<open>made\<close> says whether the directory could be made, \<open>opened\<close> whether the file could be opened and \<open>levelled\<close>
  whether \<open>setLevel\<close> takes the level.
\<close>

definition setup_logging ::
    "pystr \<Rightarrow> pyval \<Rightarrow> py_exn + unit \<Rightarrow> py_exn + unit \<Rightarrow> py_exn + unit \<Rightarrow> log_state \<Rightarrow> log_state \<times> (py_exn + pystr)" where
  "setup_logging log_dir level made levelled opened s =
     (case (lg_setup_done s, lg_dir s) of
        (True, Some d) \<Rightarrow> (s, Inr d)
      | _ \<Rightarrow>
          (case made of
             Inl e \<Rightarrow> (s, Inl e)
           | Inr _ \<Rightarrow>
               let s = s\<lparr>lg_dir := Some log_dir\<rparr>
               in (case levelled of
                     Inl e \<Rightarrow> (s, Inl e)
                   | Inr _ \<Rightarrow>
                       let s = s\<lparr>lg_level := level, lg_propagate := False\<rparr>
                       in (case opened of
                             Inl e \<Rightarrow> (s, Inl e)
                           | Inr _ \<Rightarrow>
                               (s\<lparr>lg_handlers := lg_handlers s @
                                    [RotatingFile (log_dir @ lit ''/rpcproxy.log'') (10 * 1024 * 1024) 4 level, Stderr level],
                                  lg_setup_done := True\<rparr>, Inr log_dir)))))"

end
