(* ===== verification/CliProps.thy ===== *)
theory CliProps
  imports Cli StdLib DemoLoop
begin

text \<open>The properties of the command line (\<open>cli_post.py\<close>, \<open>logging_config.py\<close>).\<close>

section \<open>One post\<close>

datatype post_event = Connect | StartWait pystr | Post pystr | AwaitWait | CancelWait | Close

text \<open>The same client, with what it was asked to do so far beside its state\<close>

definition traced :: "('s, 'p) post_client \<Rightarrow> ('s \<times> post_event list, 'p) post_client" where
  "traced C =
     \<lparr>pl_connect = (\<lambda>(s, l). case pl_connect C s of (s', r) \<Rightarrow> ((s', l @ [Connect]), r)),
      pl_start_wait = (\<lambda>rid (s, l). (pl_start_wait C rid s, l @ [StartWait rid])),
      pl_post = (\<lambda>rid (s, l). case pl_post C rid s of (s', r) \<Rightarrow> ((s', l @ [Post rid]), r)),
      pl_await_wait = (\<lambda>(s, l). case pl_await_wait C s of (s', r) \<Rightarrow> ((s', l @ [AwaitWait]), r)),
      pl_wait_done = (\<lambda>(s, l). pl_wait_done C s),
      pl_cancel_wait = (\<lambda>(s, l). case pl_cancel_wait C s of (s', r) \<Rightarrow> ((s', l @ [CancelWait]), r)),
      pl_close = (\<lambda>(s, l). case pl_close C s of (s', r) \<Rightarrow> ((s', l @ [Close]), r))\<rparr>"

text \<open>
  C40: a post listens before it speaks and cleans up: once connected, the wait for the receipt is started before the
  message is sent, under the same request id; then the waiting task is awaited, or cancelled if the post failed,
  unless it is already over, and the client is closed last.  A result means that the task was awaited.
\<close>

theorem post_waits_first_and_closes:
  assumes "\<forall>s. pl_wait_done C (fst (pl_await_wait C s))"
    and "run_post (traced C) fresh request_id (s, []) = ((s', log), r)"
    and "rid = post_request_id fresh request_id"
    and "s3 = fst (pl_post C rid (pl_start_wait C rid (fst (pl_connect C s))))"
  shows "(log = [Connect] \<and> (\<exists>e. snd (pl_connect C s) = Inl e \<and> r = Inl e) \<or>
      log = [Connect, StartWait rid, Post rid, AwaitWait, Close] \<or>
      log = [Connect, StartWait rid, Post rid, CancelWait, Close] \<and> \<not> pl_wait_done C s3 \<or>
      log = [Connect, StartWait rid, Post rid, Close] \<and> pl_wait_done C s3) \<and>
    (\<forall>x. r = Inr x \<longrightarrow> log = [Connect, StartWait rid, Post rid, AwaitWait, Close])"
proof -
  obtain s1 r1 where connect: "pl_connect C s = (s1, r1)" by fastforce
  show ?thesis
  proof (cases r1)
    case (Inl e)
    with connect assms(2) show ?thesis by (auto simp: run_post_def traced_def)
  next
    case (Inr u)
    obtain s4 p where post: "pl_post C rid (pl_start_wait C rid s1) = (s4, p)" by fastforce
    then have s3: "s3 = s4" using assms(4) connect by simp
    note start = connect Inr post assms(3) [symmetric]
    show ?thesis
    proof (cases p)
      case posted: (Inr p')
      obtain s5 d where wait: "pl_await_wait C s4 = (s5, d)" by fastforce
      then have "pl_wait_done C s5" using assms(1) by (metis fst_conv)
      with assms(2) start posted wait have "log = [Connect, StartWait rid, Post rid, AwaitWait, Close]"
        by (cases d; cases "pl_close C s5") (simp_all add: run_post_def traced_def Let_def)
      then show ?thesis by simp
    next
      case failed: (Inl e)
      show ?thesis
      proof (cases "pl_wait_done C s4")
        case True
        with assms(2) start failed show ?thesis
          by (cases "pl_close C s4") (auto simp: run_post_def traced_def Let_def s3 split: sum.splits)
      next
        case False
        obtain s5 d where "pl_cancel_wait C s4 = (s5, d)" by fastforce
        with False assms(2) start failed show ?thesis
          by (cases d; cases "pl_close C s5") (auto simp: run_post_def traced_def Let_def s3 split: sum.splits if_splits)
      qed
    qed
  qed
qed

definition sample_post_client :: "(unit, auto_post_message_result) post_client" where
  "sample_post_client =
     \<lparr>pl_connect = (\<lambda>s. (s, Inr ())), pl_start_wait = (\<lambda>_ s. s),
      pl_post = (\<lambda>_ s. (s, raise ConnectionClosed ''closed'')), pl_await_wait = (\<lambda>s. (s, Inr [])),
      pl_wait_done = (\<lambda>_. True), pl_cancel_wait = (\<lambda>s. (s, Inr ())), pl_close = (\<lambda>s. (s, Inr ()))\<rparr>"

theorem post_waits_first_and_closes_witness:
  "\<exists>s' log r. run_post (traced sample_post_client) (lit ''f'') [] ((), []) = ((s', log), r) \<and>
     log \<noteq> [Connect] \<and> (\<exists>e. r = Inl e)"
proof -
  have done1: "\<forall>s. pl_wait_done sample_post_client (fst (pl_await_wait sample_post_client s))"
    by (simp add: sample_post_client_def)
  obtain s' log r where run: "run_post (traced sample_post_client) (lit ''f'') [] ((), []) = ((s', log), r)"
    by (metis surj_pair)
  from post_waits_first_and_closes [OF done1 run refl refl]
  have "log \<noteq> [Connect]" by (auto simp: sample_post_client_def)
  moreover from run have "\<exists>e. r = Inl e"
    by (auto simp: run_post_def traced_def sample_post_client_def raise_def Let_def)
  ultimately show ?thesis using run by blast
qed

section \<open>Logging\<close>

text \<open>Once it has succeeded, \<open>setup_logging\<close> adds no handlers any more.\<close>

lemma setup_logging_idempotent:
  assumes "setup_logging dir level made levelled opened s = (s', Inr d)"
  shows "setup_logging dir' level' made' levelled' opened' s' = (s', Inr d)"
  using assms
  by (cases "lg_setup_done s"; cases "lg_dir s"; cases made; cases levelled; cases opened)
    (auto simp: setup_logging_def Let_def)

section \<open>Defaults\<close>

text \<open>
  The commands without options run with the defaults of the library: no option value is refused, the configuration
  is the handler's own default, and the bound is that of the handler client; \<open>post\<close> sends \<open>{}\<close> to nobody.
\<close>

lemma command_defaults:
  "playwright_command True run \<lparr>op_channel = None, op_headless = None, op_max_inflight = None\<rparr> =
     loop_cmd (run default_playwright_config (hc_max_inflight default_handler_config))"
  "adb_command cache run' \<lparr>oa_serial = None, oa_adb_bin = None, oa_screenshot_dir = None, oa_shell_timeout = None,
       oa_max_inflight = None, oa_inflight_first = first\<rparr> =
     loop_cmd (run' (default_adb_config cache) (hc_max_inflight default_handler_config))"
  by (simp_all add: playwright_command_def adb_command_def with_option_def max_inflight_option_callback_def
      shell_timeout_option_callback_def option_value_def playwright_cmd_def adb_cmd_def default_handler_config_def
      default_playwright_config_def default_adb_config_def DEFAULT_SHELL_TIMEOUT_def float_le.simps Let_def)

lemma post_defaults:
  assumes "L = std_lib FT rp gz gunz"
  shows "post_command L stdin read_file run'' \<lparr>oo_receiver = None, oo_body = None, oo_request_id = None,
       oo_timeout = None, oo_timeout_first = first\<rparr> = post_cmd L (run'' [] [] [] (FFin 30 0))"
proof -
  have "json_dumps FT False False (PDict []) = Inr (lit ''{}'')"
    by (simp add: json_dumps_def lit_Cons)
  then have "json_loads FT (lit ''{}'') = Inr (PDict [])"
    using json_loads_dumps [of FT False False "PDict []"] by (simp add: wf_dict_def)
  moreover have "timeout_option_callback (FFin 30 0) = Inr (FFin 30 0)"
    by (simp add: timeout_option_callback_def)
  moreover have "read_body_raw stdin read_file (lit ''{}'') = Inr (lit ''{}'')"
    by (simp add: read_body_raw_def) (simp add: lit_Cons)
  ultimately show ?thesis
    using assms by (simp add: post_command_def with_option_def option_value_def body_option_callback_def Let_def)
qed

text \<open>A nonsense value is refused before anything runs.\<close>

lemma bad_inflight_refused:
  "n < 1 \<Longrightarrow> playwright_command installed run (opts\<lparr>op_max_inflight := Some n\<rparr>) = Usage (lit ''must be >= 1'')"
  by (simp add: playwright_command_def with_option_def max_inflight_option_callback_def option_value_def raise_def)

text \<open>
  Values the callbacks do not catch: not-a-number compares false with the bound; a body file that is not UTF-8,
  or a body with an over-long integer, ends the command with the exception itself.
\<close>

lemma nan_timeouts_accepted:
  "timeout_option_callback FNan = Inr FNan" "shell_timeout_option_callback FNan = Inr FNan"
  by (simp_all add: timeout_option_callback_def shell_timeout_option_callback_def)

lemma body_option_value_errors:
  "read_file p = Inl e \<Longrightarrow> exn_class e \<noteq> OSError \<Longrightarrow> p \<noteq> [] \<Longrightarrow> p \<noteq> lit ''-'' \<Longrightarrow>
     body_option_callback L stdin read_file (64 # p) = Inl e"
  "L = std_lib FT rp gz gunz \<Longrightarrow> \<not> short_int i \<Longrightarrow> read_file p = Inr (show_int i) \<Longrightarrow> p \<noteq> [] \<Longrightarrow> p \<noteq> lit ''-'' \<Longrightarrow>
     \<exists>e. body_option_callback L stdin read_file (64 # p) = Inl e \<and> exn_class e = ValueError"
proof -
  have [simp]: "lit ''-'' = [45]" "lit ''@-'' = [64, 45]" by (simp_all add: lit_Cons)
  show "read_file p = Inl e \<Longrightarrow> exn_class e \<noteq> OSError \<Longrightarrow> p \<noteq> [] \<Longrightarrow> p \<noteq> lit ''-'' \<Longrightarrow>
     body_option_callback L stdin read_file (64 # p) = Inl e"
    by (simp add: body_option_callback_def read_body_raw_def)
  show "L = std_lib FT rp gz gunz \<Longrightarrow> \<not> short_int i \<Longrightarrow> read_file p = Inr (show_int i) \<Longrightarrow> p \<noteq> [] \<Longrightarrow> p \<noteq> lit ''-'' \<Longrightarrow>
     \<exists>e. body_option_callback L stdin read_file (64 # p) = Inl e \<and> exn_class e = ValueError"
    by (simp add: body_option_callback_def read_body_raw_def json_loads_big raise_def)
qed

end
