(* ===== verification/Roles.thy ===== *)
theory Roles
  imports PyText
begin

text \<open>\<open>src/rpcproxy/auth/types.py\<close>: the roles of the authentication model, an enumeration of strings.\<close>

datatype role_name = JRPC_CALLER | JRPC_CALLEE | RELAY_SERVER | AUTHORIZATION_SERVER

fun role_value :: "role_name \<Rightarrow> pystr" where
  "role_value JRPC_CALLER = lit ''JrpcCaller''"
| "role_value JRPC_CALLEE = lit ''JrpcCallee''"
| "role_value RELAY_SERVER = lit ''RelayServer''"
| "role_value AUTHORIZATION_SERVER = lit ''AuthorizationServer''"

text \<open>The members in the order of their declaration, as iterating over the class gives them.\<close>

instantiation role_name :: enum
begin

definition enum_role_name :: "role_name list" where
  "enum_role_name = [JRPC_CALLER, JRPC_CALLEE, RELAY_SERVER, AUTHORIZATION_SERVER]"

definition enum_all_role_name :: "(role_name \<Rightarrow> bool) \<Rightarrow> bool" where
  "enum_all_role_name P = list_all P [JRPC_CALLER, JRPC_CALLEE, RELAY_SERVER, AUTHORIZATION_SERVER]"

definition enum_ex_role_name :: "(role_name \<Rightarrow> bool) \<Rightarrow> bool" where
  "enum_ex_role_name P = list_ex P [JRPC_CALLER, JRPC_CALLEE, RELAY_SERVER, AUTHORIZATION_SERVER]"

instance
proof
  show all: "(UNIV :: role_name set) = set enum_class.enum"
    using role_name.exhaust by (auto simp: enum_role_name_def)
  show "distinct (enum_class.enum :: role_name list)" by (simp add: enum_role_name_def)
  show "enum_class.enum_all P = Ball (UNIV :: role_name set) P" "enum_class.enum_ex P = Bex (UNIV :: role_name set) P" for P
    unfolding all by (simp_all add: enum_all_role_name_def enum_ex_role_name_def enum_role_name_def)
qed

end

text \<open>\<open>RoleName(value)\<close>\<close>

definition role_of_value :: "pystr \<Rightarrow> py_exn + role_name" where
  "role_of_value v =
     (case find (\<lambda>r. role_value r = v) enum_class.enum of
        None \<Rightarrow> raise ValueError ''not a valid RoleName'' | Some r \<Rightarrow> Inr r)"

text \<open>The values are distinct, and nothing else is the name of a role.\<close>

interpretation roles: strict_codec "\<lambda>r. Inr (role_value r)" role_of_value
proof
  show "Inr (role_value r) = Inr v \<Longrightarrow> role_of_value v = Inr r" for r v
    by (cases r) (auto simp: role_of_value_def enum_role_name_def)
  show "role_of_value v = Inr r \<Longrightarrow> Inr (role_value r) = Inr v" for r v
    by (auto simp: role_of_value_def find_Some_iff split: option.splits)
qed

lemma role_value_inject [simp]: "role_value r = role_value r' \<longleftrightarrow> r = r'"
  using roles.enc_inject by blast

end
