(* ===== verification/Sha256Check.thy ===== *)
theory Sha256Check
  imports Sha256
begin

text \<open>
  The hash against a published digest: the roots behind the constants are checked against their primes, and the
  digest of the body \<open>{}\<close> is computed by the simplifier.
\<close>

section \<open>The constants\<close>

lemma int_root_eq:
  assumes "r ^ k \<le> n" "n < (r + 1) ^ k" "n < 2 ^ (40 * k)" "0 < k"
  shows "int_root k n = r"
proof (rule antisym)
  note root = int_root_correct [OF assms(4,3)]
  have "int_root k n ^ k < (r + 1) ^ k" "r ^ k < (int_root k n + 1) ^ k" using root assms(1,2) by linarith+
  then have "int_root k n < r + 1" "r < int_root k n + 1" by (metis power_less_imp_less_base zero_le)+
  then show "int_root k n \<le> r" "r \<le> int_root k n" by simp_all
qed

definition is_root :: "nat \<Rightarrow> nat \<Rightarrow> nat \<Rightarrow> nat \<Rightarrow> bool" where
  "is_root k m p r \<longleftrightarrow> r ^ k \<le> p * m \<and> p * m < (r + 1) ^ k \<and> p * m < 2 ^ (40 * k)"

lemma int_roots_eq:
  assumes "0 < k"
  shows "list_all2 (is_root k m) ps rs \<Longrightarrow> map (\<lambda>p. of_nat (int_root k (p * m))) ps = map of_nat rs"
proof (induction rule: list_all2_induct)
  case (Cons p ps r rs)
  then have "int_root k (p * m) = r" using int_root_eq [OF _ _ _ assms] by (simp only: is_root_def)
  with Cons.IH show ?case by simp
qed simp

lemma cube_roots:
  "round_constants = map of_nat
    [5411319704, 6194414737, 7344290767, 8215976869, 9551921755, 10098905585, 11043570340, 11460697813,
     12214315672, 13195500289, 13492127166, 14311783875, 14809980276, 15046980094, 15499789991, 16133124468,
     16720292289, 16907126662, 17444216262, 17784676812, 17950125167, 18429019306, 18734950876, 19175934170,
     19734090066, 20001703533, 20132865992, 20390182855, 20516441075, 20764397895, 21588763473, 21813078375,
     22141143685, 22248366392, 22769593852, 22871018771, 23170020180, 23461497531, 23651862830, 23931792517,
     24205322401, 24295138891, 24734567280, 24820601251, 24990902297, 25075189284, 25569408389, 26045227120,
     26200031510, 26276752392, 26428864332, 26653801653, 26727943347, 27092625994, 27306805839, 27517677555,
     27725365998, 27793908591, 27997534228, 28131656200, 28198240250, 28526537963, 28973835255, 29099129074]"
  unfolding round_constants_def by (rule int_roots_eq) (simp_all add: small_primes_def is_root_def)

lemma square_roots:
  "initial_words = map of_nat
    [6074000999, 7439101573, 9603838834, 11363415354, 14244795007, 15485724812, 17708603819, 18721328409]"
  unfolding initial_words_def by (rule int_roots_eq) (simp_all add: small_primes_def is_root_def)

section \<open>One digest\<close>

lemma rotr_eval:
  fixes x :: "32 word"
  assumes "n < 32"
  shows "word_rotr n x = word_of_int (drop_bit n (uint x) + push_bit (32 - n) (take_bit n (uint x)))"
proof -
  have "take_bit (32 - n) (drop_bit n (uint x)) = drop_bit n (uint x)"
    using assms uint_bounded [of x] by (simp add: take_bit_drop_bit take_bit_int_eq_self)
  then have "uint (word_rotr n x) = drop_bit n (uint x) + push_bit (32 - n) (take_bit n (uint x))"
    using assms by (simp add: uint_word_rotr_eq concat_bit_eq unsigned_take_bit_eq)
  then show ?thesis by (metis word_of_int_uint)
qed

lemmas sha_eval = sha_round.simps big_sigma0_def big_sigma1_def small_sigma0_def small_sigma1_def sha_ch_def sha_maj_def
  rotr_eval Let_def

text \<open>The block of the body \<open>{}\<close> and its schedule.\<close>

definition empty_object_words :: "32 word list" where
  "empty_object_words =
     [2071822336, 0, 0, 0, 0, 0, 0, 0, 0, 0, 0, 0, 0, 0, 0, 16, 2071822336, 655360, 1881075121, 1073742468,
      2876412343, 16951296, 449313923, 2088615947, 31547332, 3359292530, 3290102559, 3036136812, 601867312,
      889122199, 3071844978, 485423374, 152329147, 1062645213, 3420480560, 3314553447, 3376436211, 3182919624,
      3303169995, 3046320567, 4176560403, 531104998, 1357711062, 374378360, 2563836536, 726234095, 3001597249,
      255802935, 2294541532, 1795841312, 1101638710, 2916519899, 827783383, 533041785, 726890306, 578201773,
      137558480, 3383183591, 4090254775, 901423603, 3769436099, 365963355, 2566219621, 2077535441]"

lemma empty_object_block: "be_words (sha_pad [123, 125]) = [2071822336, 0, 0, 0, 0, 0, 0, 0, 0, 0, 0, 0, 0, 0, 0, 16]"
  by code_simp

lemma schedule_numeral:
  "schedule (numeral k) ws = schedule (pred_numeral k) ((small_sigma1 (ws ! 1) + ws ! 6 + small_sigma0 (ws ! 14) + ws ! 15) # ws)"
  by (simp only: numeral_eq_Suc schedule.simps)

lemma empty_object_schedule:
  "rev (schedule 48 (rev [2071822336, 0, 0, 0, 0, 0, 0, 0, 0, 0, 0, 0, 0, 0, 0, 16])) = empty_object_words"
  unfolding empty_object_words_def by (simp add: schedule_numeral sha_eval)

text \<open>Sixteen rounds at a time.\<close>

lemma rounds_first:
  "foldl sha_round
     (HS 1779033703 3144134277 1013904242 2773480762 1359893119 2600822924 528734635 1541459225)
     (take 16 (drop 0 (zip round_constants empty_object_words))) =
   (HS 3210830873 4061643799 1766949663 2692594354 1805166450 1761156093 3074826616 253367842)"
  unfolding cube_roots empty_object_words_def by (simp add: sha_eval)

lemma rounds_second:
  "foldl sha_round
     (HS 3210830873 4061643799 1766949663 2692594354 1805166450 1761156093 3074826616 253367842)
     (take 16 (drop 16 (zip round_constants empty_object_words))) =
   (HS 268125433 535404417 2049523796 700495507 2718652346 3291208996 2400763443 1846140234)"
  unfolding cube_roots empty_object_words_def by (simp add: sha_eval)

lemma rounds_third:
  "foldl sha_round
     (HS 268125433 535404417 2049523796 700495507 2718652346 3291208996 2400763443 1846140234)
     (take 16 (drop 32 (zip round_constants empty_object_words))) =
   (HS 2258508394 2988506402 3809953398 3930564732 3008168603 2867034144 2067153924 2418868477)"
  unfolding cube_roots empty_object_words_def by (simp add: sha_eval)

lemma rounds_fourth:
  "foldl sha_round
     (HS 2258508394 2988506402 3809953398 3930564732 3008168603 2867034144 2067153924 2418868477)
     (take 16 (drop 48 (zip round_constants empty_object_words))) =
   (HS 3658058044 2588653829 3570907556 1385721700 1139604803 2229409271 4047275851 3234476657)"
  unfolding cube_roots empty_object_words_def by (simp add: sha_eval)

lemma foldl_slices:
  assumes "length xs = 64"
  shows "foldl f s xs = foldl f (foldl f (foldl f (foldl f s (take 16 (drop 0 xs))) (take 16 (drop 16 xs)))
     (take 16 (drop 32 xs))) (take 16 (drop 48 xs))"
proof -
  let ?a = "\<lambda>k. take 16 (drop k xs)"
  have "drop 16 xs = ?a 16 @ drop 32 xs" "drop 32 xs = ?a 32 @ drop 48 xs"
    using append_take_drop_id [of 16 "drop 16 xs"] append_take_drop_id [of 16 "drop 32 xs"] by simp_all
  moreover have "xs = ?a 0 @ drop 16 xs" "drop 48 xs = ?a 48" using assms by simp_all
  ultimately have "xs = ?a 0 @ ?a 16 @ ?a 32 @ ?a 48" by simp
  then have "foldl f s xs = foldl f s (?a 0 @ ?a 16 @ ?a 32 @ ?a 48)" by (rule arg_cong)
  also have "\<dots> = foldl f (foldl f (foldl f (foldl f s (?a 0)) (?a 16)) (?a 32)) (?a 48)"
    by (simp only: foldl_append)
  finally show ?thesis .
qed

lemma sha256_empty_object:
  "sha256_hex [123, 125] = lit ''44136fa355b3678a1146ad16f7e8649e94fb4fc21fe77e8310c060f61caaff8a''"
proof -
  have len: "length (zip round_constants empty_object_words) = 64"
    by (simp add: cube_roots empty_object_words_def)
  have initial: "initial_hash =
      HS 1779033703 3144134277 1013904242 2773480762 1359893119 2600822924 528734635 1541459225"
    by (simp add: initial_hash_def square_roots Let_def)
  have "sha_block initial_hash (be_words (sha_pad [123, 125])) =
      HS 1142124451 1437820810 289844502 4159202462 2499497922 535264899 281043190 480968586"
    unfolding empty_object_block sha_block_def empty_object_schedule initial foldl_slices [OF len]
      rounds_first rounds_second rounds_third rounds_fourth by simp
  then have "sha_blocks initial_hash (be_words (sha_pad [123, 125])) =
      HS 1142124451 1437820810 289844502 4159202462 2499497922 535264899 281043190 480968586"
    by (simp add: empty_object_block sha_blocks.simps [of _ "_ # _"] sha_blocks.simps [of _ "[]"])
  moreover have "hexdigest (concat (map (be_bytes 4) ([1142124451, 1437820810, 289844502, 4159202462,
        2499497922, 535264899, 281043190, 480968586] :: 32 word list))) =
      lit ''44136fa355b3678a1146ad16f7e8649e94fb4fc21fe77e8310c060f61caaff8a''"
    by code_simp
  ultimately show ?thesis by (simp only: sha256_hex_def sha256_def hash_words_def hash_state.sel)
qed

end
