(* ===== verification/UnitTests.thy ===== *)
theory UnitTests
  imports ApiKey Sessions LocalAuth Cli DemoLoop Roles StdLib "HOL-Library.Code_Target_Nat"
begin

text \<open>
  Examples of the repository's own tests (\<open>src/tests\<close>) on the models: each lemma follows the inputs and the expected
  values of the test function whose name it bears. Clocks, random tokens and addresses are fixed, and the hash of
  the keys is the one of \<open>Samples\<close>.
\<close>

section \<open>\<open>test_auth_api_key.py\<close>\<close>

lemma test_role_names_are_protocol_stable:
  "map role_value enum_class.enum = map lit [''JrpcCaller'', ''JrpcCallee'', ''RelayServer'', ''AuthorizationServer'']"
  by (simp add: enum_role_name_def)

lemma test_api_key_parses_callee_id_and_masks_secret:
  "generate_api_key f g (lit ''callee-1'') (Some (lit ''kid1'')) (Some (lit ''secret1'')) = Inr (lit ''rpcp_ck_callee-1_kid1_secret1'')"
  "parse_api_key (lit ''rpcp_ck_callee-1_kid1_secret1'') =
     Inr \<lparr>kp_callee_id = lit ''callee-1'', kp_key_id = lit ''kid1'', kp_secret = lit ''secret1''\<rparr>"
  "mask_api_key (lit ''rpcp_ck_callee-1_kid1_secret1'') = Inr (lit ''rpcp_ck_callee-1_kid1_...'')"
  by code_simp+

lemma test_api_key_rejects_ambiguous_callee_id:
  "case generate_api_key [] [] (lit ''callee_1'') None None of Inl e \<Rightarrow> exn_class e = InvalidApiKeyError | Inr _ \<Rightarrow> False"
  by code_simp

text \<open>A key issued by \<open>callee-1\<close>, its store, and a key with the same id and another secret.\<close>

definition issued_by_callee :: "record_store_state \<times> pystr" where
  "issued_by_callee =
     (case issue_api_key sample_lib save_record (lit ''callee-1'') (lit ''k1'') (lit ''s1'') (FFin 10 0) [] of
        (st, Inr issue) \<Rightarrow> (st, ki_api_key issue) | (st, Inl _) \<Rightarrow> (st, []))"

lemma test_callee_verifies_own_key_and_rejects_wrong_callee:
  "(let (st, key) = issued_by_callee
    in verify_api_key sample_lib get_record (lit ''callee-1'') key st = Inr True \<and>
       verify_api_key sample_lib get_record (lit ''callee-2'') key st = Inr False)"
  by code_simp

lemma test_callee_rejects_wrong_secret_and_revoked_key:
  "(let (st, key) = issued_by_callee;
        verify = verify_api_key sample_lib get_record (lit ''callee-1'')
    in verify (lit ''rpcp_ck_callee-1_k1_badsecret'') st = Inr False \<and>
       verify key (revoke_record (lit ''callee-1'') (lit ''k1'') st) = Inr False)"
  by code_simp

lemma test_caller_store_requires_expected_callee_id:
  "get_api_key (fst (save_api_key (lit ''callee-1'') (lit ''rpcp_ck_callee-1_kid1_secret1'') [])) (lit ''callee-1'') =
     Some (lit ''rpcp_ck_callee-1_kid1_secret1'')"
  "case save_api_key (lit ''callee-2'') (lit ''rpcp_ck_callee-1_kid1_secret1'') [] of
     (st, Inl e) \<Rightarrow> st = [] \<and> exn_class e = InvalidApiKeyError | _ \<Rightarrow> False"
  by code_simp+

text \<open>A session created at 100 for 30 seconds, and one created at 100 for one second and looked up at 102.\<close>

lemma test_login_session_uses_temporary_caller_id_only_during_login:
  "(let (st, r) = create_session (FFin 100 0) (lit ''caller-login-1'') (FFin 30 0) (Some (lit ''rpc-channel-1'')) [];
        (st1, p) = get_pending_session (FFin 100 0) (lit ''caller-login-1'') st;
        (st2, done) = complete_session (FFin 100 0) (lit ''caller-login-1'') st1
    in (case r of Inr s \<Rightarrow> ls_caller_id s = lit ''caller-login-1'' \<and> p = Some s | Inl _ \<Rightarrow> False) \<and>
       (case done of Inr s \<Rightarrow> ls_status s = COMPLETED | Inl _ \<Rightarrow> False) \<and>
       snd (get_pending_session (FFin 100 0) (lit ''caller-login-1'') st2) = None)"
  by code_simp

lemma test_expired_login_session_cannot_complete:
  "(let st = fst (create_session (FFin 100 0) (lit ''caller-login-1'') (FFin 1 0) None []);
        (st1, p) = get_pending_session (FFin 102 0) (lit ''caller-login-1'') st
    in p = None \<and>
       (case snd (complete_session (FFin 102 0) (lit ''caller-login-1'') st1) of
          Inl e \<Rightarrow> exn_class e = LoginSessionError | Inr _ \<Rightarrow> False))"
  by code_simp

section \<open>\<open>test_adb_handler.py\<close>\<close>

lemma test_safe_filename:
  "safe_filename (lit ''a.png'')" "\<not> safe_filename (lit ''../x'')" "\<not> safe_filename (lit ''a/b'')"
  by code_simp+

lemma test_escape_input_text_spaces: "escape_input_text_for_android (lit ''a b'') = Inr (lit ''a%sb'')"
  by code_simp

lemma test_escape_input_text_rejects_bad_chars:
  "case escape_input_text_for_android [20320, 22909] of Inl e \<Rightarrow> exn_class e = ValueError | Inr _ \<Rightarrow> False"
  by (simp add: escape_input_text_for_android_def input_text_allowed_def input_char_def raise_def)

section \<open>\<open>test_auth_local_authorization.py\<close>\<close>

lemma test_build_authorization_url_adds_state:
  "build_authorization_url (lit ''http://127.0.0.1:17653/authorize'') (lit ''caller-1'') =
     Inr (lit ''http://127.0.0.1:17653/authorize?state=caller-1'')"
  by code_simp

text \<open>A server whose records and sessions are kept in memory, and a request to it.\<close>

definition test_env :: "(pystr \<Rightarrow> pystr \<Rightarrow> login_session \<Rightarrow> py_exn + unit) \<Rightarrow> record_store_state auth_env" where
  "test_env deliver = \<lparr>ae_lib = sample_lib, ae_callee = lit ''callee-1'', ae_save = save_record, ae_push = deliver\<rparr>"

definition with_session :: "pyfloat \<Rightarrow> record_store_state auth_state" where
  "with_session ttl =
     \<lparr>au_sessions = fst (create_session (FFin 100 0) (lit ''caller-1'') ttl (Some (lit ''channel-1'')) []), au_records = [],
      au_pushed = []\<rparr>"

definition page_request :: "string \<Rightarrow> http_request" where
  "page_request path = \<lparr>hq_path = lit path, hq_content_length = None, hq_input = []\<rparr>"

definition confirm_request :: http_request where
  "confirm_request =
     \<lparr>hq_path = lit ''/authorize/confirm'', hq_content_length = Some (lit ''14''), hq_input = map of_nat (lit ''state=caller-1'')\<rparr>"

definition confirm_at :: "pyfloat \<Rightarrow> confirm_inputs" where
  "confirm_at now =
     \<lparr>in_resolve_time = now, in_issue_time = now, in_complete_time = now, in_key = lit ''k1'', in_secret = lit ''s1''\<rparr>"

definition status_of :: "'a \<times> (py_exn + http_response) \<Rightarrow> nat option" where
  "status_of r = (case snd r of Inl _ \<Rightarrow> None | Inr resp \<Rightarrow> Some (hr_status resp))"

lemma test_healthz_returns_ok:
  "snd (do_GET (\<lambda>_. Inr ()) default_config (FFin 100 0) (page_request ''/healthz'') (with_session (FFin 30 0))) = send_text 200 (lit ''ok'')"
  by code_simp

lemma test_authorize_page_for_pending_session:
  "status_of (do_GET (\<lambda>_. Inr ()) default_config (FFin 100 0) (page_request ''/authorize?state=caller-1'') (with_session (FFin 30 0))) =
     Some 200"
  by code_simp

lemma test_authorize_page_requires_state:
  "snd (do_GET (\<lambda>_. Inr ()) default_config (FFin 100 0) (page_request ''/authorize'') (with_session (FFin 30 0))) =
     send_text 400 (lit ''missing state'')"
  by code_simp

lemma test_authorize_page_rejects_unknown_state:
  "snd (do_GET (\<lambda>_. Inr ()) default_config (FFin 100 0) (page_request ''/authorize?state=missing'') (with_session (FFin 30 0))) =
     send_html 400 (error_page (lit ''login session is missing or expired''))"
  by code_simp

lemma test_confirm_authorization_pushes_api_key_and_completes_session:
  "(let (st, r) = do_POST (\<lambda>_. Inr ()) default_config (test_env (\<lambda>_ _ _. Inr ())) (confirm_at (FFin 100 0)) confirm_request
                    (with_session (FFin 30 0))
    in r = send_html 200 success_page \<and>
       (case au_pushed st of
          [(caller, key, session)] \<Rightarrow> caller = lit ''caller-1'' \<and> ls_push_channel_id session = Some (lit ''channel-1'') \<and>
            verify_api_key sample_lib get_record (lit ''callee-1'') key (au_records st) = Inr True
        | _ \<Rightarrow> False) \<and>
       snd (get_pending_session (FFin 100 0) (lit ''caller-1'') (au_sessions st)) = None)"
  by code_simp

lemma test_confirm_authorization_rejects_expired_session:
  "(let r = do_POST (\<lambda>_. Inr ()) default_config (test_env (\<lambda>_ _ _. Inr ())) (confirm_at (FFin 102 0)) confirm_request
              (with_session (FFin 1 0))
    in status_of r = Some 400 \<and> au_pushed (fst r) = [])"
  by code_simp

lemma test_confirm_authorization_push_failure_does_not_complete_session:
  "(let r = do_POST (\<lambda>_. Inr ()) default_config (test_env (\<lambda>_ _ _. raise RuntimeError ''rpc push failed''))
              (confirm_at (FFin 100 0)) confirm_request (with_session (FFin 30 0))
    in status_of r = Some 500 \<and>
       snd (get_pending_session (FFin 100 0) (lit ''caller-1'') (au_sessions (fst r))) \<noteq> None)"
  by code_simp

section \<open>\<open>test_cli_post.py\<close>, \<open>test_cli_playwright.py\<close>\<close>

lemma test_post_body_invalid_json_exits_2:
  "case body_option_callback std_sample stdin read_file (lit ''{not-json'') of
     Inl e \<Rightarrow> exn_class e = BadParameter | Inr _ \<Rightarrow> False"
  by code_simp

lemma test_post_body_must_be_json_object:
  "body_option_callback std_sample stdin read_file (lit ''[]'') = raise BadParameter ''must be a JSON object (e.g. {})''"
  by code_simp

lemma test_post_timeout_must_be_positive: "timeout_option_callback (FFin 0 0) = raise BadParameter ''must be positive''"
  by code_simp

definition quoted_name :: pystr where
  "quoted_name = lit ''{'' @ [34] @ lit ''hello'' @ [34] @ lit '': '' @ [34] @ lit ''name'' @ [34] @ lit ''}''"

lemma test_post_body_from_stdin_dash:
  "body_option_callback std_sample (Inr quoted_name) read_file (lit ''-'') = Inr [(lit ''hello'', PStr (lit ''name''))]"
  by code_simp

lemma test_post_body_from_stdin_at_dash:
  "body_option_callback std_sample (Inr (lit ''{'' @ [34] @ lit ''x'' @ [34] @ lit '': 1}'' @ [10])) read_file (lit ''@-'') =
     Inr [(lit ''x'', PInt 1)]"
  by code_simp

lemma test_post_body_from_file:
  "body_option_callback std_sample stdin
     (\<lambda>p. if p = lit ''body.json'' then Inr (lit ''{'' @ [34] @ lit ''a'' @ [34] @ lit '': true}'') else raise OSError ''no file'')
     (lit ''@body.json'') = Inr [(lit ''a'', PBool True)]"
  by code_simp

lemma test_playwright_max_inflight_must_be_positive:
  "max_inflight_option_callback 0 = raise BadParameter ''must be >= 1''"
  by code_simp

section \<open>\<open>test_handler_client.py\<close>, \<open>test_demo_loop.py\<close>\<close>

lemma test_max_inflight_must_be_positive:
  "new_handler_client (Inr c) (default_handler_config\<lparr>hc_max_inflight := 0\<rparr>) = raise ValueError ''max_inflight must be >= 1''"
  by (simp add: new_handler_client_def check_handler_config_def default_handler_config_def raise_def)

definition peer_envelope :: "pydict option \<Rightarrow> envelope" where
  "peer_envelope body =
     \<lparr>ev_message_type = lit ''t'', ev_kind = lit ''k'', ev_client_id = lit ''c1'', ev_sender = lit ''peer'', ev_receiver = [],
      ev_body = body, ev_request_id = lit ''r1'', ev_extra = []\<rparr>"

lemma test_demo_echo_envelope_handler:
  "map_sum id hr_body (snd (demo_echo_envelope_handler std_sample
     (peer_envelope (Some [(lit ''n'', PInt 1), (lit ''msg'', PStr (lit ''hi''))])) [] ())) =
   Inr (PDict [(lit ''n'', PInt 1), (lit ''msg'', PStr (lit ''hi'')), (lit ''is_echo'', PBool True)])"
  "map_sum id hr_body (snd (demo_echo_envelope_handler std_sample (peer_envelope None) [] ())) =
   Inr (PDict [(lit ''is_echo'', PBool True)])"
  by code_simp+

section \<open>\<open>test_client_base.py\<close>\<close>

text \<open>A client with the given bound of the stash after the receipts of the given request ids.\<close>

definition after_receipts :: "int \<Rightarrow> string list \<Rightarrow> client \<Rightarrow> client" where
  "after_receipts n rids c =
     foldl (\<lambda>c rid. relay_publish (lit rid) [(lit ''request_id'', PStr (lit rid))] c) (c\<lparr>c_stash_max := n\<rparr>) rids"

definition fresh_client :: client where
  "fresh_client = (case new_client [] None 1000 128 of Inr c \<Rightarrow> c)"

lemma test_relay_stash_lru_evicts_oldest:
  "(let c = after_receipts 2 [''r-a'', ''r-b'', ''r-c''] fresh_client
    in snd (wait_relay_begin (lit ''r-a'') c) = Inr (Suspended 0) \<and>
       snd (wait_relay_begin (lit ''r-b'') c) = Inr (Returned (relay_receipt [(lit ''request_id'', PStr (lit ''r-b''))])) \<and>
       snd (wait_relay_begin (lit ''r-c'') c) = Inr (Returned (relay_receipt [(lit ''request_id'', PStr (lit ''r-c''))])))"
  by code_simp

lemma test_relay_stash_max_size_zero_drops_unwaited_receipts:
  "(let c = after_receipts 0 [''early''] fresh_client;
        (c1, r) = wait_relay_begin (lit ''late'') c;
        c2 = relay_publish (lit ''late'') [(lit ''request_id'', PStr (lit ''late''))] c1
    in snd (wait_relay_begin (lit ''early'') c) = Inr (Suspended 0) \<and> r = Inr (Suspended 0) \<and>
       c_futs c2 0 = Done (relay_receipt [(lit ''request_id'', PStr (lit ''late''))]))"
  by code_simp

lemma test_wait_relay_predicate_second_waiter_runtimeerror:
  "snd (wait_relay_begin (lit ''dup'') (fst (wait_relay_begin (lit ''dup'') fresh_client))) =
     raise RuntimeError ''already waiting for this request_id''"
  by code_simp

lemma test_wait_relay_predicate_empty_request_id_valueerror:
  "snd (wait_relay_begin (lit ''   '') fresh_client) = raise ValueError ''request_id must be non-empty''"
  by code_simp

lemma test_post_message_auto_uses_plain_post_for_small_body:
  "post_message_auto std_sample (\<lambda>m args s. (s @ [(m, get args ''body'')], Inr (PStr (lit ''plain-ok'')))) (lit ''t1'')
     (lit ''peer-small'') (PDict [(lit ''msg'', PStr (lit ''hi''))]) (lit ''small-1'') 1000 64 False [] =
   ([(lit ''post_message'', PDict [(lit ''msg'', PStr (lit ''hi''))])],
    Inr \<lparr>apr_chunked = False, apr_response = Some (lit ''plain-ok''), apr_chunk_report = None\<rparr>)"
  by code_simp

end
