(* ===== verification/Spec2Isabelle.thy ===== *)
theory Spec2Isabelle
  imports WireProps ChunkProps ClientProps PostProps HandlerProps ChunkedEcho ApiKeyProps SessionProps LocalAuthProps
    AdbProps PlaywrightProps CliProps Roles Sha256Check UnitTests
begin

text \<open>
  This library models \<open>rpcproxy\<close> (Python, \<open>src/rpcproxy\<close>): clients of a relay server that call each other
  with JSON messages over a WebSocket, the two command handlers built on them (an Android device through
  \<open>adb\<close>, a browser through Playwright), the API keys and the local HTTP server through which a callee gives
  keys to callers, and the command line.

  \<^bold>\<open>Conventions.\<close> A \<open>str\<close> is the list of its code points, \<open>bytes\<close> a list of 8-bit words, a \<open>dict\<close> an
  association list in insertion order, a float \<open>m * 2 ^ e\<close>. A statement that may raise has type
  \<open>py_exn + 'a\<close>; what asks the outside is a parameter: library results that are only passed on (\<open>pylib\<close>),
  the outcome of an awaited call, clocks, random tokens, processes, files. A coroutine is cut at its awaits:
  what runs between two of them is one function on the state, and the interleavings are sequences of these.

  \<^bold>\<open>Theories.\<close>

  \<^item> \<open>Prelude\<close>, \<open>PyText\<close>, \<open>OrderedDict\<close>, \<open>UrlText\<close>: Python's values, \<open>dict\<close> and \<open>OrderedDict\<close>, \<open>strip\<close>,
    \<open>int\<close>, UTF-8 (both directions), base64, percent encoding, \<open>parse_qs\<close>, \<open>urlparse\<close>, \<open>html.escape\<close>. The
    locale \<open>codec\<close> (an encoder and the decoder that undoes it) is interpreted on base64 and query text, its
    extension \<open>strict_codec\<close> (nothing else decodes, so that it is a codec both ways) on UTF-8 and on role names;
    the locale \<open>lru\<close> (a bounded table, oldest entry first) on the reassembler and on the stash of receipts.
  \<^item> \<open>Json\<close>, \<open>JsonFacts\<close>, \<open>Sha256\<close>, \<open>Sha256Check\<close>, \<open>StdLib\<close>: \<open>json.dumps\<close>, \<open>json.loads\<close> and \<open>hashlib.sha256\<close> as the sources
    call them. \<open>std_lib\<close> is the library record made of them; what the components ask of a library (texts that
    parse back, digests of 64 hexadecimal characters) is proved for it (and the hash computed on the body \<open>{}\<close>), so that the properties of the round
    trips and of the keys have no hypothesis on JSON or on the hash.
  \<^item> \<open>Wire\<close>, \<open>WireProps\<close>: \<open>fastapi_ws_rpc/wire.py\<close>, the messages: construction, extraction, their JSON text and
    back, the types of the payloads.
  \<^item> \<open>Chunking\<close>, \<open>ChunkFacts\<close>, \<open>ChunkRoundtrip\<close>, \<open>ChunkProps\<close>: \<open>client/chunking.py\<close>, bodies cut into envelopes
    and put together again: round trip in any order, integrity, bounds of the table.
  \<^item> \<open>ClientBase\<close>, \<open>ClientFacts\<close>, \<open>ClientSteps\<close>, \<open>ClientCalls\<close>, \<open>ClientProps\<close>: \<open>client/base.py\<close>. \<open>client\<close> is the
    object's state, \<open>step\<close> the relation of the interleavings of its coroutines (calls, relay waits, the reader,
    close), \<open>reachable\<close> its states; the invariants say which table entry belongs to which waiting coroutine.
  \<^item> \<open>ClientPost\<close>, \<open>PostProps\<close>: \<open>post_message\<close>, its chunked and its automatic form.
  \<^item> \<open>HandlerClient\<close>, \<open>DemoLoop\<close>, \<open>HandlerProps\<close>: \<open>client/handler_client.py\<close> and the loops: acknowledge, run the
    handler under a bound, reply to the sender.
  \<^item> \<open>SessionClient\<close>: the clients of the two command sessions, their pipeline from the accepted envelope to the
    posted reply, and their \<open>close\<close>. \<open>DemoProps\<close>: the demo client from the frame on the wire to the echo.
  \<^item> \<open>Delivery\<close>, \<open>ChunkedEcho\<close> and this theory: the encoder of one client and the reader of another together,
    up to the echo that the demo client posts for a chunked message.
  \<^item> \<open>ApiKey\<close>, \<open>ApiKeyFacts\<close>, \<open>ApiKeyProps\<close>: \<open>auth/api_key.py\<close>. The locale \<open>record_store\<close> is what issuer and
    verifier ask of their store, interpreted on the in-memory store.
  \<^item> \<open>Sessions\<close>, \<open>SessionProps\<close>: \<open>auth/sessions.py\<close>, refined from a table of live sessions.
  \<^item> \<open>LocalAuth\<close>, \<open>LocalAuthFacts\<close>, \<open>LocalAuthProps\<close>: \<open>auth/local_authorization.py\<close>: requests, the confirmation
    (also cut into the steps at which two threads can meet), pages.
  \<^item> \<open>CommandSession\<close>: coroutines over a session and the locale \<open>command_session\<close>, the contract between a
    command handler and its session, interpreted on the next two.
  \<^item> \<open>AdbText\<close>, \<open>AdbHandler\<close>, \<open>AdbFacts\<close>, \<open>AdbProps\<close>: \<open>handlers/adb_handler.py\<close>: quoting against a model of the
    shell's word splitting, framing of outputs by the marker, commands.
  \<^item> \<open>Playwright\<close>, \<open>PlaywrightFacts\<close>, \<open>PlaywrightProps\<close>: \<open>handlers/playwright_handler.py\<close>.
  \<^item> \<open>Cli\<close>, \<open>CliProps\<close>: \<open>cli_post.py\<close>, \<open>cli.py\<close>, \<open>logging_config.py\<close>. \<open>Roles\<close>: \<open>auth/types.py\<close>.
  \<^item> \<open>Samples\<close>: concrete parameters for the witnesses. \<open>UnitTests\<close>: examples of the repository's tests
    (\<open>src/tests\<close>), evaluated on the models.

  \<^bold>\<open>Bounds.\<close> The loops of the sources run over finite data (bytes, frames, reads) and are structural or have
  a measure; a loop that waits for the outside takes the list of what the outside does and is still waiting
  at its end (\<open>read_until_marker\<close>, \<open>draw_page_id\<close>). The one model with fuel is the JSON parser: \<open>json_loads\<close>
  gives it \<open>2 * length s + 1\<close>, every nested call leaves less text, and \<open>JsonFacts\<close> shows that this much is never
  used up and that more changes nothing. The numbers of the sources (2 MB of shell output, 256 KiB of response
  body, 256 characters of text, 4300 digits) are definitions or literals of the models.

  \<^bold>\<open>Not modelled.\<close> Sockets, the event loop's choice of the next coroutine (every choice is allowed), log
  output, click's argument parsing, \<open>http.server\<close>'s request line, Playwright, gzip and \<open>requests\<close>; the modules
  that only re-export names or annotate types. The lock of a handler session appears as the order of its
  commands. Of JSON: the recursion limit of the interpreter, the position in the message of a
  \<open>JSONDecodeError\<close>, and the text of a finite float (\<open>float_text\<close>, a parameter). The sign of a float zero and
  the \<open>repr\<close> of containers are not modelled.
\<close>

section \<open>Chunked messages from client to client\<close>

text \<open>
  C3: a large body arrives once and whole: if the envelopes of \<open>encode_chunked_bodies\<close> reach the
  receiving client as the bodies of \<open>receive_envelope\<close> calls, in any order and with repetitions,
  every call but the one that brings the last missing envelope is answered \<open>{"ok": True}\<close> at once, and
  that one calls the hook with the body that was encoded and the request id of the whole message.
\<close>

theorem chunked_delivery:
  assumes "L = std_lib FT rp gz gunz" "\<forall>x. gunz (gz x) = Inr x" "json_ok FT False (PDict d)"
    and "client_ok c" "encode_chunked_bodies L fresh (PDict d) rid n compress tid = Inr batch"
    and "ecb_transfer_id batch \<notin> fst ` set (transfers (c_chunks c))"
    and "0 \<le> k" "k < ecb_chunk_count batch" "set is = {0..<ecb_chunk_count batch} - {k}"
    and "py_strip rid \<noteq> []" "map_of args (lit ''self'') = None"
  shows "(let envelope = (\<lambda>i. with_body args (ecb_bodies batch ! nat i));
              (c1, rs) = invoke_all L (map envelope is) c;
              (c2, r) = invoke_receive_envelope L (envelope k) c1
          in (\<forall>r \<in> set rs. r = Inr (Answer (ok_result True))) \<and>
             (\<exists>ev. r = Inr (CallHook ev) \<and> ev_body ev = Some d \<and> ev_request_id ev = rid))"
proof -
  obtain c1 R m where h: "invoke_all L (map (\<lambda>i. with_body args (ecb_bodies batch ! nat i)) is) c =
        (c1, map (\<lambda>_. Inr (Answer (ok_result True))) is)"
      "is_chunk_envelope (ecb_bodies batch ! nat k) = Inr True"
      "push L (ecb_bodies batch ! nat k) (c_chunks c1) = (R, Inr (Some m))" "dcm_body m = d" "dcm_request_id m = rid"
    by (rule chunked_hook_call [OF assms(1-9), where args = args])
  then show ?thesis using assms(10,11) invoke_completing [OF h(2,3)]
    by (simp add: Let_def split_beta deliver_assembled envelope_assembled)
qed

theorem chunked_delivery_witness:
  "\<exists>batch ev. encode_chunked_bodies std_sample (lit ''t1'') (PDict sample_body) (lit ''r1'') 4 False None = Inr batch \<and>
     snd (invoke_receive_envelope std_sample (with_body [] (ecb_bodies batch ! 0))
       (fst (invoke_all std_sample [with_body [] (ecb_bodies batch ! 1)] sample_client))) = Inr (CallHook ev) \<and>
     ev_body ev = Some sample_body"
proof -
  let ?batch = "make_batch std_sample (lit ''t1'') (lit ''r1'') 4 std_body_bytes (lit ''identity'')"
  note enc = std_sample_encoded [of "lit ''t1''" "lit ''r1''"]
  have gz: "\<forall>x. Inr x = Inr x" by simp
  have cnt: "ecb_chunk_count ?batch = 2" by (simp add: make_batch_simps std_sample_count)
  have only: "set [1::int] = {0..<2} - {0}" by auto
  have "transfers (c_chunks sample_client) = []" by (simp add: sample_client_def)
  then show ?thesis
    using chunked_delivery [OF std_sample_def gz sample_json_ok new_client_ok [OF sample_client_new] enc, of 0 "[1]" "[]"] cnt enc only
    by (auto simp: Let_def split_beta sample_body_def)
qed

section \<open>A chunked message to the demo client\<close>



end
